(* ===== verification/Ruby_Prelude.thy ===== *)
theory Ruby_Prelude
  imports Main "HOL-Library.Word"
begin

text \<open>
  Shared vocabulary of the development.

  The simulator stops on a failed \<^verbatim>\<open>assert\<close>, on \<^verbatim>\<open>fatal\<close> and on \<^verbatim>\<open>panic\<close>; it has
  undefined behaviour on an out-of-range vector index, a null dereference, a division by
  zero, an over-wide shift and a negation that overflows.  All of these are values of
  \<open>sim_error\<close>, and every operation that can reach one of them returns a value of \<open>'a res\<close>.  The
  combinators \<open>bindE\<close>, \<open>assertE\<close>, \<open>nthE\<close> and \<open>updE\<close> sequence such operations in the order of the
  C++ statements.

  Ticks and addresses are 64-bit unsigned integers of the simulator
  (\<^verbatim>\<open>src/gem5/src/base/types.hh\<close>) and are 64-bit words here, so that \<open>+\<close> and \<open>-\<close> wrap as in
  the code.
\<close>

unbundle bit_operations_syntax

type_synonym Addr = "64 word"
type_synonym Tick = "64 word"
type_synonym Cycles = "64 word"

datatype sim_error =
    AssertFail string
  | Fatal string
  | Panic string
  | OutOfRange
  | NullDeref
  | DivByZero
  | UndefShift
  | UndefNegation

type_synonym 'a res = "sim_error + 'a"

section \<open>Sequencing\<close>

definition bindE :: "'a res \<Rightarrow> ('a \<Rightarrow> 'b res) \<Rightarrow> 'b res" where
  "bindE m f = (case m of Inl e \<Rightarrow> Inl e | Inr x \<Rightarrow> f x)"

definition assertE :: "bool \<Rightarrow> string \<Rightarrow> unit res" where
  "assertE b msg = (if b then Inr () else Inl (AssertFail msg))"

definition guardE :: "bool \<Rightarrow> sim_error \<Rightarrow> unit res" where
  "guardE b e = (if b then Inr () else Inl e)"

definition nthE :: "'a list \<Rightarrow> nat \<Rightarrow> 'a res" where
  "nthE xs i = (if i < length xs then Inr (xs ! i) else Inl OutOfRange)"

definition updE :: "'a list \<Rightarrow> nat \<Rightarrow> 'a \<Rightarrow> 'a list res" where
  "updE xs i v = (if i < length xs then Inr (xs[i := v]) else Inl OutOfRange)"

definition derefE :: "'a option \<Rightarrow> 'a res" where
  "derefE p = (case p of None \<Rightarrow> Inl NullDeref | Some x \<Rightarrow> Inr x)"

named_theorems res_simps \<open>simplification of the result combinators\<close>
named_theorems res_iffs \<open>when a sequence of operations succeeds\<close>

lemma bindE_Inr [simp, res_simps]: "bindE (Inr x) f = f x"
  by (simp add: bindE_def)

lemma bindE_Inl [simp, res_simps]: "bindE (Inl e) f = Inl e"
  by (simp add: bindE_def)

lemma bindE_eq_Inr [res_iffs]:
  "bindE m f = Inr y \<longleftrightarrow> (\<exists>x. m = Inr x \<and> f x = Inr y)"
  by (cases m) auto

lemma bindE_eq_Inl:
  "bindE m f = Inl e \<longleftrightarrow> m = Inl e \<or> (\<exists>x. m = Inr x \<and> f x = Inl e)"
  by (cases m) auto

lemma bindE_assoc: "bindE (bindE m f) g = bindE m (\<lambda>x. bindE (f x) g)"
  by (cases m) auto

lemma bindE_cong [fundef_cong]:
  "m = m' \<Longrightarrow> (\<And>x. m' = Inr x \<Longrightarrow> f x = f' x) \<Longrightarrow> bindE m f = bindE m' f'"
  by (cases m') auto

lemma assertE_eq_Inr [res_iffs]: "assertE b msg = Inr u \<longleftrightarrow> b"
  by (simp add: assertE_def)

lemma assertE_True [simp, res_simps]: "assertE True msg = Inr ()"
  by (simp add: assertE_def)

lemma assertE_False [simp, res_simps]: "assertE False msg = Inl (AssertFail msg)"
  by (simp add: assertE_def)

lemma guardE_eq_Inr [res_iffs]: "guardE b e = Inr u \<longleftrightarrow> b"
  by (simp add: guardE_def)

lemma guardE_simps [simp, res_simps]: "guardE True e = Inr ()" "guardE False e = Inl e"
  by (simp_all add: guardE_def)

lemma nthE_eq_Inr [res_iffs]: "nthE xs i = Inr x \<longleftrightarrow> i < length xs \<and> x = xs ! i"
  by (auto simp: nthE_def)

lemma nthE_in_range [res_simps]: "i < length xs \<Longrightarrow> nthE xs i = Inr (xs ! i)"
  by (simp add: nthE_def)

lemma updE_eq_Inr [res_iffs]: "updE xs i v = Inr ys \<longleftrightarrow> i < length xs \<and> ys = xs[i := v]"
  by (auto simp: updE_def)

lemma updE_in_range [res_simps]: "i < length xs \<Longrightarrow> updE xs i v = Inr (xs[i := v])"
  by (simp add: updE_def)

lemma derefE_eq_Inr [res_iffs]: "derefE p = Inr x \<longleftrightarrow> p = Some x"
  by (auto simp: derefE_def split: option.splits)

lemma derefE_simps [simp, res_simps]:
  "derefE (Some x) = Inr x" "derefE None = Inl NullDeref"
  by (simp_all add: derefE_def)

section \<open>Lists of lists\<close>

text \<open>A vector of vectors, as the set/way arrays of a cache are stored.\<close>

definition nth2E :: "'a list list \<Rightarrow> nat \<Rightarrow> nat \<Rightarrow> 'a res" where
  "nth2E xss i j = bindE (nthE xss i) (\<lambda>xs. nthE xs j)"

definition upd2E :: "'a list list \<Rightarrow> nat \<Rightarrow> nat \<Rightarrow> 'a \<Rightarrow> 'a list list res" where
  "upd2E xss i j v =
     bindE (nthE xss i) (\<lambda>xs. bindE (updE xs j v) (\<lambda>ys. updE xss i ys))"

definition upd2 :: "'a list list \<Rightarrow> nat \<Rightarrow> nat \<Rightarrow> 'a \<Rightarrow> 'a list list" where
  "upd2 xss i j v = xss[i := (xss ! i)[j := v]]"

definition dims :: "nat \<Rightarrow> nat \<Rightarrow> 'a list list \<Rightarrow> bool" where
  "dims n k xss \<longleftrightarrow> length xss = n \<and> (\<forall>xs \<in> set xss. length xs = k)"

lemma dims_nth [simp]: "dims n k xss \<Longrightarrow> i < n \<Longrightarrow> length (xss ! i) = k"
  by (auto simp: dims_def)

lemma dims_length: "dims n k xss \<Longrightarrow> length xss = n"
  by (simp add: dims_def)

lemma dims_upd2 [simp]: "dims n k xss \<Longrightarrow> i < n \<Longrightarrow> dims n k (upd2 xss i j v)"
  by (auto simp: dims_def upd2_def dest!: set_update_subset_insert [THEN subsetD])

lemma dims_replicate: "dims n k (replicate n (replicate k x))"
  by (auto simp: dims_def)

lemma nth2E_eq_Inr [res_iffs]:
  "nth2E xss i j = Inr x \<longleftrightarrow> i < length xss \<and> j < length (xss ! i) \<and> x = xss ! i ! j"
  by (auto simp: nth2E_def res_iffs)

lemma nth2E_in_range:
  "dims n k xss \<Longrightarrow> i < n \<Longrightarrow> j < k \<Longrightarrow> nth2E xss i j = Inr (xss ! i ! j)"
  by (simp add: nth2E_eq_Inr dims_length)

lemma upd2E_eq_Inr [res_iffs]:
  "upd2E xss i j v = Inr yss \<longleftrightarrow>
     i < length xss \<and> j < length (xss ! i) \<and> yss = upd2 xss i j v"
  by (auto simp: upd2E_def upd2_def res_iffs)

lemma upd2E_in_range:
  "dims n k xss \<Longrightarrow> i < n \<Longrightarrow> j < k \<Longrightarrow> upd2E xss i j v = Inr (upd2 xss i j v)"
  by (simp add: upd2E_eq_Inr dims_length)

lemma upd2_nth:
  "dims n k xss \<Longrightarrow> i < n \<Longrightarrow> j < k \<Longrightarrow>
     upd2 xss i j v ! i' ! j' = (if i' = i \<and> j' = j then v else xss ! i' ! j')"
  by (simp add: upd2_def nth_list_update dims_length)

section \<open>First index of a loop\<close>

text \<open>
  \<^verbatim>\<open>for (int i = 0; i < n; i++) if (P(i)) return i;\<close> with \<open>None\<close> when the loop ends.
\<close>

definition find_idx :: "(nat \<Rightarrow> bool) \<Rightarrow> nat \<Rightarrow> nat option" where
  "find_idx P n = find P [0..<n]"

lemma find_idx_Some: "find_idx P n = Some i \<Longrightarrow> i < n \<and> P i \<and> (\<forall>j<i. \<not> P j)"
  by (auto simp: find_idx_def find_Some_iff)

lemma find_idx_None: "find_idx P n = None \<longleftrightarrow> (\<forall>i<n. \<not> P i)"
  by (auto simp: find_idx_def find_None_iff)

lemma find_idx_ex: "i < n \<Longrightarrow> P i \<Longrightarrow> \<exists>j. find_idx P n = Some j"
  by (metis find_idx_None not_None_eq)

lemma find_idx_cong:
  "(\<And>i. i < n \<Longrightarrow> P i = Q i) \<Longrightarrow> find_idx P n = find_idx Q n"
  by (auto simp: find_idx_def intro!: find_cong)

text \<open>The same loop over the elements of a vector, with the fault of an index past its end.\<close>

definition findE :: "('a \<Rightarrow> bool) \<Rightarrow> 'a list \<Rightarrow> nat \<Rightarrow> nat option res" where
  "findE P xs n =
     (case find_idx (\<lambda>i. P (xs ! i)) (min n (length xs)) of
        Some i \<Rightarrow> Inr (Some i)
      | None \<Rightarrow> if n \<le> length xs then Inr None else Inl OutOfRange)"

lemma findE_length: "length xs = n \<Longrightarrow> findE P xs n = Inr (find_idx (\<lambda>i. P (xs ! i)) n)"
  by (simp add: findE_def split: option.splits)

fun mapE :: "('a \<Rightarrow> 'b res) \<Rightarrow> 'a list \<Rightarrow> 'b list res" where
  "mapE f [] = Inr []"
| "mapE f (x # xs) = bindE (f x) (\<lambda>y. bindE (mapE f xs) (\<lambda>ys. Inr (y # ys)))"

lemma mapE_all_Inr: "\<forall>x \<in> set xs. f x = Inr (g x) \<Longrightarrow> mapE f xs = Inr (map g xs)"
  by (induction xs) auto

section \<open>Arithmetic facts on words and on division\<close>

lemma unat_shiftr: "unat (drop_bit n (w :: 'a :: len word)) = unat w div 2 ^ n"
  by (subst unat_drop_bit_eq) (simp add: drop_bit_eq_div)

lemma unat_low_bits: "unat (take_bit n (w :: 'a :: len word)) = unat w mod 2 ^ n"
  by (subst unsigned_take_bit_eq) (simp add: take_bit_eq_mod)

lemma unat_lt64: "unat (w :: 64 word) < 2 ^ 64"
  by (rule order_less_le_trans [OF unsigned_less]) simp

lemma unat_plus_one: "a < b \<Longrightarrow> unat (a + 1 :: 'a :: len word) = unat a + 1"
  by unat_arith

lemma unat_minus_one: "0 < a \<Longrightarrow> unat (a - 1 :: 'a :: len word) = unat a - 1"
  by unat_arith

lemma uint_diff_word: "a \<le> b \<Longrightarrow> uint (b - a) = uint b - uint (a :: 'a :: len word)"
  by uint_arith

lemma uint_add_int:
  fixes a b :: "'a :: len word"
  assumes "0 \<le> v" "uint a + v \<le> uint b"
  shows "uint (a + of_int v) = uint a + v"
proof -
  have "uint a + v < 2 ^ LENGTH('a)" using assms(2) uint_lt2p [of b] by linarith
  then show ?thesis using assms by (simp add: uint_word_ariths uint_word_of_int mod_simps)
qed

lemma uint_sub_int:
  fixes a :: "'a :: len word"
  assumes "0 \<le> v" "v \<le> uint a"
  shows "uint (a - of_int v) = uint a - v"
proof -
  have "uint a - v < 2 ^ LENGTH('a)" using assms uint_lt2p [of a] by linarith
  then show ?thesis using assms by (simp add: uint_word_ariths uint_word_of_int mod_simps)
qed

lemma unat_of_nat64: "n < 2 ^ 64 \<Longrightarrow> unat (of_nat n :: 64 word) = n"
  by (simp add: unsigned_of_nat take_bit_nat_eq_self)

lemma unat_add_small:
  "unat a + unat b < 2 ^ LENGTH('a) \<Longrightarrow> unat (a + b :: 'a :: len word) = unat a + unat b"
  by (simp add: unat_word_ariths)

lemma unat_mult_small:
  "unat a * unat b < 2 ^ LENGTH('a) \<Longrightarrow> unat (a * b :: 'a :: len word) = unat a * unat b"
  by (simp add: unat_word_ariths)

lemma unat_sub_small: "b \<le> a \<Longrightarrow> unat (a - b :: 'a :: len word) = unat a - unat b"
  by unat_arith

lemma unat_max: "unat (max a b :: 'a :: len word) = max (unat a) (unat b)"
  by (simp add: max_def word_le_nat_alt)

lemma floor_to_multiple: "0 < k \<Longrightarrow> (n :: nat) < k * (n div k) + k"
  by (metis add.commute dividend_less_times_div mult.commute)

end
