(* ===== verification/Bit_Math.thy ===== *)
theory Bit_Math
  imports Ruby_Prelude
begin

text \<open>
  The bit-field and integer helpers of \<^verbatim>\<open>src/gem5/src/base/bitfield.hh\<close> and
  \<^verbatim>\<open>src/gem5/src/base/intmath.hh\<close> on which the cache structures rest.  Each helper keeps the
  statement order of the source (the cascade of masks and shifts of \<open>floorLog2\<close> included);
  the lemmas relate them to the arithmetic they stand for.  The \<^verbatim>\<open>unsigned\<close> bit positions are natural numbers; the one place where
  their 32-bit arithmetic can wrap, the field width in \<^verbatim>\<open>bits\<close>, has the wrap-around
  written out.
\<close>

section \<open>Bit fields\<close>

definition gmask :: "nat \<Rightarrow> 64 word" where
  "gmask nbits = (if 64 \<le> nbits then - 1 else push_bit nbits 1 - 1)"

definition gbits :: "64 word \<Rightarrow> nat \<Rightarrow> nat \<Rightarrow> 64 word res" where
  "gbits val first lst =
     bindE (assertE (lst \<le> first) ''first >= last'') (\<lambda>_.
     bindE (guardE (lst < 64) UndefShift) (\<lambda>_.
     Inr (drop_bit lst val AND gmask ((first - lst + 1) mod 2 ^ 32))))"

text \<open>The same definition with the width computed on binary integers, for evaluation.\<close>

lemma gbits_code [code]:
  "gbits val first lst =
     bindE (assertE (lst \<le> first) ''first >= last'') (\<lambda>_.
     bindE (guardE (lst < 64) UndefShift) (\<lambda>_.
     Inr (drop_bit lst val AND gmask (nat (int (first - lst + 1) mod 4294967296)))))"
  by (simp add: gbits_def nat_mod_as_int)

definition mbits :: "64 word \<Rightarrow> nat \<Rightarrow> nat \<Rightarrow> 64 word" where
  "mbits val first lst = val AND (gmask (first + 1) AND NOT (gmask lst))"

definition mask_range :: "nat \<Rightarrow> nat \<Rightarrow> 64 word" where
  "mask_range first lst = mbits (- 1) first lst"

definition sext :: "64 word \<Rightarrow> nat \<Rightarrow> 64 word res" where
  "sext val n =
     bindE (gbits val (n - 1) (n - 1)) (\<lambda>sign_bit.
     Inr (if sign_bit \<noteq> 0 then val OR NOT (gmask n) else val))"

definition szext :: "64 word \<Rightarrow> nat \<Rightarrow> 64 word res" where
  "szext val n =
     bindE (gbits val (n - 1) (n - 1)) (\<lambda>sign_bit.
     Inr (if sign_bit \<noteq> 0 then val OR NOT (gmask n) else val AND gmask n))"

definition insertBits :: "64 word \<Rightarrow> nat \<Rightarrow> nat \<Rightarrow> 64 word \<Rightarrow> 64 word res" where
  "insertBits val first lst bit_val =
     bindE (assertE (lst \<le> first) ''first >= last'') (\<lambda>_.
     bindE (guardE (lst < 64) UndefShift) (\<lambda>_.
     let bmask = mask_range first lst;
         val1 = val AND NOT bmask
     in Inr (val1 OR (push_bit lst bit_val AND bmask))))"

section \<open>Cascades over halves of a word\<close>

text \<open>
  One line of a cascade: test the bits selected by a mask, and when the test succeeds add
  \<open>k\<close> to the position and shift the value right by \<open>k\<close>.
\<close>

definition msb_step :: "64 word \<Rightarrow> nat \<Rightarrow> nat \<times> 64 word \<Rightarrow> nat \<times> 64 word" where
  "msb_step m k s = (case s of (y, ux) \<Rightarrow>
     if ux AND m \<noteq> 0 then (y + k, drop_bit k ux) else (y, ux))"

definition floorLog2 :: "nat \<Rightarrow> 64 word \<Rightarrow> nat res" where
  "floorLog2 ts x =
     bindE (assertE (x \<noteq> 0) ''x > 0'') (\<lambda>_.
     let s0 = (0, x);
         s1 = (if 8 \<le> ts then msb_step 0xffffffff00000000 32 s0 else s0);
         s2 = (if 4 \<le> ts then msb_step 0x00000000ffff0000 16 s1 else s1);
         s3 = (if 2 \<le> ts then msb_step 0x000000000000ff00 8 s2 else s2);
         s4 = msb_step 0x00000000000000f0 4 s3;
         s5 = msb_step 0x000000000000000c 2 s4
     in Inr (if snd s5 AND 0x0000000000000002 \<noteq> 0 then fst s5 + 1 else fst s5))"

definition ceilLog2 :: "nat \<Rightarrow> 64 word \<Rightarrow> nat res" where
  "ceilLog2 ts n =
     bindE (assertE (n \<noteq> 0) ''n > 0'') (\<lambda>_.
     if n = 1 then Inr 0 else bindE (floorLog2 ts (n - 1)) (\<lambda>y. Inr (y + 1)))"

definition isPowerOf2 :: "64 word \<Rightarrow> bool" where
  "isPowerOf2 n \<longleftrightarrow> n \<noteq> 0 \<and> n AND (n - 1) = 0"

definition divCeil :: "64 word \<Rightarrow> 64 word \<Rightarrow> 64 word res" where
  "divCeil a b = bindE (guardE (b \<noteq> 0) DivByZero) (\<lambda>_. Inr ((a + b - 1) div b))"

definition roundUp :: "64 word \<Rightarrow> 64 word \<Rightarrow> 64 word res" where
  "roundUp val align =
     bindE (assertE (isPowerOf2 align) ''isPowerOf2(align)'') (\<lambda>_.
     let m = align - 1 in Inr ((val + m) AND NOT m))"

definition roundDown :: "64 word \<Rightarrow> 64 word \<Rightarrow> 64 word res" where
  "roundDown val align =
     bindE (assertE (isPowerOf2 align) ''isPowerOf2(align)'') (\<lambda>_.
     let m = align - 1 in Inr (val AND NOT m))"

section \<open>Masks and fields as arithmetic\<close>

lemma gmask_eq_mask: "gmask n = mask n"
  by (auto simp: gmask_def mask_eq_exp_minus_1 push_bit_eq_mult exp_eq_zero_iff)

lemma gbits_eq_Inr:
  assumes "f < 2 ^ 32 - 1"
  shows "gbits v f l = Inr x \<longleftrightarrow>
    l \<le> f \<and> l < 64 \<and> x = take_bit (f - l + 1) (drop_bit l v)"
  using assms by (auto simp: gbits_def res_iffs gmask_eq_mask take_bit_eq_mask)

lemma unat_field:
  "unat (take_bit n (drop_bit l (v :: 64 word))) = unat v div 2 ^ l mod 2 ^ n"
  by (simp only: unat_low_bits unat_shiftr)

lemma mbits_63: "mbits v 63 l = push_bit l (drop_bit l v)"
  by (rule bit_word_eqI)
    (auto simp: mbits_def gmask_eq_mask bit_simps)

lemma mbits_63_unat: "unat (mbits v 63 l) = unat v - unat v mod 2 ^ l"
proof (cases "l < 64")
  case True
  have "unat (push_bit l (drop_bit l v)) = unat (drop_bit l v) * 2 ^ l mod 2 ^ 64"
    by (subst unsigned_push_bit_eq) (simp add: push_bit_eq_mult take_bit_eq_mod)
  also have "\<dots> = (unat v div 2 ^ l * 2 ^ l) mod 2 ^ 64"
    by (simp only: unat_shiftr)
  also have "unat v div 2 ^ l * 2 ^ l < 2 ^ 64"
    using unat_lt64 [of v] div_times_less_eq_dividend [of "unat v" "2 ^ l"]
    by (meson le_less_trans)
  then have "(unat v div 2 ^ l * 2 ^ l) mod 2 ^ 64 = unat v div 2 ^ l * 2 ^ l"
    by simp
  also have "\<dots> = unat v - unat v mod 2 ^ l"
    by (simp add: minus_mod_eq_div_mult)
  finally show ?thesis by (simp add: mbits_63)
next
  case False
  then have "unat v mod 2 ^ l = unat v"
    using unat_lt64 [of v] power_increasing [of 64 l "2 :: nat"] by simp
  moreover have "drop_bit l v = 0"
    using False by (intro bit_word_eqI) (auto simp: bit_simps dest: bit_imp_le_length)
  ultimately show ?thesis by (simp add: mbits_63)
qed

section \<open>The logarithm cascade\<close>

text \<open>The bits a cascade line tests are the upper half of the \<open>2 * k\<close> bits still in play.\<close>

lemma upper_half_test:
  assumes "unat (w :: 64 word) < 2 ^ (2 * k)"
  shows "w AND push_bit k (mask k) \<noteq> 0 \<longleftrightarrow> 2 ^ k \<le> unat w"
proof -
  have eq: "w AND push_bit k (mask k) = push_bit k (take_bit k (drop_bit k w))"
    by (rule bit_word_eqI) (auto simp: bit_simps)
  have small: "take_bit k (drop_bit k w) = drop_bit k w"
    using assms
    by (intro word_unat_eq_iff [THEN iffD2])
      (simp add: unat_field unat_shiftr less_mult_imp_div_less power_add mult_2)
  have zero: "push_bit k (drop_bit k w) = 0 \<longleftrightarrow> drop_bit k w = 0"
    by (metis add_cancel_left_left bits_ident take_bit_eq_self_iff_drop_bit_eq_0)
  have "drop_bit k w = 0 \<longleftrightarrow> unat w div 2 ^ k = 0"
    by (metis unat_shiftr unat_eq_zero)
  also have "\<dots> \<longleftrightarrow> unat w < 2 ^ k"
    by (simp add: div_eq_0_iff)
  finally show ?thesis
    using eq small zero by (auto simp: not_le)
qed

definition log_inv :: "64 word \<Rightarrow> nat \<times> 64 word \<Rightarrow> bool" where
  "log_inv x s \<longleftrightarrow> snd s \<noteq> 0 \<and> unat (snd s) = unat x div 2 ^ fst s"

lemma msb_step_inv:
  assumes inv: "log_inv x s" and small: "unat (snd s) < 2 ^ (2 * k)"
    and m: "m = push_bit k (mask k)"
  shows "log_inv x (msb_step m k s) \<and> unat (snd (msb_step m k s)) < 2 ^ k"
proof -
  obtain y ux where s: "s = (y, ux)" by (cases s)
  show ?thesis
  proof (cases "2 ^ k \<le> unat ux")
    case True
    with small s m have step: "msb_step m k s = (y + k, drop_bit k ux)"
      by (simp add: msb_step_def upper_half_test)
    have "unat (drop_bit k ux) = unat x div 2 ^ (y + k)"
      using inv s by (simp add: log_inv_def unat_shiftr div_mult2_eq power_add)
    moreover have "unat (drop_bit k ux) < 2 ^ k"
      using small s by (simp add: unat_shiftr less_mult_imp_div_less power_add mult_2)
    moreover have "drop_bit k ux \<noteq> 0"
    proof
      assume "drop_bit k ux = 0"
      then have "unat ux div 2 ^ k = 0" by (metis unat_shiftr unat_0)
      with True show False by (simp add: div_eq_0_iff)
    qed
    ultimately show ?thesis by (simp add: step log_inv_def)
  next
    case False
    with small s m have "msb_step m k s = s"
      by (simp add: msb_step_def upper_half_test)
    with inv False s show ?thesis by simp
  qed
qed

lemma cascade_masks:
  "(0xffffffff00000000 :: 64 word) = push_bit 32 (mask 32)"
  "(0x00000000ffff0000 :: 64 word) = push_bit 16 (mask 16)"
  "(0x000000000000ff00 :: 64 word) = push_bit 8 (mask 8)"
  "(0x00000000000000f0 :: 64 word) = push_bit 4 (mask 4)"
  "(0x000000000000000c :: 64 word) = push_bit 2 (mask 2)"
  "(0x0000000000000002 :: 64 word) = push_bit 1 (mask 1)"
  by (simp_all add: mask_eq_exp_minus_1)

lemma log_inv_final:
  assumes "log_inv x s" and "unat (snd s) < 4"
  shows "unat x div 2 ^ (if snd s AND 2 \<noteq> 0 then fst s + 1 else fst s) = 1"
proof -
  have test: "snd s AND 2 \<noteq> 0 \<longleftrightarrow> 2 \<le> unat (snd s)"
    using upper_half_test [of "snd s" 1] assms(2) by (simp add: mask_eq_exp_minus_1)
  have pos: "unat (snd s) \<noteq> 0" using assms(1) unfolding log_inv_def by (metis unat_eq_zero)
  have q: "unat (snd s) = unat x div 2 ^ fst s" using assms(1) by (simp add: log_inv_def)
  show ?thesis
  proof (cases "2 \<le> unat (snd s)")
    case True
    then have "unat x div 2 ^ fst s div 2 = 1" using assms(2) q by linarith
    then show ?thesis using test True by (simp add: div_mult2_eq [symmetric] mult.commute)
  next
    case False
    then show ?thesis using test pos q by simp
  qed
qed

lemma floorLog2_div:
  assumes "x \<noteq> 0" and "unat x < 2 ^ (8 * ts)" and "ts \<in> {1, 2, 4, 8}"
  shows "\<exists>y. floorLog2 ts x = Inr y \<and> unat x div 2 ^ y = 1"
proof -
  define s0 where "s0 = (0 :: nat, x)"
  define s1 where "s1 = (if 8 \<le> ts then msb_step 0xffffffff00000000 32 s0 else s0)"
  define s2 where "s2 = (if 4 \<le> ts then msb_step 0x00000000ffff0000 16 s1 else s1)"
  define s3 where "s3 = (if 2 \<le> ts then msb_step 0x000000000000ff00 8 s2 else s2)"
  define s4 where "s4 = msb_step 0x00000000000000f0 4 s3"
  define s5 where "s5 = msb_step 0x000000000000000c 2 s4"
  have 0: "log_inv x s0" using assms(1) by (simp add: log_inv_def s0_def)
  have 1: "log_inv x s1 \<and> (4 \<le> ts \<longrightarrow> unat (snd s1) < 2 ^ 32) \<and> (ts < 4 \<longrightarrow> s1 = s0)"
    using 0 assms msb_step_inv [of x s0 32, OF _ _ cascade_masks(1)]
    by (auto simp: s1_def s0_def)
  have 2: "log_inv x s2 \<and> (2 \<le> ts \<longrightarrow> unat (snd s2) < 2 ^ 16) \<and> (ts < 2 \<longrightarrow> s2 = s0)"
    using 0 1 assms msb_step_inv [of x s1 16, OF _ _ cascade_masks(2)]
    by (auto simp: s2_def s0_def)
  have 3: "log_inv x s3 \<and> unat (snd s3) < 2 ^ 8"
    using 2 assms msb_step_inv [of x s2 8, OF _ _ cascade_masks(3)]
    by (auto simp: s3_def s0_def)
  have 4: "log_inv x s4 \<and> unat (snd s4) < 2 ^ 4"
    using 3 msb_step_inv [of x s3 4, OF _ _ cascade_masks(4)] by (simp add: s4_def)
  have 5: "log_inv x s5 \<and> unat (snd s5) < 2 ^ 2"
    using 4 msb_step_inv [of x s4 2, OF _ _ cascade_masks(5)] by (simp add: s5_def)
  have "floorLog2 ts x = Inr (if snd s5 AND 2 \<noteq> 0 then fst s5 + 1 else fst s5)"
    using assms(1)
    by (simp add: floorLog2_def Let_def s0_def s1_def s2_def s3_def s4_def s5_def)
  then show ?thesis using log_inv_final [of x s5] 5 by auto
qed

lemma div_pow2_eq_1: "(n :: nat) div 2 ^ y = 1 \<longleftrightarrow> 2 ^ y \<le> n \<and> n < 2 ^ (y + 1)"
proof -
  have "(n :: nat) div 2 ^ y = 1 \<longleftrightarrow> 1 \<le> n div 2 ^ y \<and> n div 2 ^ y < 2"
    by linarith
  also have "\<dots> \<longleftrightarrow> 2 ^ y \<le> n \<and> n < 2 ^ (y + 1)"
    by (simp add: less_eq_div_iff_mult_less_eq div_less_iff_less_mult)
  finally show ?thesis .
qed

lemma floorLog2_bounds:
  assumes "x \<noteq> 0" and "unat x < 2 ^ (8 * ts)" and "ts \<in> {1, 2, 4, 8}"
  shows "\<exists>y. floorLog2 ts x = Inr y \<and> 2 ^ y \<le> unat x \<and> unat x < 2 ^ (y + 1)"
  using floorLog2_div [OF assms] unfolding div_pow2_eq_1 .

section \<open>Powers of two and alignment\<close>

lemma and_pred_power2: "k < 64 \<Longrightarrow> (2 ^ k :: 64 word) AND (2 ^ k - 1) = 0"
  by (rule bit_word_eqI)
    (auto simp: bit_simps mask_eq_exp_minus_1 [symmetric])

lemma unat_power2:
  assumes "k < 64"
  shows "unat (2 ^ k :: 64 word) = 2 ^ k"
proof -
  have "unat (of_nat (2 ^ k) :: 64 word) = 2 ^ k"
    using assms by (intro unat_of_nat64 power_strict_increasing) simp_all
  then show ?thesis by simp
qed

lemma bit_of_div: "unat (w :: 64 word) div 2 ^ y = 1 \<Longrightarrow> bit w y"
  by (metis bit_iff_odd bit_unsigned_iff odd_one)

text \<open>A number with a leading bit and a rest: subtracting one keeps the leading bit.\<close>

lemma isPowerOf2_leading:
  assumes "unat n div 2 ^ y = 1"
  shows "isPowerOf2 n \<longleftrightarrow> unat n = 2 ^ y"
proof
  have y: "y < 64" using bit_of_div [OF assms] bit_imp_le_length by fastforce
  show "isPowerOf2 n" if "unat n = 2 ^ y"
  proof -
    have "n = 2 ^ y" using that unat_power2 [OF y] by (simp add: word_unat_eq_iff)
    then show ?thesis using and_pred_power2 [OF y] y by (simp add: isPowerOf2_def exp_eq_zero_iff)
  qed
  show "unat n = 2 ^ y" if p: "isPowerOf2 n"
  proof (rule ccontr)
    assume "unat n \<noteq> 2 ^ y"
    then have b: "2 ^ y \<le> unat n - 1" "unat n - 1 < 2 ^ (y + 1)"
      using assms unfolding div_pow2_eq_1 by auto
    have "unat (n - 1) = unat n - 1"
      using p by (intro unat_minus_one) (simp add: isPowerOf2_def word_gt_0)
    then have "unat (n - 1) div 2 ^ y = 1" using b unfolding div_pow2_eq_1 by simp
    then have "bit (n AND (n - 1)) y" using bit_of_div assms by (simp add: bit_and_iff)
    then show False using p by (simp add: isPowerOf2_def)
  qed
qed

lemma isPowerOf2_iff: "isPowerOf2 n \<longleftrightarrow> (\<exists>k < 64. n = 2 ^ k)"
proof
  assume p: "isPowerOf2 n"
  then have "n \<noteq> 0" by (simp add: isPowerOf2_def)
  then obtain y where y: "unat n div 2 ^ y = 1"
    using floorLog2_div [of n 8] unat_lt64 [of n] by auto
  have lt: "y < 64" using bit_of_div [OF y] bit_imp_le_length by fastforce
  then show "\<exists>k < 64. n = 2 ^ k"
    using isPowerOf2_leading [OF y] p unat_power2 [OF lt] by (auto simp: word_unat_eq_iff)
next
  assume "\<exists>k < 64. n = 2 ^ k"
  then show "isPowerOf2 n"
    using and_pred_power2 by (auto simp: isPowerOf2_def exp_eq_zero_iff)
qed

lemma and_not_mask: "k < 64 \<Longrightarrow> v AND NOT (2 ^ k - 1) = mbits v 63 k"
  by (rule bit_word_eqI)
    (auto simp: mbits_63 bit_simps mask_eq_exp_minus_1 [symmetric])

lemma ceilLog2_bounds:
  assumes "x \<noteq> 0" and "unat x < 2 ^ (8 * ts)" and "ts \<in> {1, 2, 4, 8}"
  shows "\<exists>z. ceilLog2 ts x = Inr z \<and> unat x \<le> 2 ^ z \<and> (z = 0 \<or> 2 ^ (z - 1) < unat x)"
proof (cases "x = 1")
  case False
  have u: "unat (x - 1) = unat x - 1" using assms(1) by (intro unat_minus_one) (simp add: word_gt_0)
  have "x - 1 \<noteq> 0" using False by simp
  then obtain y where y: "floorLog2 ts (x - 1) = Inr y" "2 ^ y \<le> unat x - 1" "unat x - 1 < 2 ^ (y + 1)"
    using floorLog2_bounds [of "x - 1" ts] assms(2,3) unfolding u by fastforce
  moreover have "0 < unat x" using assms(1) by (simp add: unat_gt_0)
  ultimately show ?thesis using assms(1) False by (auto simp: ceilLog2_def)
qed (use assms in \<open>simp add: ceilLog2_def\<close>)

text \<open>
  C35. The logarithms of \<^verbatim>\<open>intmath.hh\<close>: for a positive argument of a 1, 2, 4 or 8 byte type, \<open>floorLog2\<close> and
  \<open>ceilLog2\<close> succeed, give the exponents of the powers of two around the argument, and agree exactly on
  the numbers \<open>isPowerOf2\<close> accepts.
\<close>

theorem log2_exponents:
  assumes "x \<noteq> 0" and "unat x < 2 ^ (8 * ts)" and "ts \<in> {1, 2, 4, 8}"
  shows "\<exists>y z. floorLog2 ts x = Inr y \<and> ceilLog2 ts x = Inr z \<and>
    2 ^ y \<le> unat x \<and> unat x < 2 ^ (y + 1) \<and> unat x \<le> 2 ^ z \<and> (z = 0 \<or> 2 ^ (z - 1) < unat x) \<and>
    (isPowerOf2 x \<longleftrightarrow> y = z)"
proof -
  obtain y where y: "floorLog2 ts x = Inr y" "2 ^ y \<le> unat x" "unat x < 2 ^ (y + 1)"
    using floorLog2_bounds [OF assms] by blast
  obtain z where z: "ceilLog2 ts x = Inr z" "unat x \<le> 2 ^ z" "z = 0 \<or> 2 ^ (z - 1) < unat x"
    using ceilLog2_bounds [OF assms] by blast
  have p: "isPowerOf2 x \<longleftrightarrow> unat x = 2 ^ y"
    using y by (intro isPowerOf2_leading div_pow2_eq_1 [THEN iffD2] conjI)
  have "unat x = 2 ^ y \<longleftrightarrow> y = z"
  proof
    assume "unat x = 2 ^ y"
    then have "y \<le> z" "z = 0 \<or> z - 1 < y" using z(2,3) by auto
    then show "y = z" by auto
  next
    assume "y = z"
    then show "unat x = 2 ^ y" using y z by simp
  qed
  then show ?thesis using y z p by auto
qed

theorem log2_exponents_witness:
  "\<exists>y z. floorLog2 4 48 = Inr y \<and> ceilLog2 4 48 = Inr z \<and> 2 ^ y \<le> (48 :: nat) \<and> (48 :: nat) \<le> 2 ^ z \<and>
     (isPowerOf2 48 \<longleftrightarrow> y = z)"
  using log2_exponents [of 48 4] by auto

text \<open>
  C37. Alignment: \<open>roundDown\<close> gives the largest multiple of the alignment that is not above the value, and
  \<open>roundUp\<close> the least one that is not below it when adding the alignment does not overflow; both
  fail exactly when the alignment is not a power of two.
\<close>

theorem round_to_alignment:
  assumes "k < 64" and "unat v + 2 ^ k \<le> 2 ^ 64"
  shows "(\<exists>d u. roundDown v (2 ^ k) = Inr d \<and> roundUp v (2 ^ k) = Inr u \<and>
      unat d = unat v div 2 ^ k * 2 ^ k \<and> unat u = (unat v + 2 ^ k - 1) div 2 ^ k * 2 ^ k) \<and>
    (isPowerOf2 a \<longleftrightarrow> \<not> isl (roundDown v a)) \<and> (isPowerOf2 a \<longleftrightarrow> \<not> isl (roundUp v a))"
proof -
  have p: "isPowerOf2 (2 ^ k)" using assms(1) unfolding isPowerOf2_iff by blast
  have m: "unat (2 ^ k - 1 :: 64 word) = 2 ^ k - 1"
    using assms(1) by (subst unat_minus_one) (simp_all add: word_gt_0 exp_eq_zero_iff unat_power2)
  have "unat (v + (2 ^ k - 1)) = unat v + 2 ^ k - 1"
    using assms(2) m by (subst unat_add_small) auto
  then show ?thesis
    using p by (simp add: roundDown_def roundUp_def Let_def and_not_mask [OF assms(1)] mbits_63_unat
        minus_mod_eq_div_mult assertE_def)
qed

theorem round_to_alignment_witness:
  "\<exists>d u. roundDown 100 (2 ^ 6) = Inr d \<and> roundUp 100 (2 ^ 6) = Inr u \<and> unat d = 64 \<and> unat u = 128 \<and>
     \<not> isl (roundUp 100 64)"
  using round_to_alignment [of 6 100 64] isPowerOf2_iff [of 64] by (auto intro: exI [of _ 6])

end
