(* ===== verification/Ruby_Address.thy ===== *)
theory Ruby_Address
  imports Bit_Math
begin

text \<open>
  Line and index arithmetic on physical addresses
  (\<^verbatim>\<open>src/gem5/src/mem/ruby/common/Address.cc\<close>): selecting a bit range of an address, clearing
  the offset inside a line, and stepping to a neighbouring line.
\<close>

definition bitSelect :: "Addr \<Rightarrow> nat \<Rightarrow> nat \<Rightarrow> Addr res" where
  "bitSelect addr small big =
     bindE (assertE (small \<le> big) ''big >= small'') (\<lambda>_. gbits addr big small)"

definition maskLowOrderBits :: "Addr \<Rightarrow> nat \<Rightarrow> Addr" where
  "maskLowOrderBits addr number = mbits addr 63 number"

definition getOffset :: "Addr \<Rightarrow> nat \<Rightarrow> Addr res" where
  "getOffset addr cacheLineBits =
     bindE (assertE (cacheLineBits < 64) ''cacheLineBits < 64'') (\<lambda>_.
     bitSelect addr 0 (if cacheLineBits = 0 then 2 ^ 32 - 1 else cacheLineBits - 1))"

definition makeLineAddress :: "Addr \<Rightarrow> nat \<Rightarrow> Addr res" where
  "makeLineAddress addr cacheLineBits =
     bindE (assertE (cacheLineBits < 64) ''cacheLineBits < 64'') (\<lambda>_.
     Inr (maskLowOrderBits addr cacheLineBits))"

definition makeNextStrideAddress :: "Addr \<Rightarrow> 32 word \<Rightarrow> 32 word \<Rightarrow> Addr res" where
  "makeNextStrideAddress addr stride cacheLineBytes =
     bindE (floorLog2 4 (ucast cacheLineBytes)) (\<lambda>bits.
     bindE (makeLineAddress addr bits) (\<lambda>line.
     Inr (line + scast (cacheLineBytes * stride))))"

section \<open>What the address helpers compute\<close>

lemma bitSelect_eq_Inr:
  assumes "b < 2 ^ 32 - 1"
  shows "bitSelect a s b = Inr x \<longleftrightarrow>
    s \<le> b \<and> s < 64 \<and> x = take_bit (b - s + 1) (drop_bit s a)"
  using assms by (auto simp: bitSelect_def res_iffs gbits_eq_Inr)

lemma bitSelect_unat:
  assumes "bitSelect a s (s + n - 1) = Inr x" and "0 < n" and "s + n < 2 ^ 32"
  shows "unat x = unat a div 2 ^ s mod 2 ^ n"
  using assms by (auto simp: bitSelect_eq_Inr unat_field)

lemma makeLineAddress_eq_Inr [res_iffs]:
  "makeLineAddress a b = Inr x \<longleftrightarrow> b < 64 \<and> x = maskLowOrderBits a b"
  by (auto simp: makeLineAddress_def res_iffs)

lemma maskLowOrderBits_unat: "unat (maskLowOrderBits a n) = unat a - unat a mod 2 ^ n"
  by (simp add: maskLowOrderBits_def mbits_63_unat)

lemma maskLowOrderBits_le: "maskLowOrderBits a n \<le> a"
  by (simp add: word_le_nat_alt maskLowOrderBits_unat)

lemma maskLowOrderBits_fixed:
  "maskLowOrderBits a n = a \<longleftrightarrow> unat a mod 2 ^ n = 0"
proof -
  have "unat a - unat a mod 2 ^ n = unat a \<longleftrightarrow> unat a mod 2 ^ n = 0"
    using mod_less_eq_dividend [of "unat a" "2 ^ n"] by linarith
  then show ?thesis by (simp only: word_unat_eq_iff maskLowOrderBits_unat)
qed

lemma maskLowOrderBits_idem:
  "maskLowOrderBits (maskLowOrderBits a n) n = maskLowOrderBits a n"
  unfolding maskLowOrderBits_fixed maskLowOrderBits_unat minus_mod_eq_div_mult by simp

text \<open>Two addresses have the same line address exactly when they lie in the same line.\<close>

lemma maskLowOrderBits_same_line:
  "maskLowOrderBits a n = maskLowOrderBits b n \<longleftrightarrow> unat a div 2 ^ n = unat b div 2 ^ n"
  unfolding word_unat_eq_iff maskLowOrderBits_unat minus_mod_eq_div_mult by simp

lemma line_and_offset:
  assumes "getOffset a n = Inr off"
  shows "unat (maskLowOrderBits a n) + unat off = unat a"
proof -
  have "unat off = unat a mod 2 ^ n"
  proof (cases "n = 0")
    case True
    then show ?thesis
      using assms by (auto simp: getOffset_def bitSelect_def gbits_def gmask_def)
  next
    case False
    then show ?thesis
      using assms by (auto simp: getOffset_def res_iffs bitSelect_eq_Inr unat_low_bits)
  qed
  then show ?thesis
    by (simp add: maskLowOrderBits_unat)
qed

text \<open>
  C36. An address splits into its line and its offset: for any line size below 64 bits (one byte lines
  included, where the bit range of the source wraps) both functions succeed, the line address is
  a multiple of the line size, the offset lies inside the line and their sum is the address; two
  addresses share a line address exactly when they lie in the same line.
\<close>

theorem line_splits_address:
  assumes "n < 64"
  shows "\<exists>line off. makeLineAddress a n = Inr line \<and> getOffset a n = Inr off \<and>
    unat line + unat off = unat a \<and> unat off < 2 ^ n \<and> 2 ^ n dvd unat line \<and>
    (makeLineAddress b n = Inr line \<longleftrightarrow> unat a div 2 ^ n = unat b div 2 ^ n)"
proof -
  obtain off where off: "getOffset a n = Inr off"
    using assms by (cases "n = 0") (auto simp: getOffset_def bitSelect_def gbits_def)
  note sum = line_and_offset [OF off]
  have "unat off = unat a mod 2 ^ n"
    using sum mod_less_eq_dividend [of "unat a" "2 ^ n"] unfolding maskLowOrderBits_unat by linarith
  moreover have "2 ^ n dvd unat (maskLowOrderBits a n)"
    unfolding maskLowOrderBits_unat by (rule dvd_minus_mod)
  moreover have "makeLineAddress b n = Inr (maskLowOrderBits a n) \<longleftrightarrow> unat a div 2 ^ n = unat b div 2 ^ n"
    using assms maskLowOrderBits_same_line [of a n b] by (auto simp: res_iffs)
  ultimately show ?thesis using off sum assms by (auto simp: makeLineAddress_def)
qed

theorem line_splits_address_witness:
  "\<exists>line off. makeLineAddress 1000 6 = Inr line \<and> getOffset 1000 6 = Inr off \<and>
    unat line + unat off = 1000 \<and> unat off < 64 \<and> makeLineAddress 1001 6 = Inr line"
  using line_splits_address [of 6 1000 1001] by auto

end
