(* ===== verification/Cache_Entry.thy ===== *)
theory Cache_Entry
  imports Ruby_Address
begin

text \<open>
  A block of a Ruby cache as the cache itself sees it
  (\<^verbatim>\<open>src/gem5/src/mem/ruby/slicc_interface/AbstractCacheEntry.hh\<close> and \<^verbatim>\<open>.cc\<close>): its address,
  its lock, its access permission, and the retention bookkeeping of the STT-RAM model.

  \<^verbatim>\<open>AbstractCacheEntry\<close> is an abstract class whose concrete subclass a coherence protocol
  defines.  The record is extensible and the subclass members are its extension \<open>'e\<close>.  The
  \<^verbatim>\<open>shared_ptr\<close> to the replacement data is the position (set, way) of that data in the
  two-dimensional array of the cache, which is where the code takes it from; \<open>None\<close> is the
  null pointer of a new entry.  \<^verbatim>\<open>validBlocks\<close> and \<^verbatim>\<open>zone_id\<close> are not initialised by the
  constructor, so their first values are arguments.
\<close>

datatype AccessPermission =
    Read_Only
  | Read_Write
  | Maybe_Stale
  | Backing_Store
  | Backing_Store_Busy
  | PermInvalid
  | NotPresent
  | Busy

record cache_entry =
  m_last_touch_tick :: Tick
  validBlocks :: int
  m_Address :: Addr
  m_locked :: int
  m_Permission :: AccessPermission
  m_last_refresh_tick :: Tick
  m_retention_limit :: Tick
  m_is_expired :: bool
  zone_id :: int
  m_htmInReadSet :: bool
  m_htmInWriteSet :: bool
  replacementData :: "(nat \<times> nat) option"

definition entry_new :: "Tick \<Rightarrow> int \<Rightarrow> int \<Rightarrow> 'e \<Rightarrow> 'e cache_entry_scheme" where
  "entry_new now vb zid sub =
     \<lparr>m_last_touch_tick = 0, validBlocks = vb, m_Address = 0, m_locked = - 1,
      m_Permission = NotPresent, m_last_refresh_tick = now,
      m_retention_limit = 2000000000000, m_is_expired = False, zone_id = zid,
      m_htmInReadSet = False, m_htmInWriteSet = False, replacementData = None, \<dots> = sub\<rparr>"

definition entry_changePermission ::
  "AccessPermission \<Rightarrow> 'e cache_entry_scheme \<Rightarrow> 'e cache_entry_scheme" where
  "entry_changePermission new_perm e =
     (let e1 = e\<lparr>m_Permission := new_perm\<rparr> in
      if new_perm = PermInvalid \<or> new_perm = NotPresent then e1\<lparr>m_locked := - 1\<rparr> else e1)"

definition entry_setLocked :: "int \<Rightarrow> 'e cache_entry_scheme \<Rightarrow> 'e cache_entry_scheme" where
  "entry_setLocked ctx e = e\<lparr>m_locked := ctx\<rparr>"

definition entry_clearLocked :: "'e cache_entry_scheme \<Rightarrow> 'e cache_entry_scheme" where
  "entry_clearLocked e = e\<lparr>m_locked := - 1\<rparr>"

definition entry_isLocked :: "int \<Rightarrow> 'e cache_entry_scheme \<Rightarrow> bool" where
  "entry_isLocked ctx e \<longleftrightarrow> m_locked e = ctx"

definition entry_setLastAccess :: "Tick \<Rightarrow> 'e cache_entry_scheme \<Rightarrow> 'e cache_entry_scheme" where
  "entry_setLastAccess t e = e\<lparr>m_last_touch_tick := t\<rparr>"

definition entry_setInHtmReadSet :: "bool \<Rightarrow> 'e cache_entry_scheme \<Rightarrow> 'e cache_entry_scheme" where
  "entry_setInHtmReadSet b e = e\<lparr>m_htmInReadSet := b\<rparr>"

definition entry_setInHtmWriteSet :: "bool \<Rightarrow> 'e cache_entry_scheme \<Rightarrow> 'e cache_entry_scheme" where
  "entry_setInHtmWriteSet b e = e\<lparr>m_htmInWriteSet := b\<rparr>"

lemmas entry_defs =
  entry_changePermission_def entry_setLocked_def entry_clearLocked_def entry_isLocked_def
  entry_setLastAccess_def entry_setInHtmReadSet_def entry_setInHtmWriteSet_def

text \<open>
  What the cache needs an update of an entry to leave alone: the fields that tie the entry to
  its place.
\<close>

definition same_place :: "'e cache_entry_scheme \<Rightarrow> 'e cache_entry_scheme \<Rightarrow> bool" where
  "same_place e e' \<longleftrightarrow>
     m_Address e' = m_Address e \<and> replacementData e' = replacementData e"

lemma same_place_refl [simp]: "same_place e e"
  by (simp add: same_place_def)

lemma same_place_entry [simp]:
  "same_place e (entry_changePermission p e)"
  "same_place e (entry_setLocked ctx e)"
  "same_place e (entry_clearLocked e)"
  "same_place e (entry_setLastAccess t e)"
  "same_place e (entry_setInHtmReadSet b e)"
  "same_place e (entry_setInHtmWriteSet b e)"
  by (simp_all add: same_place_def entry_defs Let_def)

lemma changePermission_unlocks:
  "p \<in> {PermInvalid, NotPresent} \<Longrightarrow> entry_isLocked ctx (entry_changePermission p e) \<longleftrightarrow> ctx = - 1"
  by (auto simp: entry_defs Let_def)

end
