(* ===== verification/Banked_Array.thy ===== *)
theory Banked_Array
  imports Bit_Math
begin

text \<open>
  The timing of the tag and data arrays
  (\<^verbatim>\<open>src/gem5/src/mem/ruby/structures/BankedArray.cc\<close>): a set index selects a bank, and a
  reservation keeps the bank busy for the latency of the access, queued behind the
  reservations it already has.

  A set index is a natural number (the code never passes a negative one) and the bank count
  an \<^verbatim>\<open>unsigned\<close>.  Ticks are 64-bit words, so the end of a reservation wraps as in the code.
\<close>

record access_record =
  ar_idx :: nat
  startAccess :: Tick
  endAccess :: Tick

record banked_array =
  banks :: nat
  clockPeriod :: Tick
  bankBits :: nat
  startIndexBit :: nat
  busyBanks :: "access_record list"

definition access_record_init :: access_record where
  "access_record_init = \<lparr>ar_idx = 0, startAccess = 0, endAccess = 0\<rparr>"

text \<open>
  \<^verbatim>\<open>bankBits\<close> is left uninitialised by the constructor when there are no banks; it is not read
  anywhere, and is 0 here in that case.
\<close>

definition ba_new :: "nat \<Rightarrow> nat \<Rightarrow> banked_array res" where
  "ba_new nbanks start_index_bit =
     bindE (if nbanks \<noteq> 0 then floorLog2 4 (of_nat nbanks) else Inr 0) (\<lambda>bits.
     Inr \<lparr>banks = nbanks, clockPeriod = 0, bankBits = bits, startIndexBit = start_index_bit,
          busyBanks = replicate nbanks access_record_init\<rparr>)"

definition ba_setClockPeriod :: "Tick \<Rightarrow> banked_array \<Rightarrow> banked_array" where
  "ba_setClockPeriod p a = a\<lparr>clockPeriod := p\<rparr>"

definition mapIndexToBank :: "banked_array \<Rightarrow> nat \<Rightarrow> nat res" where
  "mapIndexToBank a idx =
     (if banks a = 1 then Inr 0
      else bindE (guardE (banks a \<noteq> 0) DivByZero) (\<lambda>_. Inr (idx mod banks a)))"

definition ba_tryAccess :: "Tick \<Rightarrow> nat \<Rightarrow> banked_array \<Rightarrow> bool res" where
  "ba_tryAccess now idx a =
     bindE (mapIndexToBank a idx) (\<lambda>bank.
     bindE (assertE (bank < banks a) ''bank < banks'') (\<lambda>_.
     bindE (nthE (busyBanks a) bank) (\<lambda>r.
     if now \<le> endAccess r then Inr False else Inr True)))"

definition ba_reserve :: "Tick \<Rightarrow> nat \<Rightarrow> Cycles \<Rightarrow> banked_array \<Rightarrow> banked_array res" where
  "ba_reserve now idx accessLatency a =
     (if accessLatency = 0 then Inr a
      else
        bindE (assertE (0 < clockPeriod a) ''clockPeriod > 0'') (\<lambda>_.
        bindE (mapIndexToBank a idx) (\<lambda>bank.
        bindE (assertE (bank < banks a) ''bank < banks'') (\<lambda>_.
        bindE (nthE (busyBanks a) bank) (\<lambda>r.
        let startTime = max now (endAccess r);
            r' = \<lparr>ar_idx = idx, startAccess = startTime,
                  endAccess = startTime + (accessLatency - 1) * clockPeriod a\<rparr>
        in Inr (a\<lparr>busyBanks := (busyBanks a)[bank := r']\<rparr>))))))"

definition getBankEndTime :: "nat \<Rightarrow> banked_array \<Rightarrow> Tick res" where
  "getBankEndTime idx a =
     bindE (mapIndexToBank a idx) (\<lambda>bank.
     bindE (nthE (busyBanks a) bank) (\<lambda>r. Inr (endAccess r)))"

section \<open>Well-formedness\<close>

definition ba_wf :: "banked_array \<Rightarrow> bool" where
  "ba_wf a \<longleftrightarrow> 0 < banks a \<and> length (busyBanks a) = banks a"

lemma ba_new_wf:
  assumes "0 < n" and "n < 2 ^ 32"
  shows "\<exists>a. ba_new n s = Inr a \<and> ba_wf a"
proof -
  have u: "unat (of_nat n :: 64 word) = n"
    using assms(2) by (intro unat_of_nat64) simp
  have nz: "(of_nat n :: 64 word) \<noteq> 0"
  proof
    assume "(of_nat n :: 64 word) = 0"
    with u have "n = 0" by simp
    with assms(1) show False by simp
  qed
  obtain y where "floorLog2 4 (of_nat n) = Inr y"
    using floorLog2_bounds [of "of_nat n" 4] nz assms(2) unfolding u by auto
  with assms show ?thesis by (simp add: ba_new_def ba_wf_def)
qed

definition bank_of :: "banked_array \<Rightarrow> nat \<Rightarrow> nat" where
  "bank_of a idx = (if banks a = 1 then 0 else idx mod banks a)"

lemma mapIndexToBank_wf: "ba_wf a \<Longrightarrow> mapIndexToBank a idx = Inr (bank_of a idx)"
  by (simp add: mapIndexToBank_def bank_of_def ba_wf_def)

lemma bank_of_less: "ba_wf a \<Longrightarrow> bank_of a idx < banks a"
  by (simp add: bank_of_def ba_wf_def)

lemma bank_of_nthE: "ba_wf a \<Longrightarrow> nthE (busyBanks a) (bank_of a idx) = Inr (busyBanks a ! bank_of a idx)"
  using bank_of_less [of a idx] by (simp add: ba_wf_def nthE_def)

lemmas bank_simps = mapIndexToBank_wf bank_of_less bank_of_nthE

lemma ba_tryAccess_wf:
  "ba_wf a \<Longrightarrow>
     ba_tryAccess now idx a = Inr (endAccess (busyBanks a ! bank_of a idx) < now)"
  by (auto simp: ba_tryAccess_def bank_simps)

lemma getBankEndTime_wf:
  "ba_wf a \<Longrightarrow> getBankEndTime idx a = Inr (endAccess (busyBanks a ! bank_of a idx))"
  by (simp add: getBankEndTime_def bank_simps)

definition reserved :: "Tick \<Rightarrow> nat \<Rightarrow> Cycles \<Rightarrow> banked_array \<Rightarrow> access_record" where
  "reserved now idx lat a =
     (let st = max now (endAccess (busyBanks a ! bank_of a idx))
      in \<lparr>ar_idx = idx, startAccess = st, endAccess = st + (lat - 1) * clockPeriod a\<rparr>)"

lemma ba_reserve_wf:
  assumes "ba_wf a" and "0 < clockPeriod a"
  shows "ba_reserve now idx lat a =
    Inr (if lat = 0 then a
         else a\<lparr>busyBanks := (busyBanks a)[bank_of a idx := reserved now idx lat a]\<rparr>)"
  using assms by (simp add: ba_reserve_def bank_simps reserved_def Let_def)

lemma ba_reserve_keeps:
  assumes "ba_wf a" and "ba_reserve now idx lat a = Inr a'"
  shows "ba_wf a' \<and> banks a' = banks a \<and> clockPeriod a' = clockPeriod a"
  using assms by (auto simp: ba_reserve_def ba_wf_def res_iffs Let_def split: if_splits)

lemma bank_of_reserve:
  "ba_wf a \<Longrightarrow> ba_reserve now idx lat a = Inr a' \<Longrightarrow> bank_of a' j = bank_of a j"
  using ba_reserve_keeps [of a now idx lat a'] by (simp add: bank_of_def)

section \<open>Queued reservations\<close>

text \<open>Reservations one after another in the same tick, for accesses to one bank.\<close>

fun reserve_all :: "Tick \<Rightarrow> nat \<Rightarrow> Cycles list \<Rightarrow> banked_array \<Rightarrow> banked_array res" where
  "reserve_all now idx [] a = Inr a"
| "reserve_all now idx (l # ls) a =
     bindE (ba_reserve now idx l a) (reserve_all now idx ls)"

definition busy_cycles :: "Cycles list \<Rightarrow> nat" where
  "busy_cycles ls = sum_list (map (\<lambda>l. unat l - 1) ls)"

lemma end_of_access:
  fixes s l c :: "64 word"
  assumes "unat s + (unat l - 1) * unat c < 2 ^ 64" and "l \<noteq> 0"
  shows "unat (s + (l - 1) * c) = unat s + (unat l - 1) * unat c"
proof -
  have l: "unat (l - 1) = unat l - 1"
    using assms(2) by (intro unat_minus_one) (simp add: word_neq_0_conv)
  have "unat ((l - 1) * c) = (unat l - 1) * unat c"
    using assms(1) l by (subst unat_mult_small) auto
  then show ?thesis
    using assms(1) by (subst unat_add_small) auto
qed

definition bank_end :: "nat \<Rightarrow> banked_array \<Rightarrow> nat" where
  "bank_end idx a = unat (endAccess (busyBanks a ! bank_of a idx))"

lemma bank_end_reserve:
  assumes "ba_wf a" and "0 < clockPeriod a" and "lat \<noteq> 0"
    and "max (unat now) (bank_end idx a) + (unat lat - 1) * unat (clockPeriod a) < 2 ^ 64"
    and "ba_reserve now idx lat a = Inr a'"
  shows "bank_end idx a' =
           max (unat now) (bank_end idx a) + (unat lat - 1) * unat (clockPeriod a)"
proof -
  have lt: "bank_of a idx < length (busyBanks a)"
    using assms(1) bank_of_less [of a idx] by (simp add: ba_wf_def)
  have a': "a' = a\<lparr>busyBanks := (busyBanks a)[bank_of a idx := reserved now idx lat a]\<rparr>"
    using assms(5) assms(3) unfolding ba_reserve_wf [OF assms(1,2)] by simp
  then have "bank_end idx a' = unat (endAccess (reserved now idx lat a))"
    using lt bank_of_reserve [OF assms(1,5), of idx] by (simp add: bank_end_def)
  also have "\<dots> = max (unat now) (bank_end idx a) + (unat lat - 1) * unat (clockPeriod a)"
    using assms(3,4) end_of_access
    by (simp add: reserved_def Let_def unat_max bank_end_def)
  finally show ?thesis .
qed

lemma reserve_all_end:
  assumes "ba_wf a" and "0 < clockPeriod a" and "\<forall>l \<in> set ls. l \<noteq> 0" and "ls \<noteq> []"
    and "max (unat now) (bank_end idx a) + busy_cycles ls * unat (clockPeriod a) < 2 ^ 64"
  shows "\<exists>a'. reserve_all now idx ls a = Inr a' \<and> ba_wf a' \<and>
           bank_end idx a' =
             max (unat now) (bank_end idx a) + busy_cycles ls * unat (clockPeriod a)"
  using assms
proof (induction ls arbitrary: a)
  case (Cons l ls)
  obtain a1 where a1: "ba_reserve now idx l a = Inr a1"
    using ba_reserve_wf [OF Cons.prems(1,2)] by blast
  have k: "ba_wf a1" "clockPeriod a1 = clockPeriod a"
    using ba_reserve_keeps [OF Cons.prems(1) a1] by auto
  have e: "bank_end idx a1 =
      max (unat now) (bank_end idx a) + (unat l - 1) * unat (clockPeriod a)"
    using Cons.prems by (intro bank_end_reserve [OF _ _ _ _ a1])
      (auto simp: busy_cycles_def algebra_simps)
  show ?case
  proof (cases "ls = []")
    case True
    then show ?thesis using a1 k e by (simp add: busy_cycles_def)
  next
    case False
    have "\<exists>a'. reserve_all now idx ls a1 = Inr a' \<and> ba_wf a' \<and>
        bank_end idx a' =
          max (unat now) (bank_end idx a1) + busy_cycles ls * unat (clockPeriod a1)"
      using Cons.prems e k False
      by (intro Cons.IH) (auto simp: busy_cycles_def algebra_simps)
    then show ?thesis using a1 e k by (auto simp: busy_cycles_def algebra_simps)
  qed
qed simp

text \<open>
  C32. Reservations of one bank queue up: starting from any well-formed array, reservations made in one tick
  for accesses to one bank end when the latencies of all of them have passed one after the other,
  counted from the later of the current tick and the end of what was reserved before; the bank
  refuses accesses up to and including that tick and accepts them afterwards.
\<close>

theorem bank_reservations_queue:
  assumes "ba_wf a" and "0 < clockPeriod a" and "\<forall>l \<in> set ls. l \<noteq> 0" and "ls \<noteq> []"
    and "max (unat now) (bank_end idx a) + busy_cycles ls * unat (clockPeriod a) < 2 ^ 64"
  shows "\<exists>a'. reserve_all now idx ls a = Inr a' \<and>
    (\<forall>t. ba_tryAccess t idx a' =
       Inr (max (unat now) (bank_end idx a) + busy_cycles ls * unat (clockPeriod a) < unat t))"
proof -
  obtain a' where "reserve_all now idx ls a = Inr a'" "ba_wf a'"
    "bank_end idx a' = max (unat now) (bank_end idx a) + busy_cycles ls * unat (clockPeriod a)"
    using reserve_all_end [OF assms] by blast
  then show ?thesis by (auto simp: ba_tryAccess_wf bank_end_def word_less_nat_alt)
qed

theorem bank_reservations_queue_witness:
  "\<exists>a a'. ba_new 4 6 = Inr a \<and> reserve_all 1000 9 [3, 5] (ba_setClockPeriod 500 a) = Inr a' \<and>
     ba_tryAccess 4000 9 a' = Inr False \<and> ba_tryAccess 4001 9 a' = Inr True"
proof -
  obtain a where a: "ba_new 4 6 = Inr a" "ba_wf a" using ba_new_wf [of 4 6] by auto
  let ?a = "ba_setClockPeriod 500 a"
  have e: "busyBanks ?a ! bank_of ?a 9 = access_record_init"
    using a(1) bank_of_less [OF a(2), of 9]
    by (auto simp: ba_new_def ba_setClockPeriod_def bank_of_def res_iffs)
  have b: "busy_cycles [3, 5] = 6" "bank_end 9 ?a = 0"
    using e by (simp_all add: busy_cycles_def bank_end_def access_record_init_def)
  have "\<exists>a'. reserve_all 1000 9 [3, 5] ?a = Inr a' \<and>
      (\<forall>t. ba_tryAccess t 9 a' =
        Inr (max (unat (1000 :: Tick)) (bank_end 9 ?a) + busy_cycles [3, 5] * unat (clockPeriod ?a) < unat t))"
    using a(2) b by (intro bank_reservations_queue) (auto simp: ba_wf_def ba_setClockPeriod_def)
  then obtain a' where "reserve_all 1000 9 [3, 5] ?a = Inr a'" "\<And>t. ba_tryAccess t 9 a' = Inr (4000 < unat t)"
    using b by (auto simp: ba_setClockPeriod_def)
  then show ?thesis using a(1) by auto
qed

end
