(* ===== verification/ALU_Free_List.thy ===== *)
theory ALU_Free_List
  imports Ruby_Address
begin

text \<open>
  The pool of pipelined atomic ALUs of a cache
  (\<^verbatim>\<open>src/gem5/src/mem/ruby/structures/ALUFreeListArray.cc\<close>).  The deque of access records has
  its front, the newest record, at the head of the list.  The per-tick counter is a natural
  number: a deque of \<open>2 ^ 32\<close> records of one tick, which would make the \<^verbatim>\<open>uint32_t\<close> wrap, is
  out of reach.
\<close>

record alu_record =
  lineAddr :: Addr
  startTick :: Tick

record alu_array =
  numALUs :: nat
  accessClocks :: Cycles
  alu_accessLatency :: Tick
  accessQueue :: "alu_record list"
  alu_block_size_bits :: nat

definition alu_new :: "nat \<Rightarrow> Cycles \<Rightarrow> alu_array" where
  "alu_new num_ALUs access_clocks =
     \<lparr>numALUs = num_ALUs, accessClocks = access_clocks, alu_accessLatency = 0,
      accessQueue = [], alu_block_size_bits = 0\<rparr>"

definition alu_getLatency :: "alu_array \<Rightarrow> Tick res" where
  "alu_getLatency a =
     bindE (assertE (0 < alu_accessLatency a) ''accessLatency > 0'') (\<lambda>_.
     Inr (alu_accessLatency a))"

definition alu_setClockPeriod :: "Tick \<Rightarrow> alu_array \<Rightarrow> alu_array" where
  "alu_setClockPeriod p a = a\<lparr>alu_accessLatency := accessClocks a * p\<rparr>"

text \<open>The block size is an \<^verbatim>\<open>int\<close> of the code and positive.\<close>

definition alu_setBlockSize :: "nat \<Rightarrow> alu_array \<Rightarrow> alu_array res" where
  "alu_setBlockSize block_size a =
     bindE (floorLog2 4 (of_nat block_size)) (\<lambda>b. Inr (a\<lparr>alu_block_size_bits := b\<rparr>))"

text \<open>The \<^verbatim>\<open>while\<close> loop that drops records at the back of the deque.\<close>

definition pop_old :: "Tick \<Rightarrow> alu_record list \<Rightarrow> alu_record list" where
  "pop_old oldest q = rev (dropWhile (\<lambda>r. startTick r < oldest) (rev q))"

text \<open>The \<^verbatim>\<open>for\<close> loop over the records, newest first.\<close>

fun alu_scan :: "Tick \<Rightarrow> nat \<Rightarrow> nat \<Rightarrow> Addr \<Rightarrow> nat \<Rightarrow> alu_record list \<Rightarrow> bool res" where
  "alu_scan now n bits addr accesses [] = Inr True"
| "alu_scan now n bits addr accesses (r # rs) =
     (let accesses' = (if startTick r = now then accesses + 1 else accesses) in
      if startTick r = now \<and> n < accesses' then Inr False
      else
        bindE (makeLineAddress addr bits) (\<lambda>line.
        if lineAddr r = line then Inr False
        else alu_scan now n bits addr accesses' rs))"

definition alu_tryAccess :: "Tick \<Rightarrow> Addr \<Rightarrow> alu_array \<Rightarrow> (bool \<times> alu_array) res" where
  "alu_tryAccess now addr a =
     (let oldestValidRecordStart = now - alu_accessLatency a;
          q = pop_old oldestValidRecordStart (accessQueue a)
      in bindE (alu_scan now (numALUs a) (alu_block_size_bits a) addr 0 q) (\<lambda>ok.
         Inr (ok, a\<lparr>accessQueue := q\<rparr>)))"

definition alu_reserve :: "Tick \<Rightarrow> Addr \<Rightarrow> alu_array \<Rightarrow> alu_array res" where
  "alu_reserve now addr a =
     bindE (makeLineAddress addr (alu_block_size_bits a)) (\<lambda>line.
     Inr (a\<lparr>accessQueue := \<lparr>lineAddr = line, startTick = now\<rparr> # accessQueue a\<rparr>))"

section \<open>The queue is ordered by age\<close>

definition alu_wf :: "Tick \<Rightarrow> alu_array \<Rightarrow> bool" where
  "alu_wf now a \<longleftrightarrow>
     alu_block_size_bits a < 64 \<and>
     sorted_wrt (\<lambda>r s. startTick s \<le> startTick r) (accessQueue a) \<and>
     (\<forall>r \<in> set (accessQueue a). startTick r \<le> now)"

lemma sorted_pop_old:
  "sorted_wrt (\<lambda>r s. startTick s \<le> startTick r) q \<Longrightarrow>
     pop_old t q = filter (\<lambda>r. t \<le> startTick r) q"
proof (induction q rule: rev_induct)
  case (snoc x xs)
  then have s: "sorted_wrt (\<lambda>r s. startTick s \<le> startTick r) xs"
    and le: "\<forall>r \<in> set xs. startTick x \<le> startTick r"
    by (auto simp: sorted_wrt_append)
  show ?case
  proof (cases "startTick x < t")
    case True
    then show ?thesis using snoc.IH [OF s] by (simp add: pop_old_def not_le)
  next
    case False
    then have "\<forall>r \<in> set (xs @ [x]). t \<le> startTick r"
      using le by (auto simp: not_less intro: order_trans)
    then have "filter (\<lambda>r. t \<le> startTick r) (xs @ [x]) = xs @ [x]"
      by (simp only: filter_id_conv)
    then show ?thesis using False by (simp add: pop_old_def)
  qed
qed (simp add: pop_old_def)

lemma set_pop_old: "set (pop_old t q) \<subseteq> set q"
  using set_dropWhileD by (fastforce simp: pop_old_def)

definition tick_count :: "Tick \<Rightarrow> alu_record list \<Rightarrow> nat" where
  "tick_count now q = length (filter (\<lambda>r. startTick r = now) q)"

lemma alu_scan_iff:
  assumes "bits < 64"
  shows "alu_scan now n bits addr k q = Inr
    (k + tick_count now q \<le> max k n \<and>
     (\<forall>r \<in> set q. lineAddr r \<noteq> maskLowOrderBits addr bits))"
  using assms
  by (induction q arbitrary: k)
    (auto simp: Let_def makeLineAddress_def tick_count_def)

lemma alu_wf_new: "alu_wf now (alu_new n c)"
  by (simp add: alu_wf_def alu_new_def)

lemma alu_tryAccess_queue:
  assumes "alu_tryAccess now addr a = Inr (ok, a')"
  shows "a' = a\<lparr>accessQueue := pop_old (now - alu_accessLatency a) (accessQueue a)\<rparr>"
  using assms by (auto simp: alu_tryAccess_def Let_def res_iffs)

lemma alu_wf_tryAccess:
  assumes "alu_wf now a" and "alu_tryAccess now addr a = Inr (ok, a')"
  shows "alu_wf now a'"
  using assms(1) alu_tryAccess_queue [OF assms(2)]
  by (auto simp: alu_wf_def sorted_pop_old sorted_wrt_filter)

lemma alu_wf_reserve:
  assumes "alu_wf now a" and "alu_reserve now addr a = Inr a'"
  shows "alu_wf now a'"
  using assms by (auto simp: alu_wf_def alu_reserve_def res_iffs)

lemma alu_wf_later: "alu_wf now a \<Longrightarrow> now \<le> t \<Longrightarrow> alu_wf t a"
  by (auto simp: alu_wf_def intro: order_trans)

lemma alu_tryAccess_iff:
  assumes "alu_wf now a" and "alu_accessLatency a \<le> now"
  shows "\<exists>a'. alu_wf now a' \<and> alu_tryAccess now addr a = Inr
    (tick_count now (accessQueue a) \<le> numALUs a \<and>
     (\<forall>r \<in> set (accessQueue a). now - alu_accessLatency a \<le> startTick r \<longrightarrow>
        lineAddr r \<noteq> maskLowOrderBits addr (alu_block_size_bits a)), a')"
proof -
  let ?o = "now - alu_accessLatency a"
  have p: "pop_old ?o (accessQueue a) = filter (\<lambda>r. ?o \<le> startTick r) (accessQueue a)"
    using assms(1) by (intro sorted_pop_old) (simp add: alu_wf_def)
  have le: "?o \<le> now" using assms(2) by (simp add: word_sub_le)
  then have "filter (\<lambda>r. startTick r = now \<and> ?o \<le> startTick r) (accessQueue a) =
      filter (\<lambda>r. startTick r = now) (accessQueue a)"
    by (intro filter_cong) auto
  then have c: "tick_count now (pop_old ?o (accessQueue a)) = tick_count now (accessQueue a)"
    unfolding p tick_count_def by (simp add: conj_commute)
  have b: "alu_block_size_bits a < 64" using assms(1) by (simp add: alu_wf_def)
  let ?a' = "a\<lparr>accessQueue := pop_old ?o (accessQueue a)\<rparr>"
  have "alu_tryAccess now addr a = Inr
    (tick_count now (accessQueue a) \<le> numALUs a \<and>
     (\<forall>r \<in> set (accessQueue a). ?o \<le> startTick r \<longrightarrow>
        lineAddr r \<noteq> maskLowOrderBits addr (alu_block_size_bits a)), ?a')"
    using c unfolding alu_tryAccess_def Let_def alu_scan_iff [OF b] p by auto
  then show ?thesis using alu_wf_tryAccess [OF assms(1)] by blast
qed

lemma alu_early_queue_empty:
  assumes "alu_wf now a" and "now < alu_accessLatency a"
    and "unat now + unat (alu_accessLatency a) < 2 ^ 64"
  shows "pop_old (now - alu_accessLatency a) (accessQueue a) = []"
proof -
  have "now < now - alu_accessLatency a"
    using assms(2,3) by unat_arith
  then have "\<forall>r \<in> set (accessQueue a). startTick r < now - alu_accessLatency a"
    using assms(1) by (auto simp: alu_wf_def intro: order_le_less_trans)
  then show ?thesis by (simp add: pop_old_def)
qed

text \<open>
  C33. Admission to the ALU pool: once the access latency lies in the past, an access is admitted exactly
  when at most \<^verbatim>\<open>numALUs\<close> accesses started in the current tick and no access to the same line is in
  flight.  The pool therefore starts one access more per tick than it has ALUs.
\<close>

theorem alu_admission:
  assumes "alu_wf now a" and "alu_accessLatency a \<le> now"
  shows "\<exists>a'. alu_wf now a' \<and> alu_tryAccess now addr a = Inr
    (tick_count now (accessQueue a) < numALUs a + 1 \<and>
     (\<forall>r \<in> set (accessQueue a). now - alu_accessLatency a \<le> startTick r \<longrightarrow>
        lineAddr r \<noteq> maskLowOrderBits addr (alu_block_size_bits a)), a')"
  using alu_tryAccess_iff [OF assms, of addr] by (simp add: less_Suc_eq_le)

theorem alu_admission_witness:
  "\<exists>a a'. bindE (alu_setBlockSize 64 (alu_setClockPeriod 500 (alu_new 1 2))) (alu_reserve 5000 0) = Inr a \<and>
     alu_tryAccess 5000 64 a = Inr (True, a')"
proof -
  let ?a = "\<lparr>numALUs = 1, accessClocks = 2, alu_accessLatency = 1000,
    accessQueue = [\<lparr>lineAddr = 0, startTick = 5000\<rparr>], alu_block_size_bits = 6\<rparr>"
  have mk: "bindE (alu_setBlockSize 64 (alu_setClockPeriod 500 (alu_new 1 2))) (alu_reserve 5000 0) = Inr ?a"
    by code_simp
  have wf: "alu_wf 5000 ?a" by (simp add: alu_wf_def)
  have "maskLowOrderBits 64 6 = 64" by code_simp
  then show ?thesis using mk alu_admission [OF wf, of 64] by (auto simp: tick_count_def)
qed

text \<open>
  C39. Before the first access latency has passed, the subtraction of ticks wraps around and every record
  is dropped: an access is admitted whatever is in flight, even to the same line.
\<close>

theorem alu_admits_all_early:
  assumes "alu_wf now a" and "now < alu_accessLatency a"
    and "unat now + unat (alu_accessLatency a) < 2 ^ 64"
  shows "alu_tryAccess now addr a = Inr (True, a\<lparr>accessQueue := []\<rparr>)"
  using alu_early_queue_empty [OF assms] by (simp add: alu_tryAccess_def)

theorem alu_admits_all_early_witness:
  "\<exists>a. bindE (alu_setBlockSize 64 (alu_setClockPeriod 500 (alu_new 1 2))) (alu_reserve 500 0) = Inr a \<and>
     alu_tryAccess 500 0 a = Inr (True, a\<lparr>accessQueue := []\<rparr>)"
proof -
  let ?a = "\<lparr>numALUs = 1, accessClocks = 2, alu_accessLatency = 1000,
    accessQueue = [\<lparr>lineAddr = 0, startTick = 500\<rparr>], alu_block_size_bits = 6\<rparr>"
  have mk: "bindE (alu_setBlockSize 64 (alu_setClockPeriod 500 (alu_new 1 2))) (alu_reserve 500 0) = Inr ?a"
    by code_simp
  have wf: "alu_wf 500 ?a" by (simp add: alu_wf_def)
  show ?thesis using mk alu_admits_all_early [OF wf] by simp
qed

end
