(* ===== verification/Sat_Counter.thy ===== *)
theory Sat_Counter
  imports Complex_Main Ruby_Prelude
begin

text \<open>
  The saturating counter \<^verbatim>\<open>GenericSatCounter<T>\<close> of \<^verbatim>\<open>src/gem5/src/base/sat_counter.hh\<close>.  The
  container type \<^verbatim>\<open>T\<close> is a word of the length of the record's type parameter, so
  \<^verbatim>\<open>SatCounter8\<close> is \<open>8 sat_counter\<close>.  The cache uses a 4-bit \<^verbatim>\<open>SatCounter8\<close> per page to decide
  when a page is redirected, and the RRIP replacement policies use one per line.

  \<open>sc_wf\<close> is the representation invariant (the counter and its reset value never exceed the
  maximum); every operation keeps it.  Additions and subtractions clamp to the range
  \<open>0 .. maxVal\<close>.  The operand of \<^verbatim>\<open>operator+=\<close> and \<^verbatim>\<open>operator-=\<close> is a \<^verbatim>\<open>long long\<close>, a 64-bit word
  read as signed; negating the smallest one overflows, which is the error \<open>UndefNegation\<close>.  A shift
  by at least the width of the promoted operand (\<^verbatim>\<open>int\<close> for the narrow containers) is
  \<open>UndefShift\<close>.
\<close>

record (overloaded) 'w sat_counter =
  initialVal :: "'w :: len word"
  maxVal :: "'w word"
  counter :: "'w word"

type_synonym SatCounter8 = "8 sat_counter"

definition sc_new :: "nat \<Rightarrow> 'w :: len word \<Rightarrow> 'w sat_counter res" where
  "sc_new bits initial_val =
     bindE (guardE (bits < 64) UndefShift) (\<lambda>_.
     let mx = ucast (push_bit bits 1 - 1 :: 64 word) in
     bindE (guardE (bits \<le> LENGTH('w))
              (Fatal ''Number of bits exceeds counter size'')) (\<lambda>_.
     bindE (guardE (initial_val \<le> mx)
              (Fatal ''Saturating counter's initial value exceeds max value.'')) (\<lambda>_.
     Inr \<lparr>initialVal = initial_val, maxVal = mx, counter = initial_val\<rparr>)))"

text \<open>The pre-increment and pre-decrement; the post forms have the same effect.\<close>

definition sc_inc :: "'w :: len sat_counter \<Rightarrow> 'w sat_counter" where
  "sc_inc c = (if counter c < maxVal c then c\<lparr>counter := counter c + 1\<rparr> else c)"

definition sc_dec :: "'w :: len sat_counter \<Rightarrow> 'w sat_counter" where
  "sc_dec c = (if 0 < counter c then c\<lparr>counter := counter c - 1\<rparr> else c)"

text \<open>The post-increment and post-decrement also return the counter before the step.\<close>

definition sc_post_inc :: "'w :: len sat_counter \<Rightarrow> 'w sat_counter \<times> 'w sat_counter" where
  "sc_post_inc c = (c, sc_inc c)"

definition sc_post_dec :: "'w :: len sat_counter \<Rightarrow> 'w sat_counter \<times> 'w sat_counter" where
  "sc_post_dec c = (c, sc_dec c)"

text \<open>A moved-from counter is left as \<^verbatim>\<open>GenericSatCounter(0)\<close>: no bits, value 0.\<close>

definition sc_move :: "'w :: len sat_counter \<Rightarrow> 'w sat_counter \<times> 'w sat_counter" where
  "sc_move other = (other, \<lparr>initialVal = 0, maxVal = 0, counter = 0\<rparr>)"

definition sc_shr :: "int \<Rightarrow> 'w :: len sat_counter \<Rightarrow> 'w sat_counter res" where
  "sc_shr shift c =
     bindE (assertE (0 \<le> shift) ''shift >= 0'') (\<lambda>_.
     bindE (guardE (shift < int (max 32 LENGTH('w))) UndefShift) (\<lambda>_.
     Inr (c\<lparr>counter := drop_bit (nat shift) (counter c)\<rparr>)))"

definition sc_shl :: "int \<Rightarrow> 'w :: len sat_counter \<Rightarrow> 'w sat_counter res" where
  "sc_shl shift c =
     bindE (assertE (0 \<le> shift) ''shift >= 0'') (\<lambda>_.
     bindE (guardE (shift < int (max 32 LENGTH('w))) UndefShift) (\<lambda>_.
     let c1 = c\<lparr>counter := push_bit (nat shift) (counter c)\<rparr>
     in Inr (if maxVal c1 < counter c1 then c1\<lparr>counter := maxVal c1\<rparr> else c1)))"

definition sc_add_nonneg :: "int \<Rightarrow> 'w :: len sat_counter \<Rightarrow> 'w sat_counter" where
  "sc_add_nonneg v c =
     (if v \<le> uint (maxVal c - counter c)
      then c\<lparr>counter := counter c + of_int v\<rparr>
      else c\<lparr>counter := maxVal c\<rparr>)"

definition sc_sub_nonneg :: "int \<Rightarrow> 'w :: len sat_counter \<Rightarrow> 'w sat_counter" where
  "sc_sub_nonneg v c =
     (if v < uint (counter c)
      then c\<lparr>counter := counter c - of_int v\<rparr>
      else c\<lparr>counter := 0\<rparr>)"

text \<open>The unary minus of a \<^verbatim>\<open>long long\<close>; the smallest one has no negation.\<close>

definition negateE :: "64 word \<Rightarrow> 64 word res" where
  "negateE v = bindE (guardE (v \<noteq> 2 ^ 63) UndefNegation) (\<lambda>_. Inr (- v))"

definition sc_add :: "64 word \<Rightarrow> 'w :: len sat_counter \<Rightarrow> 'w sat_counter res" where
  "sc_add v c =
     (if 0 \<le> sint v then Inr (sc_add_nonneg (sint v) c)
      else bindE (negateE v) (\<lambda>n. Inr (sc_sub_nonneg (sint n) c)))"

definition sc_sub :: "64 word \<Rightarrow> 'w :: len sat_counter \<Rightarrow> 'w sat_counter res" where
  "sc_sub v c =
     (if 0 \<le> sint v then Inr (sc_sub_nonneg (sint v) c)
      else bindE (negateE v) (\<lambda>n. Inr (sc_add_nonneg (sint n) c)))"

definition sc_reset :: "'w :: len sat_counter \<Rightarrow> 'w sat_counter" where
  "sc_reset c = c\<lparr>counter := initialVal c\<rparr>"

definition sc_isSaturated :: "'w :: len sat_counter \<Rightarrow> bool" where
  "sc_isSaturated c \<longleftrightarrow> counter c = maxVal c"

definition sc_saturate :: "'w :: len sat_counter \<Rightarrow> 'w word \<times> 'w sat_counter" where
  "sc_saturate c = (maxVal c - counter c, c\<lparr>counter := maxVal c\<rparr>)"

definition sc_value :: "'w :: len sat_counter \<Rightarrow> nat" where
  "sc_value c = unat (counter c)"

text \<open>
  The saturation is a floating-point quotient; \<open>rnd\<close> is the rounding of the division, a parameter
  of the model.  A counter without bits divides 0 by 0: the result is no number (\<open>None\<close>), and
  every comparison with it is false.
\<close>

definition calcSaturation :: "(rat \<Rightarrow> rat) \<Rightarrow> 'w :: len sat_counter \<Rightarrow> rat option" where
  "calcSaturation rnd c =
     (if maxVal c = 0 then None else Some (rnd (of_nat (sc_value c) / of_nat (unat (maxVal c)))))"

fun fp_less :: "rat option \<Rightarrow> rat \<Rightarrow> bool" where
  "fp_less (Some x) t \<longleftrightarrow> x < t"
| "fp_less None t \<longleftrightarrow> False"

fun fp_geq :: "rat option \<Rightarrow> rat \<Rightarrow> bool" where
  "fp_geq (Some x) t \<longleftrightarrow> t \<le> x"
| "fp_geq None t \<longleftrightarrow> False"

section \<open>The representation invariant\<close>

definition sc_wf :: "'w :: len sat_counter \<Rightarrow> bool" where
  "sc_wf c \<longleftrightarrow> counter c \<le> maxVal c \<and> initialVal c \<le> maxVal c"

lemma sc_new_wf: "sc_new b i = Inr c \<Longrightarrow> sc_wf c"
  by (auto simp: sc_new_def sc_wf_def res_iffs Let_def)

lemma sc_inc_wf: "sc_wf c \<Longrightarrow> sc_wf (sc_inc c)"
  by (auto simp: sc_wf_def sc_inc_def inc_le)

lemma sc_dec_wf: "sc_wf c \<Longrightarrow> sc_wf (sc_dec c)"
  by (auto simp: sc_wf_def sc_dec_def word_le_nat_alt unat_minus_one)

lemma sc_shl_wf: "sc_wf c \<Longrightarrow> sc_shl k c = Inr c' \<Longrightarrow> sc_wf c'"
  by (auto simp: sc_wf_def sc_shl_def res_iffs Let_def not_less split: if_splits)

lemma sc_shr_wf: "sc_wf c \<Longrightarrow> sc_shr k c = Inr c' \<Longrightarrow> sc_wf c'"
  by (auto simp: sc_wf_def sc_shr_def res_iffs word_le_nat_alt unat_shiftr
      intro: order_trans [OF div_le_dividend])

lemma sc_reset_wf: "sc_wf c \<Longrightarrow> sc_wf (sc_reset c)"
  by (simp add: sc_wf_def sc_reset_def)

lemma sc_saturate_wf: "sc_wf c \<Longrightarrow> sc_wf (snd (sc_saturate c))"
  by (simp add: sc_wf_def sc_saturate_def)

section \<open>Clamped arithmetic\<close>

lemma sc_inc_value: "sc_wf c \<Longrightarrow> sc_value (sc_inc c) = min (sc_value c + 1) (unat (maxVal c))"
  by (auto simp: sc_value_def sc_inc_def sc_wf_def unat_plus_one word_le_nat_alt
      word_less_nat_alt)

lemma sc_inc_maxVal [simp]: "maxVal (sc_inc c) = maxVal c"
  by (simp add: sc_inc_def)

lemma sc_maxVal [simp]:
  "maxVal (sc_dec c) = maxVal c" "maxVal (sc_reset c) = maxVal c" "maxVal (snd (sc_saturate c)) = maxVal c"
  by (simp_all add: sc_dec_def sc_reset_def sc_saturate_def)

lemma sc_value_le_max: "sc_wf c \<Longrightarrow> sc_value c \<le> unat (maxVal c)"
  by (simp add: sc_wf_def sc_value_def word_le_nat_alt)

lemma sc_isSaturated_value: "sc_wf c \<Longrightarrow> sc_isSaturated c \<longleftrightarrow> sc_value c = unat (maxVal c)"
  by (simp add: sc_isSaturated_def sc_value_def word_unat_eq_iff)

lemma sc_incs_wf: "sc_wf c \<Longrightarrow> sc_wf ((sc_inc ^^ n) c)"
  by (induction n) (simp_all add: sc_inc_wf)

lemma sc_incs_value:
  assumes "sc_wf c"
  shows "sc_value ((sc_inc ^^ n) c) = min (sc_value c + n) (unat (maxVal c)) \<and>
    maxVal ((sc_inc ^^ n) c) = maxVal c"
  by (induction n) (use assms in \<open>auto simp: sc_inc_value sc_incs_wf sc_value_le_max min_absorb1\<close>)

lemma sc_nonneg_frame [simp]:
  "maxVal (sc_add_nonneg v c) = maxVal c" "initialVal (sc_add_nonneg v c) = initialVal c"
  "maxVal (sc_sub_nonneg v c) = maxVal c" "initialVal (sc_sub_nonneg v c) = initialVal c"
  by (simp_all add: sc_add_nonneg_def sc_sub_nonneg_def)

lemma sc_add_nonneg_value:
  assumes "sc_wf c" and "0 \<le> v"
  shows "uint (counter (sc_add_nonneg v c)) = min (uint (maxVal c)) (uint (counter c) + v)"
  using assms
  by (auto simp: sc_add_nonneg_def uint_diff_word sc_wf_def uint_add_int [of v "counter c" "maxVal c"])

lemma sc_sub_nonneg_value:
  assumes "0 \<le> v"
  shows "uint (counter (sc_sub_nonneg v c)) = max 0 (uint (counter c) - v)"
  using assms by (auto simp: sc_sub_nonneg_def uint_sub_int)

lemma sc_nonneg_wf:
  assumes "sc_wf c" and "0 \<le> v"
  shows "sc_wf (sc_add_nonneg v c)" and "sc_wf (sc_sub_nonneg v c)"
proof -
  have le: "uint (counter c) \<le> uint (maxVal c)" using assms(1) by (simp add: sc_wf_def word_le_def)
  show "sc_wf (sc_add_nonneg v c)"
    using sc_add_nonneg_value [OF assms] assms(1) by (simp add: sc_wf_def word_le_def)
  show "sc_wf (sc_sub_nonneg v c)"
    using sc_sub_nonneg_value [OF assms(2), of c] assms le by (simp add: sc_wf_def word_le_def)
qed

lemma sint_llong_min: "sint v = - (2 ^ 63) \<longleftrightarrow> v = (2 ^ 63 :: 64 word)"
proof -
  have "sint (2 ^ 63 :: 64 word) = - (2 ^ 63)" by simp
  then show ?thesis by (metis signed_word_eqI)
qed

lemma sint_negate:
  assumes "v \<noteq> (2 ^ 63 :: 64 word)"
  shows "sint (- v) = - sint v"
proof -
  have "- (2 ^ 63) \<le> sint v" "sint v < 2 ^ 63"
    using sint_ge [of v] sint_lt [of v] by simp_all
  moreover have "sint v \<noteq> - (2 ^ 63)" using assms sint_llong_min by blast
  moreover have "sint (- v) = signed_take_bit 63 (- sint v)"
    by (simp add: sint_word_ariths)
  ultimately show ?thesis by (simp add: signed_take_bit_int_eq_self)
qed

lemma negateE_spec:
  "negateE v = (if v = 2 ^ 63 then Inl UndefNegation else Inr (- v))"
  by (simp add: negateE_def guardE_def)

text \<open>A non-negative operand, such as the difference BRRIP adds, needs no negation.\<close>

lemma sc_add_byte: "sc_add (ucast (w :: 8 word)) c = Inr (sc_add_nonneg (uint w) c)"
proof -
  have w: "uint w < 256" using uint_lt2p [of w] by simp
  have "signed_take_bit 63 (uint w) = uint w"
    using w by (intro signed_take_bit_int_eq_self order_trans [OF _ uint_ge_0]) simp_all
  then have "sint (ucast w :: 64 word) = uint w"
    using w by (simp add: sint_uint unsigned_ucast_eq take_bit_int_eq_self)
  then show ?thesis by (simp add: sc_add_def)
qed

text \<open>
  A left shift saturates only when the shifted v still fits the container: bits shifted
  out of the container are lost before the comparison with the maximum.
\<close>

lemma sc_shl_value:
  fixes c :: "'w :: len sat_counter"
  assumes "sc_value c * 2 ^ k < 2 ^ LENGTH('w)" and "sc_shl (int k) c = Inr c'"
  shows "sc_value c' = min (sc_value c * 2 ^ k) (unat (maxVal c))"
proof -
  have "unat (push_bit k (counter c)) = sc_value c * 2 ^ k"
    using assms(1) unfolding sc_value_def
    by (subst unsigned_push_bit_eq) (simp add: push_bit_eq_mult take_bit_eq_mod)
  then show ?thesis
    using assms(2)
    by (auto simp: sc_shl_def Let_def sc_value_def word_less_nat_alt res_iffs split: if_splits)
qed

text \<open>
  C34. The arithmetic of a saturating counter clamps: adding or subtracting an operand of either sign
  gives the exact sum or difference limited to the range from 0 to the maximum, and leaves the
  maximum and the reset value alone.  The one operand the operators cannot take is the smallest
  \<^verbatim>\<open>long long\<close>, whose negation overflows.
\<close>

theorem sat_counter_clamps:
  assumes "sc_wf c"
  shows "if v = 2 ^ 63 then sc_add v c = Inl UndefNegation \<and> sc_sub v c = Inl UndefNegation
    else \<exists>c1 c2. sc_add v c = Inr c1 \<and> sc_sub v c = Inr c2 \<and>
      uint (counter c1) = max 0 (min (uint (maxVal c)) (uint (counter c) + sint v)) \<and>
      uint (counter c2) = max 0 (min (uint (maxVal c)) (uint (counter c) - sint v)) \<and>
      sc_wf c1 \<and> sc_wf c2 \<and>
      (initialVal c1, maxVal c1) = (initialVal c, maxVal c) \<and>
      (initialVal c2, maxVal c2) = (initialVal c, maxVal c)"
proof -
  have le: "0 \<le> uint (counter c)" "uint (counter c) \<le> uint (maxVal c)"
    using assms by (simp_all add: sc_wf_def word_le_def)
  have min: "sint (2 ^ 63 :: 64 word) < 0" by simp
  note nonneg = sc_add_nonneg_value [OF assms] sc_sub_nonneg_value [of _ c] sc_nonneg_wf [OF assms]
  show ?thesis
  proof (cases "0 \<le> sint v")
    case True
    then have "v \<noteq> 2 ^ 63" using min by auto
    then show ?thesis using True le nonneg [of "sint v"] by (auto simp: sc_add_def sc_sub_def)
  next
    case False
    have "max 0 (min (uint (maxVal c)) (uint (counter c) + sint v)) = max 0 (uint (counter c) + sint v)"
      and "max 0 (min (uint (maxVal c)) (uint (counter c) - sint v)) = min (uint (maxVal c)) (uint (counter c) - sint v)"
      using False le by linarith+
    then show ?thesis
      using False nonneg [of "- sint v"] by (simp add: sc_add_def sc_sub_def negateE_spec sint_negate)
  qed
qed

theorem sat_counter_clamps_witness:
  "\<exists>c c1 c2 :: 8 sat_counter. sc_new 4 3 = Inr c \<and> sc_add 20 c = Inr c1 \<and> uint (counter c1) = 15 \<and>
     sc_sub (- 2) c = Inr c2 \<and> uint (counter c2) = 5"
proof -
  let ?c = "\<lparr>initialVal = 3, maxVal = 15, counter = 3\<rparr> :: 8 sat_counter"
  have c: "sc_new 4 3 = Inr ?c" by (simp add: sc_new_def Let_def)
  show ?thesis
    using c sat_counter_clamps [OF sc_new_wf [OF c], of 20] sat_counter_clamps [OF sc_new_wf [OF c], of "- 2"]
    by auto
qed

end
