(* ===== verification/Replacement_Base.thy ===== *)
theory Replacement_Base
  imports Ruby_Prelude
begin

text \<open>
  The interface between a cache and its replacement policy
  (\<^verbatim>\<open>src/gem5/src/mem/cache/replacement_policies/base.hh\<close>).

  A cache owns a two-dimensional array of replacement data, one element per set and way; the
  policy object owns whatever state its entries share (a FIFO clock, the PLRU trees).  Virtual
  dispatch on the policy object is a record of its operations: \<open>'d\<close> is the type of one
  element of replacement data and \<open>'g\<close> the state of the policy object.  \<open>rp_touch_occ\<close> is the
  overload of \<^verbatim>\<open>WeightedLRU::touch\<close> that takes an occupancy, and \<open>rp_use_occupancy\<close> the result
  of the \<^verbatim>\<open>dynamic_cast\<close> by which the cache asks whether it may be called.  A victim is an index
  into the list of candidates; choosing one may update the candidates' data.

  The locale \<open>replacement_policy\<close> is the contract a cache relies on: from a state that
  satisfies the policy's own invariant no operation faults, every operation keeps the
  invariant, and a victim is one of the candidates.
\<close>

record ('d, 'g) repl_policy =
  rp_invalidate :: "Tick \<Rightarrow> 'g \<Rightarrow> 'd \<Rightarrow> ('d \<times> 'g) res"
  rp_touch :: "Tick \<Rightarrow> 'g \<Rightarrow> 'd \<Rightarrow> ('d \<times> 'g) res"
  rp_touch_occ :: "Tick \<Rightarrow> int \<Rightarrow> 'g \<Rightarrow> 'd \<Rightarrow> ('d \<times> 'g) res"
  rp_use_occupancy :: bool
  rp_reset :: "Tick \<Rightarrow> 'g \<Rightarrow> 'd \<Rightarrow> ('d \<times> 'g) res"
  rp_getVictim :: "'g \<Rightarrow> 'd list \<Rightarrow> (nat \<times> 'd list \<times> 'g) res"
  rp_instantiateEntry :: "'g \<Rightarrow> ('d \<times> 'g) res"

locale replacement_policy =
  fixes P :: "('d, 'g) repl_policy"
    and ok :: "'g \<Rightarrow> 'd list list \<Rightarrow> bool"
  assumes touch_ok:
      "ok g rd \<Longrightarrow> s < length rd \<Longrightarrow> w < length (rd ! s) \<Longrightarrow>
        \<exists>d' g'. rp_touch P now g (rd ! s ! w) = Inr (d', g') \<and> ok g' (upd2 rd s w d')"
    and touch_occ_ok:
      "ok g rd \<Longrightarrow> s < length rd \<Longrightarrow> w < length (rd ! s) \<Longrightarrow>
        \<exists>d' g'. rp_touch_occ P now occ g (rd ! s ! w) = Inr (d', g') \<and> ok g' (upd2 rd s w d')"
    and reset_ok:
      "ok g rd \<Longrightarrow> s < length rd \<Longrightarrow> w < length (rd ! s) \<Longrightarrow>
        \<exists>d' g'. rp_reset P now g (rd ! s ! w) = Inr (d', g') \<and> ok g' (upd2 rd s w d')"
    and invalidate_ok:
      "ok g rd \<Longrightarrow> s < length rd \<Longrightarrow> w < length (rd ! s) \<Longrightarrow>
        \<exists>d' g'. rp_invalidate P now g (rd ! s ! w) = Inr (d', g') \<and> ok g' (upd2 rd s w d')"
    and getVictim_ok:
      "ok g rd \<Longrightarrow> s < length rd \<Longrightarrow> rd ! s \<noteq> [] \<Longrightarrow>
        \<exists>v ds' g'. rp_getVictim P g (rd ! s) = Inr (v, ds', g') \<and> v < length (rd ! s) \<and>
          length ds' = length (rd ! s) \<and> ok g' (rd[s := ds'])"

section \<open>The victim scan\<close>

text \<open>
  The loop most policies share: start with candidate 0 and replace the victim by every
  candidate that beats it.
\<close>

fun scan_from :: "('d \<Rightarrow> 'd \<Rightarrow> bool) \<Rightarrow> 'd list \<Rightarrow> nat \<Rightarrow> nat list \<Rightarrow> nat" where
  "scan_from beats ds v [] = v"
| "scan_from beats ds v (i # is) =
     scan_from beats ds (if beats (ds ! i) (ds ! v) then i else v) is"

definition scan_victim :: "('d \<Rightarrow> 'd \<Rightarrow> bool) \<Rightarrow> 'd list \<Rightarrow> nat" where
  "scan_victim beats ds = scan_from beats ds 0 [0..<length ds]"

lemma scan_from_range:
  "v < n \<Longrightarrow> \<forall>i \<in> set is. i < n \<Longrightarrow> scan_from beats ds v is < n"
  by (induction "is" arbitrary: v) auto

lemma scan_victim_range: "ds \<noteq> [] \<Longrightarrow> scan_victim beats ds < length ds"
  unfolding scan_victim_def by (rule scan_from_range) auto

text \<open>
  When \<open>beats\<close> compares a key in a linear order, the scan returns the first candidate with the
  least key.
\<close>

lemma scan_from_least:
  fixes key :: "'d \<Rightarrow> 'k :: linorder"
  assumes beats: "\<And>c v. beats c v \<longleftrightarrow> key c < key v"
  shows "key (ds ! scan_from beats ds v is) \<le> key (ds ! v) \<and>
    (\<forall>i \<in> set is. key (ds ! scan_from beats ds v is) \<le> key (ds ! i))"
proof (induction "is" arbitrary: v)
  case (Cons a "is")
  show ?case
  proof (cases "key (ds ! a) < key (ds ! v)")
    case True
    with Cons.IH [of a] beats show ?thesis by auto
  next
    case False
    with Cons.IH [of v] beats show ?thesis by auto
  qed
qed simp

lemma scan_from_first:
  fixes key :: "'d \<Rightarrow> 'k :: linorder"
  assumes beats: "\<And>c v. beats c v \<longleftrightarrow> key c < key v"
    and "v < n" and "\<forall>j<v. key (ds ! v) < key (ds ! j)"
    and "\<forall>j<n. v < j \<longrightarrow> key (ds ! v) \<le> key (ds ! j)" and "n \<le> m"
  shows "\<forall>j < scan_from beats ds v [n..<m].
    key (ds ! scan_from beats ds v [n..<m]) < key (ds ! j)"
  using assms(2-)
proof (induction "m - n" arbitrary: n v)
  case 0
  then show ?case by simp
next
  case (Suc k)
  then have nm: "[n..<m] = n # [Suc n..<m]" "k = m - Suc n" "Suc n \<le> m"
    by (auto simp: upt_conv_Cons)
  show ?case
  proof (cases "key (ds ! n) < key (ds ! v)")
    case True
    have "\<forall>j<n. key (ds ! n) < key (ds ! j)"
      using True Suc.prems by (metis less_trans order_less_le_trans not_less_iff_gr_or_eq)
    then show ?thesis
      using Suc.hyps(1) [of "Suc n" n] True nm beats
      by (auto simp: less_Suc_eq)
  next
    case False
    then show ?thesis
      using Suc.hyps(1) [of "Suc n" v] Suc.prems nm beats
      by (auto simp: less_Suc_eq)
  qed
qed

lemma scan_victim_least:
  fixes key :: "'d \<Rightarrow> 'k :: linorder"
  assumes beats: "\<And>c v. beats c v \<longleftrightarrow> key c < key v" and "i < length ds"
  shows "key (ds ! scan_victim beats ds) \<le> key (ds ! i)"
  using scan_from_least [of beats key ds 0 "[0..<length ds]", OF beats] assms(2)
  unfolding scan_victim_def by auto

lemma scan_victim_first:
  fixes key :: "'d \<Rightarrow> 'k :: linorder"
  assumes beats: "\<And>c v. beats c v \<longleftrightarrow> key c < key v" and ne: "ds \<noteq> []"
    and "j < scan_victim beats ds"
  shows "key (ds ! scan_victim beats ds) < key (ds ! j)"
proof -
  obtain m where m: "length ds = Suc m" using ne by (cases ds) auto
  have upt: "[0..<length ds] = 0 # [1..<length ds]"
    using m by (simp add: upt_conv_Cons)
  have eq: "scan_victim beats ds = scan_from beats ds 0 [1..<length ds]"
    unfolding scan_victim_def upt by simp
  show ?thesis
    using scan_from_first [of beats key 0 1 ds "length ds", OF beats] assms(3) m
    unfolding eq by auto
qed

lemma scan_victim_unique:
  fixes key :: "'d \<Rightarrow> 'k :: linorder"
  assumes beats: "\<And>c v. beats c v \<longleftrightarrow> key c < key v" and "i < length ds"
    and "\<And>j. j < length ds \<Longrightarrow> j \<noteq> i \<Longrightarrow> key (ds ! i) < key (ds ! j)"
  shows "scan_victim beats ds = i"
proof (rule ccontr)
  assume neq: "scan_victim beats ds \<noteq> i"
  have "scan_victim beats ds < length ds"
    using assms(2) by (intro scan_victim_range) auto
  then have "key (ds ! i) < key (ds ! scan_victim beats ds)"
    using neq by (rule assms(3))
  with scan_victim_least [of beats key i ds, OF beats assms(2)] show False by simp
qed

end
