(* ===== verification/Cache_Memory.thy ===== *)
theory Cache_Memory
  imports Cache_Entry Banked_Array ALU_Free_List Sat_Counter Replacement_Base
begin

text \<open>
  The cache structure of the Ruby memory system with its STT-RAM extension
  (\<^verbatim>\<open>src/gem5/src/mem/ruby/structures/CacheMemory.hh\<close> and \<^verbatim>\<open>.cc\<close>): a set-associative array of
  entries with a tag index, a replacement policy, retention zones that give each range of sets
  its own latencies and retention time, and the lazy redirection of write-intensive pages to
  the low-retention zones.  This theory holds the state and every operation; their properties
  are in the theories that import it.

  A pointer to an entry is its position (set, way) in \<open>m_cache\<close>, and a null pointer is \<open>None\<close>.
  The replacement policy object is the record \<open>P\<close> of its operations together with its state
  \<open>repl_state\<close>.  The \<^verbatim>\<open>int\<close> and \<^verbatim>\<open>int64_t\<close> members that count sets, ways, blocks and zones are
  natural numbers: the configuration gives them as non-negative values.  The one \<^verbatim>\<open>int\<close> that can
  turn negative, the size in bytes narrowed from 64 bits, is an integer.  \<^verbatim>\<open>curTick()\<close> is the
  argument \<open>now\<close>.  Statistics are counters; text output is left out.
\<close>

section \<open>State\<close>

datatype CacheRequestType =
    DataArrayRead
  | DataArrayWrite
  | TagArrayRead
  | TagArrayWrite
  | AtomicALUOperation
  | CacheRequestType_NUM

datatype CacheResourceType =
    DataArray
  | TagArray
  | AtomicALUArray
  | CacheResourceType_NUM

datatype RubyRequestType =
    LD | ST | ATOMIC | ATOMIC_RETURN | ATOMIC_NO_RETURN | IFETCH | IO | REPLACEMENT
  | Load_Linked | Store_Conditional | RMW_Read | RMW_Write | Locked_RMW_Read
  | Locked_RMW_Write | COMMIT | NULL | FLUSH | InvL2 | Release | Acquire | AcquireRelease
  | HTM_Start | HTM_Commit | HTM_Cancel | HTM_Abort | TLBI | TLBI_SYNC | TLBI_EXT_SYNC
  | TLBI_EXT_SYNC_COMP | hasNoAddr

record access_latency =
  read_latency :: Cycles
  write_latency :: Cycles

record latency_type =
  lt_data :: access_latency
  lt_tag :: access_latency
  lt_time :: Tick

record chunk_info =
  reads :: nat
  writes :: nat

record cache_stats =
  numDataArrayReads :: nat
  numDataArrayWrites :: nat
  numTagArrayReads :: nat
  numTagArrayWrites :: nat
  numTagArrayStalls :: nat
  numDataArrayStalls :: nat
  numAtomicALUOperations :: nat
  numAtomicALUArrayStalls :: nat
  htmTransCommitReadSet :: "nat list"
  htmTransCommitWriteSet :: "nat list"
  htmTransAbortReadSet :: "nat list"
  htmTransAbortWriteSet :: "nat list"
  m_demand_hits :: nat
  m_demand_misses :: nat
  m_prefetch_hits :: nat
  m_prefetch_misses :: nat
  m_accesses_per_set :: "nat list"
  m_data_array_stalls :: nat
  m_chunk_reads :: "nat list"
  m_chunk_writes :: "nat list"
  m_zombies_collected :: nat
  m_inter_zone_jumps :: nat
  m_intra_zone_walks :: nat

definition stats_new :: cache_stats where
  "stats_new =
     \<lparr>numDataArrayReads = 0, numDataArrayWrites = 0, numTagArrayReads = 0,
      numTagArrayWrites = 0, numTagArrayStalls = 0, numDataArrayStalls = 0,
      numAtomicALUOperations = 0, numAtomicALUArrayStalls = 0,
      htmTransCommitReadSet = [], htmTransCommitWriteSet = [],
      htmTransAbortReadSet = [], htmTransAbortWriteSet = [],
      m_demand_hits = 0, m_demand_misses = 0, m_prefetch_hits = 0, m_prefetch_misses = 0,
      m_accesses_per_set = [], m_data_array_stalls = 0, m_chunk_reads = [],
      m_chunk_writes = [], m_zombies_collected = 0, m_inter_zone_jumps = 0,
      m_intra_zone_walks = 0\<rparr>"

record ('d, 'g, 'e) cache_memory =
  m_is_sttram :: bool
  m_lazy_redirection_scheme :: bool
  m_is_instruction_only_cache :: bool
  m_tag_index :: "Addr \<rightharpoonup> 32 word"
  m_cache :: "'e cache_entry_scheme option list list"
  repl_state :: 'g
  dataArray :: banked_array
  tagArray :: banked_array
  atomicALUArray :: alu_array
  m_cache_size :: int
  m_cache_num_sets :: nat
  m_cache_num_set_bits :: nat
  m_cache_assoc :: nat
  m_start_index_bit :: nat
  m_resource_stalls :: bool
  m_block_size :: nat
  m_num_of_retention_zones :: nat
  m_thresholds :: "nat list"
  m_retention_table :: "latency_type list"
  m_chunk :: "chunk_info list"
  m_chunk_counters :: "Addr \<rightharpoonup> SatCounter8"
  m_chunk_redirection_table :: "Addr \<rightharpoonup> nat"
  replacement_data :: "'d list list"
  m_use_occupancy :: bool
  cacheMemoryStats :: cache_stats
  ruby_clockPeriod :: Tick

section \<open>Construction\<close>

text \<open>The parameters of \<^verbatim>\<open>RubyCacheParams\<close> that the cache reads.\<close>

record cache_params =
  p_size :: "64 word"
  p_assoc :: nat
  p_start_index_bit :: nat
  p_is_icache :: bool
  p_block_size :: nat
  p_atomicLatency :: Cycles
  p_atomicALUs :: nat
  p_dataArrayBanks :: nat
  p_tagArrayBanks :: nat
  p_resourceStalls :: bool
  p_num_of_retention_zones :: int
  p_is_sttram :: bool
  p_lazy_redirection_scheme :: bool
  p_low_retention :: latency_type
  p_mediumlow_retention :: latency_type
  p_mediumhigh_retention :: latency_type
  p_high_retention :: latency_type

definition retention_table_of :: "int \<Rightarrow> cache_params \<Rightarrow> latency_type list" where
  "retention_table_of zones p =
     (if zones = 1 then [p_low_retention p]
      else if zones = 2 then [p_low_retention p, p_high_retention p]
      else if zones = 3 then [p_low_retention p, p_mediumlow_retention p, p_high_retention p]
      else [p_low_retention p, p_mediumlow_retention p, p_mediumhigh_retention p,
            p_high_retention p])"

definition cm_new ::
  "('d, 'g) repl_policy \<Rightarrow> 'g \<Rightarrow> cache_params \<Rightarrow> ('d, 'g, 'e) cache_memory res" where
  "cm_new P g p =
     bindE (ba_new (p_dataArrayBanks p) (p_start_index_bit p)) (\<lambda>dataA.
     bindE (ba_new (p_tagArrayBanks p) (p_start_index_bit p)) (\<lambda>tagA.
     bindE (guardE (\<not> (p_lazy_redirection_scheme p \<and> \<not> p_is_sttram p))
              (Fatal ''lazy redirection without STT-RAM'')) (\<lambda>_.
     bindE (guardE (\<not> (p_num_of_retention_zones p < 1 \<or> 4 < p_num_of_retention_zones p))
              (Fatal ''num_of_retention_zones must be between 1 and 4'')) (\<lambda>_.
     Inr \<lparr>m_is_sttram = p_is_sttram p,
          m_lazy_redirection_scheme = p_lazy_redirection_scheme p,
          m_is_instruction_only_cache = p_is_icache p,
          m_tag_index = Map.empty, m_cache = [], repl_state = g,
          dataArray = dataA, tagArray = tagA,
          atomicALUArray = alu_new (p_atomicALUs p) (p_atomicLatency p),
          m_cache_size = sint (ucast (p_size p) :: 32 word),
          m_cache_num_sets = 0, m_cache_num_set_bits = 0,
          m_cache_assoc = p_assoc p, m_start_index_bit = p_start_index_bit p,
          m_resource_stalls = p_resourceStalls p, m_block_size = p_block_size p,
          m_num_of_retention_zones = nat (p_num_of_retention_zones p),
          m_thresholds = [],
          m_retention_table = retention_table_of (p_num_of_retention_zones p) p,
          m_chunk = [], m_chunk_counters = Map.empty,
          m_chunk_redirection_table = Map.empty, replacement_data = [],
          m_use_occupancy = rp_use_occupancy P, cacheMemoryStats = stats_new,
          ruby_clockPeriod = 0\<rparr>))))"

text \<open>\<^verbatim>\<open>RubySystem\<close> is represented by the two values the cache asks it for.\<close>

definition cm_setRubySystem ::
  "Tick \<Rightarrow> nat \<Rightarrow> ('d, 'g, 'e) cache_memory \<Rightarrow> ('d, 'g, 'e) cache_memory res" where
  "cm_setRubySystem clk blk c =
     bindE (alu_setBlockSize blk (alu_setClockPeriod clk (atomicALUArray c))) (\<lambda>alu.
     Inr (c\<lparr>dataArray := ba_setClockPeriod clk (dataArray c),
            tagArray := ba_setClockPeriod clk (tagArray c),
            atomicALUArray := alu,
            m_block_size := (if m_block_size c = 0 then blk else m_block_size c),
            ruby_clockPeriod := clk\<rparr>))"

fun threshold_loop :: "nat \<Rightarrow> nat \<Rightarrow> nat \<Rightarrow> nat list" where
  "threshold_loop threshold threshold_set 0 = []"
| "threshold_loop threshold threshold_set (Suc n) =
     threshold_set # threshold_loop threshold (threshold_set + threshold) n"

fun instantiate_row :: "('d, 'g) repl_policy \<Rightarrow> nat \<Rightarrow> 'g \<Rightarrow> ('d list \<times> 'g) res" where
  "instantiate_row P 0 g = Inr ([], g)"
| "instantiate_row P (Suc k) g =
     bindE (rp_instantiateEntry P g) (\<lambda>(d, g1).
     bindE (instantiate_row P k g1) (\<lambda>(ds, g2). Inr (d # ds, g2)))"

fun instantiate_all ::
  "('d, 'g) repl_policy \<Rightarrow> nat \<Rightarrow> nat \<Rightarrow> 'g \<Rightarrow> ('d list list \<times> 'g) res" where
  "instantiate_all P 0 k g = Inr ([], g)"
| "instantiate_all P (Suc n) k g =
     bindE (instantiate_row P k g) (\<lambda>(ds, g1).
     bindE (instantiate_all P n k g1) (\<lambda>(rd, g2). Inr (ds # rd, g2)))"

text \<open>
  \<^verbatim>\<open>init\<close> runs once, after the constructor.  The number of sets is computed in \<^verbatim>\<open>int\<close>; when the
  narrowed size is negative the quotients are not positive and the assertion fails.
\<close>

definition init_num_sets :: "int \<Rightarrow> nat \<Rightarrow> nat \<Rightarrow> int res" where
  "init_num_sets csize assoc blk =
     bindE (guardE (assoc \<noteq> 0) DivByZero) (\<lambda>_.
     Inr (if 0 \<le> csize then csize div int assoc div int blk
          else - ((- csize) div int assoc div int blk)))"

definition cm_init ::
  "('d, 'g) repl_policy \<Rightarrow> ('d, 'g, 'e) cache_memory \<Rightarrow> Tick \<Rightarrow> nat \<Rightarrow>
   ('d, 'g, 'e) cache_memory res" where
  "cm_init P c clk blk =
     bindE (alu_setBlockSize blk (alu_setClockPeriod clk (atomicALUArray c))) (\<lambda>alu.
     bindE (assertE (blk \<noteq> 0) ''m_block_size != 0'') (\<lambda>_.
     bindE (init_num_sets (m_cache_size c) (m_cache_assoc c) blk) (\<lambda>sets.
     bindE (assertE (1 < sets) ''m_cache_num_sets > 1'') (\<lambda>_.
     let n = nat sets;
         threshold = n div m_num_of_retention_zones c
     in
     bindE (floorLog2 4 (of_nat n)) (\<lambda>bits.
     bindE (assertE (0 < bits) ''m_cache_num_set_bits > 0'') (\<lambda>_.
     bindE (instantiate_all P n (m_cache_assoc c) (repl_state c)) (\<lambda>(rd, g).
     Inr (c\<lparr>dataArray := ba_setClockPeriod clk (dataArray c),
            tagArray := ba_setClockPeriod clk (tagArray c),
            atomicALUArray := alu,
            m_block_size := blk,
            m_cache_num_sets := n,
            m_thresholds := m_thresholds c @
              threshold_loop threshold threshold (m_num_of_retention_zones c),
            m_cache_num_set_bits := bits,
            m_cache := replicate n (replicate (m_cache_assoc c) None),
            replacement_data := rd, repl_state := g,
            m_chunk := replicate (n div 4) \<lparr>reads = 0, writes = 0\<rparr>,
            ruby_clockPeriod := clk\<rparr>))))))))"

definition cm_regStats :: "('d, 'g, 'e) cache_memory \<Rightarrow> ('d, 'g, 'e) cache_memory" where
  "cm_regStats c =
     (let num_chunks = m_cache_num_sets c div 4 in
      c\<lparr>cacheMemoryStats := (cacheMemoryStats c)
          \<lparr>m_accesses_per_set := replicate (m_cache_num_sets c) 0,
           m_chunk_reads := replicate num_chunks 0,
           m_chunk_writes := replicate num_chunks 0\<rparr>\<rparr>)"

section \<open>Addresses, sets and zones\<close>

definition cm_makeLineAddress :: "('d, 'g, 'e) cache_memory \<Rightarrow> Addr \<Rightarrow> Addr res" where
  "cm_makeLineAddress c addr =
     bindE (floorLog2 4 (of_nat (m_block_size c))) (\<lambda>b. makeLineAddress addr b)"

definition assert_line :: "('d, 'g, 'e) cache_memory \<Rightarrow> Addr \<Rightarrow> unit res" where
  "assert_line c addr =
     bindE (cm_makeLineAddress c addr) (\<lambda>l.
     assertE (addr = l) ''address == makeLineAddress(address)'')"

definition getDefaultSet :: "('d, 'g, 'e) cache_memory \<Rightarrow> Addr \<Rightarrow> nat res" where
  "getDefaultSet c addr =
     bindE (bitSelect addr (m_start_index_bit c)
              (m_start_index_bit c + m_cache_num_set_bits c - 1)) (\<lambda>x. Inr (unat x))"

definition getChunkId :: "nat \<Rightarrow> nat" where
  "getChunkId cacheSet = cacheSet div 4"

fun zone_loop :: "nat list \<Rightarrow> nat \<Rightarrow> nat \<Rightarrow> nat \<Rightarrow> nat \<Rightarrow> nat res" where
  "zone_loop th cacheSet dflt i 0 = Inr dflt"
| "zone_loop th cacheSet dflt i (Suc n) =
     bindE (nthE th i) (\<lambda>t.
     if cacheSet < t then Inr i else zone_loop th cacheSet dflt (i + 1) n)"

definition getRetentionZone :: "('d, 'g, 'e) cache_memory \<Rightarrow> nat \<Rightarrow> nat res" where
  "getRetentionZone c cacheSet =
     zone_loop (m_thresholds c) cacheSet (m_num_of_retention_zones c - 1) 0
       (m_num_of_retention_zones c)"

definition chunk_ID :: "Addr \<Rightarrow> Addr" where
  "chunk_ID addr = drop_bit 12 addr"

text \<open>The set of a page that has been redirected to a low-retention zone.\<close>

definition redirected_set :: "('d, 'g, 'e) cache_memory \<Rightarrow> Addr \<Rightarrow> nat \<Rightarrow> nat \<Rightarrow> nat res" where
  "redirected_set c addr zone_size default_set =
     (case m_chunk_redirection_table c (chunk_ID addr) of
        None \<Rightarrow> Inr default_set
      | Some redir \<Rightarrow>
          let block_offset = unat (drop_bit 6 addr AND 0x3F) in
          bindE (guardE (zone_size \<noteq> 0) DivByZero) (\<lambda>_.
          let scatter_offset = (redir + block_offset * 7) mod zone_size in
          bindE (nthE (m_thresholds c) 2) (\<lambda>t2.
          if t2 \<le> default_set then
            bindE (nthE (m_thresholds c) 0) (\<lambda>t0. Inr (t0 + scatter_offset))
          else
            bindE (nthE (m_thresholds c) 1) (\<lambda>t1.
            Inr (if t1 \<le> default_set then scatter_offset else default_set)))))"

text \<open>The walk inside a zone, one set further for every second write to the page.\<close>

definition walked_set :: "('d, 'g, 'e) cache_memory \<Rightarrow> Addr \<Rightarrow> nat \<Rightarrow> nat \<Rightarrow> nat res" where
  "walked_set c addr zone_size base_set =
     (case m_chunk_counters c (chunk_ID addr) of
        None \<Rightarrow> Inr base_set
      | Some cnt \<Rightarrow>
          let writes = sc_value cnt;
              intra_offset0 = writes div 2;
              intra_offset = (if 7 < intra_offset0 then 7 else intra_offset0)
          in
          if 0 < intra_offset then
            bindE (guardE (zone_size \<noteq> 0) DivByZero) (\<lambda>_.
            let zone_start_index = base_set div zone_size * zone_size;
                local_index = base_set mod zone_size
            in Inr (zone_start_index + (local_index + intra_offset) mod zone_size))
          else Inr base_set)"

definition addressToCacheSet :: "('d, 'g, 'e) cache_memory \<Rightarrow> Addr \<Rightarrow> nat res" where
  "addressToCacheSet c addr =
     bindE (assert_line c addr) (\<lambda>_.
     bindE (getDefaultSet c addr) (\<lambda>default_set.
     if \<not> m_lazy_redirection_scheme c \<or> m_num_of_retention_zones c \<noteq> 4 then Inr default_set
     else
       bindE (nthE (m_thresholds c) 0) (\<lambda>zone_size.
       bindE (redirected_set c addr zone_size default_set) (\<lambda>base_set.
       walked_set c addr zone_size base_set))))"

section \<open>The tag index\<close>

text \<open>
  \<^verbatim>\<open>(int)((cacheSet << 16) | (loc & 0xFFFF))\<close> and its inverse.  The mask after the right shift
  removes the sign bits that the shift of a negative \<^verbatim>\<open>int\<close> brings in.
\<close>

definition encode_loc :: "nat \<Rightarrow> nat \<Rightarrow> 32 word" where
  "encode_loc cacheSet loc =
     ucast (push_bit 16 (of_nat cacheSet :: 64 word) OR (of_nat loc AND 0xFFFF))"

definition decode_way :: "32 word \<Rightarrow> nat" where
  "decode_way encoded = unat (encoded AND 0xFFFF)"

definition decode_set :: "32 word \<Rightarrow> nat" where
  "decode_set encoded = unat (signed_drop_bit 16 encoded AND 0xFFFF)"

text \<open>
  Both look-ups return the way, and write the set of the match through their reference
  argument; here they return the position.
\<close>

definition findTagInSet ::
  "('d, 'g, 'e) cache_memory \<Rightarrow> Addr \<Rightarrow> (nat \<times> nat) option res" where
  "findTagInSet c tag =
     bindE (assert_line c tag) (\<lambda>_.
     case m_tag_index c tag of
       None \<Rightarrow> Inr None
     | Some encoded \<Rightarrow>
         let way = decode_way encoded; found_set = decode_set encoded in
         bindE (nth2E (m_cache c) found_set way) (\<lambda>p.
         Inr (case p of
                None \<Rightarrow> None
              | Some e \<Rightarrow>
                  if m_Address e = tag \<and> m_Permission e \<noteq> NotPresent
                  then Some (found_set, way) else None)))"

definition findTagInSetIgnorePermissions ::
  "('d, 'g, 'e) cache_memory \<Rightarrow> Addr \<Rightarrow> (nat \<times> nat) option res" where
  "findTagInSetIgnorePermissions c tag =
     bindE (assert_line c tag) (\<lambda>_.
     case m_tag_index c tag of
       None \<Rightarrow> Inr None
     | Some encoded \<Rightarrow>
         let way = decode_way encoded; found_set = decode_set encoded in
         bindE (nth2E (m_cache c) found_set way) (\<lambda>p.
         Inr (case p of
                None \<Rightarrow> None
              | Some e \<Rightarrow> if m_Address e = tag then Some (found_set, way) else None)))"

definition getAddressAtIdx :: "('d, 'g, 'e) cache_memory \<Rightarrow> nat \<Rightarrow> Addr res" where
  "getAddressAtIdx c idx =
     bindE (guardE (m_cache_assoc c \<noteq> 0) DivByZero) (\<lambda>_.
     let cset = idx div m_cache_assoc c in
     bindE (assertE (cset < m_cache_num_sets c) ''set < m_cache_num_sets'') (\<lambda>_.
     let way = idx - cset * m_cache_assoc c in
     bindE (assertE (way < m_cache_assoc c) ''way < m_cache_assoc'') (\<lambda>_.
     bindE (nth2E (m_cache c) cset way) (\<lambda>p.
     Inr (case p of
            None \<Rightarrow> 0
          | Some e \<Rightarrow>
              if m_Permission e = PermInvalid \<or> m_Permission e = NotPresent then 0
              else m_Address e)))))"

section \<open>Entries and replacement data in place\<close>

definition entry_at ::
  "('d, 'g, 'e) cache_memory \<Rightarrow> nat \<times> nat \<Rightarrow> 'e cache_entry_scheme res" where
  "entry_at c loc = bindE (nth2E (m_cache c) (fst loc) (snd loc)) derefE"

definition set_entry ::
  "nat \<times> nat \<Rightarrow> 'e cache_entry_scheme \<Rightarrow> ('d, 'g, 'e) cache_memory \<Rightarrow>
   ('d, 'g, 'e) cache_memory" where
  "set_entry loc e c = c\<lparr>m_cache := upd2 (m_cache c) (fst loc) (snd loc) (Some e)\<rparr>"

definition mod_entry ::
  "('e cache_entry_scheme \<Rightarrow> 'e cache_entry_scheme) \<Rightarrow> nat \<times> nat \<Rightarrow>
   ('d, 'g, 'e) cache_memory \<Rightarrow> ('d, 'g, 'e) cache_memory res" where
  "mod_entry f loc c = bindE (entry_at c loc) (\<lambda>e. Inr (set_entry loc (f e) c))"

text \<open>A call of a policy operation on the replacement data that an entry points to.\<close>

definition call_policy ::
  "('g \<Rightarrow> 'd \<Rightarrow> ('d \<times> 'g) res) \<Rightarrow> (nat \<times> nat) option \<Rightarrow> ('d, 'g, 'e) cache_memory \<Rightarrow>
   ('d, 'g, 'e) cache_memory res" where
  "call_policy f p c =
     bindE (derefE p) (\<lambda>(s, w).
     bindE (nth2E (replacement_data c) s w) (\<lambda>d.
     bindE (f (repl_state c) d) (\<lambda>(d', g').
     Inr (c\<lparr>replacement_data := upd2 (replacement_data c) s w d', repl_state := g'\<rparr>))))"

definition bump_zombies ::
  "'e cache_entry_scheme \<Rightarrow> ('d, 'g, 'e) cache_memory \<Rightarrow> ('d, 'g, 'e) cache_memory" where
  "bump_zombies e c =
     (if m_is_expired e
      then c\<lparr>cacheMemoryStats := (cacheMemoryStats c)
               \<lparr>m_zombies_collected := m_zombies_collected (cacheMemoryStats c) + 1\<rparr>\<rparr>
      else c)"

section \<open>Look-up\<close>

definition retention_passed :: "Tick \<Rightarrow> 'e cache_entry_scheme \<Rightarrow> bool" where
  "retention_passed now e \<longleftrightarrow> m_last_refresh_tick e + m_retention_limit e < now"

text \<open>The non-const \<^verbatim>\<open>lookup\<close>: it marks an entry whose retention time has passed.\<close>

definition expire_entry :: "Tick \<Rightarrow> 'e cache_entry_scheme \<Rightarrow> 'e cache_entry_scheme" where
  "expire_entry now e =
     (if \<not> m_is_expired e \<and> m_Permission e \<noteq> Busy \<and> m_Permission e \<noteq> Maybe_Stale \<and>
         retention_passed now e
      then e\<lparr>m_is_expired := True\<rparr> else e)"

definition cm_lookup ::
  "Tick \<Rightarrow> Addr \<Rightarrow> ('d, 'g, 'e) cache_memory \<Rightarrow>
   ((nat \<times> nat) option \<times> ('d, 'g, 'e) cache_memory) res" where
  "cm_lookup now addr c =
     bindE (addressToCacheSet c addr) (\<lambda>_.
     bindE (findTagInSet c addr) (\<lambda>p.
     case p of
       None \<Rightarrow> Inr (None, c)
     | Some loc \<Rightarrow>
         bindE (nth2E (m_cache c) (fst loc) (snd loc)) (\<lambda>q.
         case q of
           None \<Rightarrow> Inr (None, c)
         | Some e \<Rightarrow> Inr (Some loc, set_entry loc (expire_entry now e) c))))"

text \<open>The const \<^verbatim>\<open>lookup\<close>: both branches of its expiry test return the entry.\<close>

definition cm_lookup_const ::
  "Tick \<Rightarrow> Addr \<Rightarrow> ('d, 'g, 'e) cache_memory \<Rightarrow> (nat \<times> nat) option res" where
  "cm_lookup_const now addr c =
     bindE (assert_line c addr) (\<lambda>_.
     bindE (addressToCacheSet c addr) (\<lambda>_.
     bindE (findTagInSet c addr) (\<lambda>p.
     case p of
       None \<Rightarrow> Inr None
     | Some loc \<Rightarrow>
         bindE (nth2E (m_cache c) (fst loc) (snd loc)) (\<lambda>q.
         case q of
           None \<Rightarrow> Inr None
         | Some e \<Rightarrow>
             if 0 < m_retention_limit e \<and> retention_passed now e
             then Inr (Some loc) else Inr (Some loc)))))"

definition isTagPresent :: "Tick \<Rightarrow> Addr \<Rightarrow> ('d, 'g, 'e) cache_memory \<Rightarrow> bool res" where
  "isTagPresent now addr c =
     bindE (cm_lookup_const now addr c) (\<lambda>p. Inr (p \<noteq> None))"

text \<open>The common start of the two access tests: touch the entry and stamp it.\<close>

definition touch_entry ::
  "('d, 'g) repl_policy \<Rightarrow> Tick \<Rightarrow> nat \<times> nat \<Rightarrow> ('d, 'g, 'e) cache_memory \<Rightarrow>
   ('d, 'g, 'e) cache_memory res" where
  "touch_entry P now loc c =
     bindE (entry_at c loc) (\<lambda>e.
     bindE (call_policy (rp_touch P now) (replacementData e) c) (\<lambda>c1.
     mod_entry (entry_setLastAccess now) loc c1))"

text \<open>\<^verbatim>\<open>data_ptr\<close> is the position of the entry whose block it points to.\<close>

definition tryCacheAccess ::
  "('d, 'g) repl_policy \<Rightarrow> Tick \<Rightarrow> Addr \<Rightarrow> RubyRequestType \<Rightarrow> ('d, 'g, 'e) cache_memory \<Rightarrow>
   (bool \<times> (nat \<times> nat) option \<times> ('d, 'g, 'e) cache_memory) res" where
  "tryCacheAccess P now addr type c =
     bindE (cm_lookup now addr c) (\<lambda>(p, c1).
     case p of
       None \<Rightarrow> Inr (False, None, c1)
     | Some loc \<Rightarrow>
         bindE (touch_entry P now loc c1) (\<lambda>c2.
         bindE (entry_at c2 loc) (\<lambda>e.
         if m_Permission e = Read_Write then Inr (True, Some loc, c2)
         else if m_Permission e = Read_Only \<and> (type = LD \<or> type = IFETCH)
         then Inr (True, Some loc, c2)
         else Inr (False, None, c2))))"

definition testCacheAccess ::
  "('d, 'g) repl_policy \<Rightarrow> Tick \<Rightarrow> Addr \<Rightarrow> RubyRequestType \<Rightarrow> ('d, 'g, 'e) cache_memory \<Rightarrow>
   (bool \<times> (nat \<times> nat) option \<times> ('d, 'g, 'e) cache_memory) res" where
  "testCacheAccess P now addr type c =
     bindE (cm_lookup now addr c) (\<lambda>(p, c1).
     case p of
       None \<Rightarrow> Inr (False, None, c1)
     | Some loc \<Rightarrow>
         bindE (touch_entry P now loc c1) (\<lambda>c2.
         bindE (entry_at c2 loc) (\<lambda>e.
         Inr (m_Permission e \<noteq> NotPresent, Some loc, c2))))"

section \<open>Allocation and eviction\<close>

definition slot_free :: "'e cache_entry_scheme option \<Rightarrow> bool" where
  "slot_free p \<longleftrightarrow> (case p of None \<Rightarrow> True | Some e \<Rightarrow> m_Permission e = NotPresent)"

definition cacheAvail :: "Addr \<Rightarrow> ('d, 'g, 'e) cache_memory \<Rightarrow> bool res" where
  "cacheAvail addr c =
     bindE (addressToCacheSet c addr) (\<lambda>_.
     bindE (findTagInSetIgnorePermissions c addr) (\<lambda>p.
     if p \<noteq> None then Inr True
     else
       bindE (addressToCacheSet c addr) (\<lambda>cacheSet.
       bindE (nthE (m_cache c) cacheSet) (\<lambda>row.
       bindE (findE slot_free row (m_cache_assoc c)) (\<lambda>i.
       Inr (i \<noteq> None))))))"

definition zone_time :: "('d, 'g, 'e) cache_memory \<Rightarrow> nat \<Rightarrow> Tick res" where
  "zone_time c cacheSet =
     bindE (getRetentionZone c cacheSet) (\<lambda>z.
     bindE (nthE (m_retention_table c) z) (\<lambda>l. Inr (lt_time l)))"

text \<open>The cache line already holds the address.\<close>

definition allocate_reuse ::
  "('d, 'g) repl_policy \<Rightarrow> Tick \<Rightarrow> Addr \<Rightarrow> nat \<times> nat \<Rightarrow> ('d, 'g, 'e) cache_memory \<Rightarrow>
   ((nat \<times> nat) \<times> ('d, 'g, 'e) cache_memory) res" where
  "allocate_reuse P now addr loc c =
     bindE (entry_at c loc) (\<lambda>old.
     let c1 = bump_zombies old c in
     bindE (zone_time c1 (fst loc)) (\<lambda>limit.
     let old1 = entry_setLastAccess now
           (old\<lparr>m_is_expired := False, m_Permission := PermInvalid,
                m_retention_limit := limit\<rparr>);
         old2 = old1\<lparr>m_last_refresh_tick := now\<rparr>;
         c2 = set_entry loc old2 c1
     in
     bindE (call_policy (rp_reset P now) (replacementData old2) c2) (\<lambda>c3.
     Inr (loc, c3\<lparr>m_tag_index := (m_tag_index c3)(addr \<mapsto> encode_loc (fst loc) (snd loc))\<rparr>))))"

text \<open>The removal of the tag of an entry that is about to be overwritten.\<close>

definition erase_stale_tag ::
  "nat \<times> nat \<Rightarrow> 'e cache_entry_scheme \<Rightarrow> ('d, 'g, 'e) cache_memory \<Rightarrow>
   ('d, 'g, 'e) cache_memory" where
  "erase_stale_tag loc e c =
     (case m_tag_index c (m_Address e) of
        None \<Rightarrow> c
      | Some encoded \<Rightarrow>
          if decode_way encoded = snd loc \<and> decode_set encoded = fst loc
          then c\<lparr>m_tag_index := (m_tag_index c)(m_Address e := None)\<rparr> else c)"

text \<open>A free slot takes the new entry.\<close>

definition allocate_new ::
  "('d, 'g) repl_policy \<Rightarrow> Tick \<Rightarrow> Addr \<Rightarrow> 'e cache_entry_scheme \<Rightarrow> nat \<times> nat \<Rightarrow>
   ('d, 'g, 'e) cache_memory \<Rightarrow> ((nat \<times> nat) \<times> ('d, 'g, 'e) cache_memory) res" where
  "allocate_new P now addr entry loc c =
     bindE (nth2E (m_cache c) (fst loc) (snd loc)) (\<lambda>p.
     let c1 = (case p of None \<Rightarrow> c | Some old \<Rightarrow> erase_stale_tag loc old (bump_zombies old c)) in
     bindE (nth2E (replacement_data c1) (fst loc) (snd loc)) (\<lambda>_.
     let e1 = entry\<lparr>replacementData := Some loc, m_Address := addr, m_is_expired := False,
                    m_Permission := PermInvalid\<rparr>;
         c2 = c1\<lparr>m_tag_index := (m_tag_index c1)(addr \<mapsto> encode_loc (fst loc) (snd loc))\<rparr>
     in
     bindE (if \<not> m_is_sttram c2 then Inr 0 else zone_time c2 (fst loc)) (\<lambda>limit.
     let e2 = entry_setLastAccess now (e1\<lparr>m_retention_limit := limit\<rparr>);
         e3 = e2\<lparr>m_last_refresh_tick := now\<rparr>;
         c3 = set_entry loc e3 c2
     in
     bindE (call_policy (rp_reset P now) (replacementData e3) c3) (\<lambda>c4. Inr (loc, c4)))))"

definition allocate ::
  "('d, 'g) repl_policy \<Rightarrow> Tick \<Rightarrow> Addr \<Rightarrow> 'e cache_entry_scheme \<Rightarrow>
   ('d, 'g, 'e) cache_memory \<Rightarrow> ((nat \<times> nat) \<times> ('d, 'g, 'e) cache_memory) res" where
  "allocate P now addr entry c =
     bindE (addressToCacheSet c addr) (\<lambda>cacheSet.
     bindE (findTagInSetIgnorePermissions c addr) (\<lambda>p.
     case p of
       Some loc \<Rightarrow> allocate_reuse P now addr loc c
     | None \<Rightarrow>
         bindE (nthE (m_cache c) cacheSet) (\<lambda>row.
         bindE (findE slot_free row (m_cache_assoc c)) (\<lambda>i.
         case i of
           Some w \<Rightarrow> allocate_new P now addr entry (cacheSet, w) c
         | None \<Rightarrow> Inl (Panic ''Set is full. No expired or invalid blocks to evict.'')))))"

definition deallocate ::
  "('d, 'g) repl_policy \<Rightarrow> Tick \<Rightarrow> Addr \<Rightarrow> ('d, 'g, 'e) cache_memory \<Rightarrow>
   ('d, 'g, 'e) cache_memory res" where
  "deallocate P now addr c =
     bindE (addressToCacheSet c addr) (\<lambda>_.
     bindE (findTagInSetIgnorePermissions c addr) (\<lambda>p.
     case p of
       None \<Rightarrow> Inr c
     | Some loc \<Rightarrow>
         bindE (entry_at c loc) (\<lambda>e.
         let c1 = bump_zombies e c in
         bindE (call_policy (rp_invalidate P now) (replacementData e) c1) (\<lambda>c2.
         let c3 = set_entry loc (e\<lparr>m_Permission := NotPresent\<rparr>) c2 in
         Inr (c3\<lparr>m_tag_index := (m_tag_index c3)(addr := None)\<rparr>)))))"

section \<open>Choice of a victim\<close>

definition expired_idle :: "'e cache_entry_scheme option \<Rightarrow> bool" where
  "expired_idle p \<longleftrightarrow>
     (case p of None \<Rightarrow> False | Some e \<Rightarrow> m_is_expired e \<and> m_Permission e \<noteq> Busy)"

text \<open>
  The policy dereferences the candidates, so a null candidate is a fault.  What it writes to
  the replacement data of the candidates is written back in place.
\<close>

definition candidate_loc :: "'e cache_entry_scheme option \<Rightarrow> (nat \<times> nat) res" where
  "candidate_loc p = bindE (derefE p) (\<lambda>e. derefE (replacementData e))"

fun write_back :: "(nat \<times> nat) list \<Rightarrow> 'd list \<Rightarrow> 'd list list \<Rightarrow> 'd list list" where
  "write_back (l # ls) (d # ds) rd = write_back ls ds (upd2 rd (fst l) (snd l) d)"
| "write_back _ _ rd = rd"

definition policy_victim ::
  "('d, 'g) repl_policy \<Rightarrow> 'e cache_entry_scheme option list \<Rightarrow> ('d, 'g, 'e) cache_memory \<Rightarrow>
   (nat \<times> ('d, 'g, 'e) cache_memory) res" where
  "policy_victim P candidates c =
     bindE (mapE candidate_loc candidates) (\<lambda>locs.
     bindE (mapE (\<lambda>(s, w). nth2E (replacement_data c) s w) locs) (\<lambda>ds.
     bindE (rp_getVictim P (repl_state c) ds) (\<lambda>(v, ds', g').
     Inr (v, c\<lparr>replacement_data := write_back locs ds' (replacement_data c),
                repl_state := g'\<rparr>))))"

text \<open>The loop over the ways for the oldest block that is not busy.\<close>

fun oldest_idle ::
  "'e cache_entry_scheme option list \<Rightarrow> nat \<Rightarrow> Tick \<Rightarrow> nat option \<Rightarrow> nat option" where
  "oldest_idle [] i oldest_tick safe_way = safe_way"
| "oldest_idle (p # ps) i oldest_tick safe_way =
     (case p of
        None \<Rightarrow> oldest_idle ps (i + 1) oldest_tick safe_way
      | Some e \<Rightarrow>
          if m_Permission e \<noteq> Busy \<and> m_last_touch_tick e < oldest_tick
          then oldest_idle ps (i + 1) (m_last_touch_tick e) (Some i)
          else oldest_idle ps (i + 1) oldest_tick safe_way)"

definition address_in_row :: "'e cache_entry_scheme option list \<Rightarrow> nat \<Rightarrow> Addr res" where
  "address_in_row row i = bindE (nthE row i) (\<lambda>p. bindE (derefE p) (\<lambda>e. Inr (m_Address e)))"

definition cacheProbe ::
  "('d, 'g) repl_policy \<Rightarrow> Tick \<Rightarrow> Addr \<Rightarrow> ('d, 'g, 'e) cache_memory \<Rightarrow>
   (Addr \<times> ('d, 'g, 'e) cache_memory) res" where
  "cacheProbe P now addr c =
     bindE (assert_line c addr) (\<lambda>_.
     bindE (cacheAvail addr c) (\<lambda>avail.
     bindE (assertE (\<not> avail) ''!cacheAvail(address)'') (\<lambda>_.
     bindE (addressToCacheSet c addr) (\<lambda>cacheSet.
     bindE (nthE (m_cache c) cacheSet) (\<lambda>row.
     bindE (findE expired_idle row (m_cache_assoc c)) (\<lambda>x.
     case x of
       Some i \<Rightarrow> bindE (address_in_row row i) (\<lambda>a. Inr (a, c))
     | None \<Rightarrow>
         bindE (policy_victim P (take (m_cache_assoc c) row) c) (\<lambda>(v, c1).
         let victim_way =
               (case find_idx (\<lambda>i. i = v) (m_cache_assoc c) of None \<Rightarrow> 0 | Some i \<Rightarrow> i)
         in
         bindE (nthE row victim_way) (\<lambda>p.
         bindE (derefE p) (\<lambda>e.
         if m_Permission e = Busy then
           (case oldest_idle (take (m_cache_assoc c) row) 0 (now + 1) None of
              None \<Rightarrow> bindE (address_in_row row 0) (\<lambda>a. Inr (a, c1))
            | Some safe_way \<Rightarrow> bindE (address_in_row row safe_way) (\<lambda>a. Inr (a, c1)))
         else Inr (m_Address e, c1))))))))))"

section \<open>Recency, locks and contents\<close>

definition setMRU_entry ::
  "('d, 'g) repl_policy \<Rightarrow> Tick \<Rightarrow> (nat \<times> nat) option \<Rightarrow> ('d, 'g, 'e) cache_memory \<Rightarrow>
   ('d, 'g, 'e) cache_memory res" where
  "setMRU_entry P now p c =
     bindE (assertE (p \<noteq> None) ''entry != nullptr'') (\<lambda>_.
     bindE (derefE p) (\<lambda>loc. touch_entry P now loc c))"

definition setMRU ::
  "('d, 'g) repl_policy \<Rightarrow> Tick \<Rightarrow> Addr \<Rightarrow> ('d, 'g, 'e) cache_memory \<Rightarrow>
   ('d, 'g, 'e) cache_memory res" where
  "setMRU P now addr c =
     bindE (cm_makeLineAddress c addr) (\<lambda>line.
     bindE (cm_lookup now line c) (\<lambda>(p, c1).
     case p of None \<Rightarrow> Inr c1 | Some loc \<Rightarrow> touch_entry P now loc c1))"

definition setMRU_occ ::
  "('d, 'g) repl_policy \<Rightarrow> Tick \<Rightarrow> Addr \<Rightarrow> int \<Rightarrow> ('d, 'g, 'e) cache_memory \<Rightarrow>
   ('d, 'g, 'e) cache_memory res" where
  "setMRU_occ P now addr occupancy c =
     bindE (cm_makeLineAddress c addr) (\<lambda>line.
     bindE (cm_lookup now line c) (\<lambda>(p, c1).
     case p of
       None \<Rightarrow> Inr c1
     | Some loc \<Rightarrow>
         bindE (entry_at c1 loc) (\<lambda>e.
         bindE (call_policy
                  (if m_use_occupancy c1 then rp_touch_occ P now occupancy else rp_touch P now)
                  (replacementData e) c1) (\<lambda>c2.
         mod_entry (entry_setLastAccess now) loc c2))))"

definition getReplacementWeight ::
  "('d, 'g, 'e) cache_memory \<Rightarrow> nat \<Rightarrow> nat \<Rightarrow> int res" where
  "getReplacementWeight c cset loc =
     bindE (assertE (cset < m_cache_num_sets c) ''set < m_cache_num_sets'') (\<lambda>_.
     bindE (assertE (loc < m_cache_assoc c) ''loc < m_cache_assoc'') (\<lambda>_.
     bindE (nth2E (m_cache c) cset loc) (\<lambda>p.
     case p of
       None \<Rightarrow> Inr 0
     | Some e \<Rightarrow>
         bindE (assertE (0 \<le> validBlocks e) ''ret >= 0'') (\<lambda>_. Inr (validBlocks e)))))"

text \<open>
  One record of the checkpoint trace: address, program counter 0, request type, time, and the
  data block, which the virtual \<^verbatim>\<open>getDataBlk\<close> reads from the subclass members.
\<close>

definition trace_request :: "bool \<Rightarrow> AccessPermission \<Rightarrow> RubyRequestType" where
  "trace_request icache perm =
     (if perm = Read_Only then (if icache then IFETCH else LD)
      else if perm = Read_Write then ST else NULL)"

definition trace_entry ::
  "('e \<Rightarrow> 'b) \<Rightarrow> bool \<Rightarrow> 'e cache_entry_scheme option \<Rightarrow>
   (Addr \<times> RubyRequestType \<times> Tick \<times> 'b) list" where
  "trace_entry getDataBlk icache p =
     (case p of
        None \<Rightarrow> []
      | Some e \<Rightarrow>
          let request_type = trace_request icache (m_Permission e) in
          if request_type \<noteq> NULL
          then [(m_Address e, request_type, m_last_touch_tick e,
                 getDataBlk (cache_entry.more e))]
          else [])"

definition recordCacheContents ::
  "('e \<Rightarrow> 'b) \<Rightarrow> ('d, 'g, 'e) cache_memory \<Rightarrow> (Addr \<times> RubyRequestType \<times> Tick \<times> 'b) list" where
  "recordCacheContents getDataBlk c =
     concat (map (\<lambda>row. concat (map (trace_entry getDataBlk (m_is_instruction_only_cache c)) row))
       (m_cache c))"

definition cm_setLocked ::
  "Tick \<Rightarrow> Addr \<Rightarrow> int \<Rightarrow> ('d, 'g, 'e) cache_memory \<Rightarrow> ('d, 'g, 'e) cache_memory res" where
  "cm_setLocked now addr ctx c =
     bindE (cm_lookup now addr c) (\<lambda>(p, c1).
     bindE (assertE (p \<noteq> None) ''entry != nullptr'') (\<lambda>_.
     bindE (derefE p) (\<lambda>loc. mod_entry (entry_setLocked ctx) loc c1)))"

definition cm_clearLocked ::
  "Tick \<Rightarrow> Addr \<Rightarrow> ('d, 'g, 'e) cache_memory \<Rightarrow> ('d, 'g, 'e) cache_memory res" where
  "cm_clearLocked now addr c =
     bindE (cm_lookup now addr c) (\<lambda>(p, c1).
     bindE (assertE (p \<noteq> None) ''entry != nullptr'') (\<lambda>_.
     bindE (derefE p) (\<lambda>loc. mod_entry entry_clearLocked loc c1)))"

definition cm_isLocked ::
  "Tick \<Rightarrow> Addr \<Rightarrow> int \<Rightarrow> ('d, 'g, 'e) cache_memory \<Rightarrow>
   (bool \<times> ('d, 'g, 'e) cache_memory) res" where
  "cm_isLocked now addr ctx c =
     bindE (cm_lookup now addr c) (\<lambda>(p, c1).
     bindE (assertE (p \<noteq> None) ''entry != nullptr'') (\<lambda>_.
     bindE (derefE p) (\<lambda>loc.
     bindE (entry_at c1 loc) (\<lambda>e. Inr (entry_isLocked ctx e, c1)))))"

definition map_entries ::
  "('e cache_entry_scheme \<Rightarrow> 'e cache_entry_scheme) \<Rightarrow> ('d, 'g, 'e) cache_memory \<Rightarrow>
   ('d, 'g, 'e) cache_memory" where
  "map_entries f c = c\<lparr>m_cache := map (map (map_option f)) (m_cache c)\<rparr>"

definition clearLockedAll ::
  "int \<Rightarrow> ('d, 'g, 'e) cache_memory \<Rightarrow> ('d, 'g, 'e) cache_memory" where
  "clearLockedAll ctx c =
     map_entries (\<lambda>e. if entry_isLocked ctx e then entry_clearLocked e else e) c"

definition isBlockInvalid :: "('d, 'g, 'e) cache_memory \<Rightarrow> nat \<Rightarrow> nat \<Rightarrow> bool res" where
  "isBlockInvalid c cset loc =
     bindE (entry_at c (cset, loc)) (\<lambda>e. Inr (m_Permission e = PermInvalid))"

definition isBlockNotBusy :: "('d, 'g, 'e) cache_memory \<Rightarrow> nat \<Rightarrow> nat \<Rightarrow> bool res" where
  "isBlockNotBusy c cset loc =
     bindE (entry_at c (cset, loc)) (\<lambda>e. Inr (m_Permission e \<noteq> Busy))"

section \<open>Latencies and resources\<close>

definition basic_latency :: "latency_type \<Rightarrow> CacheRequestType \<Rightarrow> Cycles" where
  "basic_latency l requestType =
     (case requestType of
        DataArrayRead \<Rightarrow> read_latency (lt_data l)
      | DataArrayWrite \<Rightarrow> write_latency (lt_data l)
      | TagArrayRead \<Rightarrow> read_latency (lt_tag l)
      | TagArrayWrite \<Rightarrow> write_latency (lt_tag l)
      | _ \<Rightarrow> 1)"

text \<open>
  The zone is never the sentinel -1 that the code also tests for.  \<^verbatim>\<open>ticksToCycles\<close> rounds up
  to the clock of the Ruby system.
\<close>

definition getRetentionLatency ::
  "Tick \<Rightarrow> CacheRequestType \<Rightarrow> Addr \<Rightarrow> ('d, 'g, 'e) cache_memory \<Rightarrow>
   (Cycles \<times> ('d, 'g, 'e) cache_memory) res" where
  "getRetentionLatency now requestType addr c =
     bindE (addressToCacheSet c addr) (\<lambda>cacheSet.
     bindE (getRetentionZone c cacheSet) (\<lambda>z.
     bindE (if requestType \<in> {DataArrayRead, DataArrayWrite, TagArrayRead, TagArrayWrite}
            then bindE (nthE (m_retention_table c) z) (\<lambda>l. Inr (basic_latency l requestType))
            else Inr 1) (\<lambda>basic.
     bindE (getBankEndTime cacheSet
              (if requestType \<in> {DataArrayRead, DataArrayWrite}
               then dataArray c else tagArray c)) (\<lambda>bankFreeTick.
     if now < bankFreeTick then
       bindE (divCeil (bankFreeTick - now) (ruby_clockPeriod c)) (\<lambda>cyc.
       Inr (cyc, c\<lparr>cacheMemoryStats := (cacheMemoryStats c)
              \<lparr>m_data_array_stalls := m_data_array_stalls (cacheMemoryStats c) + 1\<rparr>\<rparr>))
     else Inr (basic, c)))))"

definition upd_stats ::
  "(cache_stats \<Rightarrow> cache_stats) \<Rightarrow> ('d, 'g, 'e) cache_memory \<Rightarrow> ('d, 'g, 'e) cache_memory" where
  "upd_stats f c = c\<lparr>cacheMemoryStats := f (cacheMemoryStats c)\<rparr>"

definition incE :: "nat list \<Rightarrow> nat \<Rightarrow> nat list res" where
  "incE xs i = bindE (nthE xs i) (\<lambda>x. updE xs i (x + 1))"

text \<open>The counters of a chunk of four sets, in the cache and in the statistics.\<close>

definition bump_chunk_reads ::
  "nat \<Rightarrow> ('d, 'g, 'e) cache_memory \<Rightarrow> ('d, 'g, 'e) cache_memory res" where
  "bump_chunk_reads chunkID c =
     bindE (nthE (m_chunk c) chunkID) (\<lambda>ch.
     let c1 = c\<lparr>m_chunk := (m_chunk c)[chunkID := ch\<lparr>reads := reads ch + 1\<rparr>]\<rparr> in
     bindE (incE (m_chunk_reads (cacheMemoryStats c1)) chunkID) (\<lambda>v.
     Inr (upd_stats (\<lambda>s. s\<lparr>m_chunk_reads := v\<rparr>) c1)))"

definition bump_chunk_writes ::
  "nat \<Rightarrow> ('d, 'g, 'e) cache_memory \<Rightarrow> ('d, 'g, 'e) cache_memory res" where
  "bump_chunk_writes chunkID c =
     bindE (nthE (m_chunk c) chunkID) (\<lambda>ch.
     let c1 = c\<lparr>m_chunk := (m_chunk c)[chunkID := ch\<lparr>writes := writes ch + 1\<rparr>]\<rparr> in
     bindE (incE (m_chunk_writes (cacheMemoryStats c1)) chunkID) (\<lambda>v.
     Inr (upd_stats (\<lambda>s. s\<lparr>m_chunk_writes := v\<rparr>) c1)))"

definition reserve_data ::
  "Tick \<Rightarrow> Addr \<Rightarrow> nat \<Rightarrow> CacheRequestType \<Rightarrow> ('d, 'g, 'e) cache_memory \<Rightarrow>
   ('d, 'g, 'e) cache_memory res" where
  "reserve_data now addr zone requestType c =
     (if m_resource_stalls c then
        bindE (nthE (m_retention_table c) zone) (\<lambda>l.
        bindE (addressToCacheSet c addr) (\<lambda>cset.
        bindE (ba_reserve now cset (basic_latency l requestType) (dataArray c)) (\<lambda>a.
        Inr (c\<lparr>dataArray := a\<rparr>))))
      else Inr c)"

definition reserve_tag ::
  "Tick \<Rightarrow> Addr \<Rightarrow> nat \<Rightarrow> CacheRequestType \<Rightarrow> ('d, 'g, 'e) cache_memory \<Rightarrow>
   ('d, 'g, 'e) cache_memory res" where
  "reserve_tag now addr zone requestType c =
     (if m_resource_stalls c then
        bindE (nthE (m_retention_table c) zone) (\<lambda>l.
        bindE (addressToCacheSet c addr) (\<lambda>cset.
        bindE (ba_reserve now cset (basic_latency l requestType) (tagArray c)) (\<lambda>a.
        Inr (c\<lparr>tagArray := a\<rparr>))))
      else Inr c)"

text \<open>
  The write counter of a page: a 4-bit counter that, once saturated, redirects the page.  A
  page that is already redirected keeps its counter.
\<close>

definition count_write ::
  "Addr \<Rightarrow> ('d, 'g, 'e) cache_memory \<Rightarrow> ('d, 'g, 'e) cache_memory res" where
  "count_write addr c =
     (if m_lazy_redirection_scheme c then
        bindE (case m_chunk_counters c (chunk_ID addr) of
                 Some cnt \<Rightarrow> Inr cnt | None \<Rightarrow> sc_new 4 0) (\<lambda>cnt.
        let c1 = c\<lparr>m_chunk_counters := (m_chunk_counters c)(chunk_ID addr \<mapsto> cnt)\<rparr> in
        case m_chunk_redirection_table c1 (chunk_ID addr) of
          Some _ \<Rightarrow> Inr c1
        | None \<Rightarrow>
            let cnt' = snd (sc_post_inc cnt);
                c2 = c1\<lparr>m_chunk_counters := (m_chunk_counters c1)(chunk_ID addr \<mapsto> cnt')\<rparr>
            in
            if sc_isSaturated cnt' then
              bindE (nthE (m_thresholds c2) 0) (\<lambda>zone_size.
              bindE (guardE (zone_size \<noteq> 0) DivByZero) (\<lambda>_.
              let off = unat (chunk_ID addr) mod zone_size in
              Inr (upd_stats (\<lambda>s. s\<lparr>m_inter_zone_jumps := m_inter_zone_jumps s + 1\<rparr>)
                (c2\<lparr>m_chunk_redirection_table :=
                     (m_chunk_redirection_table c2)(chunk_ID addr \<mapsto> off)\<rparr>))))
            else Inr c2)
      else Inr c)"

text \<open>A write restores the magnetic state of the cell: the retention time starts again.\<close>

definition refresh_entry ::
  "Tick \<Rightarrow> Tick \<Rightarrow> 'e cache_entry_scheme \<Rightarrow> 'e cache_entry_scheme" where
  "refresh_entry now limit e =
     e\<lparr>m_last_refresh_tick := now, m_is_expired := False, m_retention_limit := limit\<rparr>"

definition revive_entry :: "'e cache_entry_scheme \<Rightarrow> 'e cache_entry_scheme" where
  "revive_entry e = (if m_Permission e = NotPresent then e\<lparr>m_Permission := PermInvalid\<rparr> else e)"

definition on_entry ::
  "(nat \<times> nat) option \<Rightarrow> (nat \<times> nat \<Rightarrow> ('d, 'g, 'e) cache_memory \<Rightarrow> ('d, 'g, 'e) cache_memory res)
   \<Rightarrow> ('d, 'g, 'e) cache_memory \<Rightarrow> ('d, 'g, 'e) cache_memory res" where
  "on_entry p f c = (case p of None \<Rightarrow> Inr c | Some loc \<Rightarrow> f loc c)"

definition count_walk ::
  "Addr \<Rightarrow> ('d, 'g, 'e) cache_memory \<Rightarrow> ('d, 'g, 'e) cache_memory" where
  "count_walk addr c =
     (case m_chunk_counters c (chunk_ID addr) of
        None \<Rightarrow> c
      | Some cnt \<Rightarrow>
          if 0 < sc_value cnt div 2
          then upd_stats (\<lambda>s. s\<lparr>m_intra_zone_walks := m_intra_zone_walks s + 1\<rparr>) c
          else c)"

text \<open>
  \<^verbatim>\<open>recordRequestType\<close>.  The zone \<open>zone\<close> and the chunk are those of the set the address maps to
  now; \<open>p\<close> is where the block is, which may be another set.
\<close>

definition record_preamble ::
  "Tick \<Rightarrow> Addr \<Rightarrow> ('d, 'g, 'e) cache_memory \<Rightarrow>
   (nat \<times> nat \<times> (nat \<times> nat) option \<times> ('d, 'g, 'e) cache_memory) res" where
  "record_preamble now addr c =
     bindE (addressToCacheSet c addr) (\<lambda>cacheSet.
     bindE (incE (m_accesses_per_set (cacheMemoryStats c)) cacheSet) (\<lambda>v.
     let c1 = upd_stats (\<lambda>s. s\<lparr>m_accesses_per_set := v\<rparr>) c;
         c2 = count_walk addr c1
     in
     bindE (getRetentionZone c2 cacheSet) (\<lambda>zone.
     bindE (findTagInSetIgnorePermissions c2 addr) (\<lambda>p.
     bindE (on_entry p (mod_entry (entry_setLastAccess now)) c2) (\<lambda>c3.
     Inr (zone, getChunkId cacheSet, p, c3))))))"

definition record_data_read ::
  "Tick \<Rightarrow> Addr \<Rightarrow> nat \<Rightarrow> nat \<Rightarrow> ('d, 'g, 'e) cache_memory \<Rightarrow> ('d, 'g, 'e) cache_memory res" where
  "record_data_read now addr zone chunkID c =
     bindE (reserve_data now addr zone DataArrayRead c) (\<lambda>c1.
     bump_chunk_reads chunkID
       (upd_stats (\<lambda>s. s\<lparr>numDataArrayReads := numDataArrayReads s + 1\<rparr>) c1))"

definition record_data_write ::
  "Tick \<Rightarrow> Addr \<Rightarrow> nat \<Rightarrow> nat \<Rightarrow> (nat \<times> nat) option \<Rightarrow> ('d, 'g, 'e) cache_memory \<Rightarrow>
   ('d, 'g, 'e) cache_memory res" where
  "record_data_write now addr zone chunkID p c =
     bindE (on_entry p (\<lambda>loc c0.
              bindE (nthE (m_retention_table c0) zone) (\<lambda>l.
              bindE (mod_entry (refresh_entry now (lt_time l)) loc c0) (count_write addr))) c)
       (\<lambda>c1.
     bindE (reserve_data now addr zone DataArrayWrite c1) (\<lambda>c2.
     bump_chunk_writes chunkID
       (upd_stats (\<lambda>s. s\<lparr>numDataArrayWrites := numDataArrayWrites s + 1\<rparr>) c2)))"

definition record_tag_read ::
  "Tick \<Rightarrow> Addr \<Rightarrow> nat \<Rightarrow> nat \<Rightarrow> ('d, 'g, 'e) cache_memory \<Rightarrow> ('d, 'g, 'e) cache_memory res" where
  "record_tag_read now addr zone chunkID c =
     bindE (reserve_tag now addr zone TagArrayRead c) (\<lambda>c1.
     bump_chunk_reads chunkID
       (upd_stats (\<lambda>s. s\<lparr>numTagArrayReads := numTagArrayReads s + 1\<rparr>) c1))"

definition record_tag_write ::
  "Tick \<Rightarrow> Addr \<Rightarrow> nat \<Rightarrow> nat \<Rightarrow> (nat \<times> nat) option \<Rightarrow> ('d, 'g, 'e) cache_memory \<Rightarrow>
   ('d, 'g, 'e) cache_memory res" where
  "record_tag_write now addr zone chunkID p c =
     bindE (on_entry p (\<lambda>loc c0.
              bindE (zone_time c0 (fst loc)) (\<lambda>limit.
              mod_entry (\<lambda>e. revive_entry (refresh_entry now limit e)) loc c0)) c) (\<lambda>c1.
     bindE (reserve_tag now addr zone TagArrayWrite c1) (\<lambda>c2.
     bump_chunk_writes chunkID
       (upd_stats (\<lambda>s. s\<lparr>numTagArrayWrites := numTagArrayWrites s + 1\<rparr>) c2)))"

definition record_alu ::
  "Tick \<Rightarrow> Addr \<Rightarrow> ('d, 'g, 'e) cache_memory \<Rightarrow> ('d, 'g, 'e) cache_memory res" where
  "record_alu now addr c =
     bindE (if m_resource_stalls c then
              bindE (alu_reserve now addr (atomicALUArray c)) (\<lambda>a.
              Inr (c\<lparr>atomicALUArray := a\<rparr>))
            else Inr c) (\<lambda>c1.
     Inr (upd_stats (\<lambda>s. s\<lparr>numAtomicALUOperations := numAtomicALUOperations s + 1\<rparr>) c1))"

definition recordRequestType ::
  "Tick \<Rightarrow> CacheRequestType \<Rightarrow> Addr \<Rightarrow> ('d, 'g, 'e) cache_memory \<Rightarrow>
   ('d, 'g, 'e) cache_memory res" where
  "recordRequestType now requestType addr c =
     bindE (record_preamble now addr c) (\<lambda>(zone, chunkID, p, c1).
     case requestType of
       DataArrayRead \<Rightarrow> record_data_read now addr zone chunkID c1
     | DataArrayWrite \<Rightarrow> record_data_write now addr zone chunkID p c1
     | TagArrayRead \<Rightarrow> record_tag_read now addr zone chunkID c1
     | TagArrayWrite \<Rightarrow> record_tag_write now addr zone chunkID p c1
     | AtomicALUOperation \<Rightarrow> record_alu now addr c1
     | CacheRequestType_NUM \<Rightarrow> Inr c1)"

definition checkResourceAvailable ::
  "Tick \<Rightarrow> CacheResourceType \<Rightarrow> Addr \<Rightarrow> ('d, 'g, 'e) cache_memory \<Rightarrow>
   (bool \<times> ('d, 'g, 'e) cache_memory) res" where
  "checkResourceAvailable now rsrc addr c =
     (if \<not> m_resource_stalls c then Inr (True, c)
      else case rsrc of
        TagArray \<Rightarrow>
          bindE (addressToCacheSet c addr) (\<lambda>cset.
          bindE (ba_tryAccess now cset (tagArray c)) (\<lambda>ok.
          if ok then Inr (True, c)
          else Inr (False,
            upd_stats (\<lambda>s. s\<lparr>numTagArrayStalls := numTagArrayStalls s + 1\<rparr>) c)))
      | DataArray \<Rightarrow>
          bindE (addressToCacheSet c addr) (\<lambda>cset.
          bindE (ba_tryAccess now cset (dataArray c)) (\<lambda>ok.
          if ok then Inr (True, c)
          else Inr (False,
            upd_stats (\<lambda>s. s\<lparr>numDataArrayStalls := numDataArrayStalls s + 1\<rparr>) c)))
      | AtomicALUArray \<Rightarrow>
          bindE (alu_tryAccess now addr (atomicALUArray c)) (\<lambda>(ok, a).
          let c1 = c\<lparr>atomicALUArray := a\<rparr> in
          if ok then Inr (True, c1)
          else Inr (False,
            upd_stats (\<lambda>s. s\<lparr>numAtomicALUArrayStalls := numAtomicALUArrayStalls s + 1\<rparr>) c1))
      | CacheResourceType_NUM \<Rightarrow> Inl (Panic ''Unrecognized cache resource type.''))"

section \<open>Hardware transactional memory\<close>

definition count_entries ::
  "('e cache_entry_scheme \<Rightarrow> bool) \<Rightarrow> ('d, 'g, 'e) cache_memory \<Rightarrow> nat" where
  "count_entries Q c =
     sum_list (map (\<lambda>row. length (filter (\<lambda>p. case p of None \<Rightarrow> False | Some e \<Rightarrow> Q e) row))
       (m_cache c))"

definition htm_clear :: "'e cache_entry_scheme \<Rightarrow> 'e cache_entry_scheme" where
  "htm_clear e =
     entry_clearLocked (entry_setInHtmReadSet False (entry_setInHtmWriteSet False e))"

text \<open>The virtual \<^verbatim>\<open>invalidateEntry\<close> acts on the subclass members.\<close>

definition htmAbortTransaction ::
  "('e \<Rightarrow> 'e) \<Rightarrow> ('d, 'g, 'e) cache_memory \<Rightarrow> ('d, 'g, 'e) cache_memory" where
  "htmAbortTransaction invalidateEntry c =
     (let htmReadSetSize = count_entries m_htmInReadSet c;
          htmWriteSetSize = count_entries m_htmInWriteSet c;
          c1 = map_entries (\<lambda>e. htm_clear
                 (if m_htmInWriteSet e then cache_entry.more_update invalidateEntry e else e)) c
      in upd_stats (\<lambda>s. s
           \<lparr>htmTransAbortReadSet := htmTransAbortReadSet s @ [htmReadSetSize],
            htmTransAbortWriteSet := htmTransAbortWriteSet s @ [htmWriteSetSize]\<rparr>) c1)"

definition htmCommitTransaction ::
  "('d, 'g, 'e) cache_memory \<Rightarrow> ('d, 'g, 'e) cache_memory" where
  "htmCommitTransaction c =
     (let htmReadSetSize = count_entries m_htmInReadSet c;
          htmWriteSetSize = count_entries m_htmInWriteSet c;
          c1 = map_entries htm_clear c
      in upd_stats (\<lambda>s. s
           \<lparr>htmTransCommitReadSet := htmTransCommitReadSet s @ [htmReadSetSize],
            htmTransCommitWriteSet := htmTransCommitWriteSet s @ [htmWriteSetSize]\<rparr>) c1)"

section \<open>Profiling\<close>

definition profileDemandHit :: "('d, 'g, 'e) cache_memory \<Rightarrow> ('d, 'g, 'e) cache_memory" where
  "profileDemandHit = upd_stats (\<lambda>s. s\<lparr>m_demand_hits := m_demand_hits s + 1\<rparr>)"

definition profileDemandMiss :: "('d, 'g, 'e) cache_memory \<Rightarrow> ('d, 'g, 'e) cache_memory" where
  "profileDemandMiss = upd_stats (\<lambda>s. s\<lparr>m_demand_misses := m_demand_misses s + 1\<rparr>)"

definition profilePrefetchHit :: "('d, 'g, 'e) cache_memory \<Rightarrow> ('d, 'g, 'e) cache_memory" where
  "profilePrefetchHit = upd_stats (\<lambda>s. s\<lparr>m_prefetch_hits := m_prefetch_hits s + 1\<rparr>)"

definition profilePrefetchMiss :: "('d, 'g, 'e) cache_memory \<Rightarrow> ('d, 'g, 'e) cache_memory" where
  "profilePrefetchMiss = upd_stats (\<lambda>s. s\<lparr>m_prefetch_misses := m_prefetch_misses s + 1\<rparr>)"

end
