(* ===== verification/Cache_Index.thy ===== *)
theory Cache_Index
  imports Cache_Memory
begin

text \<open>
  Where a block goes: the map from addresses to sets, the retention zones, and the packed
  positions of the tag index.  \<open>cm_config\<close> is what \<^verbatim>\<open>init\<close> establishes of the configuration
  (for caches of at least four sets and at most 65536 sets and ways); everything here is
  relative to it.
\<close>

section \<open>Packed positions\<close>

lemma and_ffff: "(w :: 'a :: len word) AND 0xFFFF = take_bit 16 w"
  by (simp add: take_bit_eq_mask mask_numeral)

lemma decode_way_unat: "decode_way e = unat e mod 2 ^ 16"
  by (simp add: decode_way_def and_ffff unat_low_bits)

lemma decode_set_unat: "decode_set e = unat e div 2 ^ 16"
proof -
  have "take_bit 16 (signed_drop_bit 16 e) = drop_bit 16 e"
  proof (rule bit_word_eqI)
    fix n assume "n < LENGTH(32)"
    have "\<not> bit e (16 + n)" if "16 \<le> n"
      using bit_imp_le_length [of e "16 + n"] that by auto
    then show "bit (take_bit 16 (signed_drop_bit 16 e)) n = bit (drop_bit 16 e) n"
      by (auto simp: bit_take_bit_iff bit_signed_drop_bit_iff bit_drop_bit_eq)
  qed
  then show ?thesis by (simp only: decode_set_def and_ffff unat_shiftr)
qed

lemma encode_unat:
  assumes "s < 2 ^ 16" and "w < 2 ^ 16"
  shows "unat (encode_loc s w) = s * 2 ^ 16 + w"
proof -
  have w: "take_bit 16 (of_nat w :: 64 word) = of_nat w"
    using assms(2) by (simp add: word_unat_eq_iff unat_low_bits unat_of_nat64)
  have d: "push_bit 16 (of_nat s :: 64 word) AND of_nat w = 0"
    by (rule bit_word_eqI)
      (metis bit_0_eq bit_and_iff bit_push_bit_iff bit_take_bit_iff bot_apply bot_bool_def
        linorder_not_le w)
  have "push_bit 16 (of_nat s :: 64 word) OR of_nat w = push_bit 16 (of_nat s) + of_nat w"
    using disjunctive_add_eq_or [OF d] by simp
  then have "push_bit 16 (of_nat s :: 64 word) OR of_nat w = of_nat (s * 2 ^ 16 + w)"
    by (simp add: push_bit_eq_mult)
  then have e: "encode_loc s w = ucast (of_nat (s * 2 ^ 16 + w) :: 64 word)"
    unfolding encode_loc_def and_ffff w by simp
  have b: "s * 2 ^ 16 + w < 2 ^ 32" using assms by simp
  then have "unat (of_nat (s * 2 ^ 16 + w) :: 64 word) = s * 2 ^ 16 + w"
    by (intro unat_of_nat64) simp
  then show ?thesis using b unfolding e
    by (simp only: unsigned_ucast_eq) (simp add: take_bit_nat_eq_self)
qed

lemma decode_encode:
  assumes "s < 2 ^ 16" and "w < 2 ^ 16"
  shows "decode_set (encode_loc s w) = s" and "decode_way (encode_loc s w) = w"
  using assms by (simp_all add: decode_set_unat decode_way_unat encode_unat)

lemma encode_decode: "encode_loc (decode_set e) (decode_way e) = e"
proof -
  have "unat e < 2 ^ 32" using unsigned_less [of e] by simp
  then have "decode_set e < 2 ^ 16" "decode_way e < 2 ^ 16"
    by (simp_all add: decode_set_unat decode_way_unat less_mult_imp_div_less)
  then have "unat (encode_loc (decode_set e) (decode_way e)) = unat e"
    by (simp add: encode_unat decode_set_unat decode_way_unat)
  then show ?thesis by (simp add: word_unat_eq_iff)
qed

section \<open>The configuration\<close>

definition page_wf :: "('d, 'g, 'e) cache_memory \<Rightarrow> bool" where
  "page_wf c \<longleftrightarrow>
     (\<forall>ch cnt. m_chunk_counters c ch = Some cnt \<longrightarrow> sc_wf cnt \<and> maxVal cnt = 15) \<and>
     (\<forall>ch off. m_chunk_redirection_table c ch = Some off \<longrightarrow>
        off < m_cache_num_sets c div m_num_of_retention_zones c)"

definition cm_config :: "('d, 'g, 'e) cache_memory \<Rightarrow> bool" where
  "cm_config c \<longleftrightarrow>
     4 \<le> m_cache_num_sets c \<and> m_cache_num_sets c \<le> 2 ^ 16 \<and>
     0 < m_cache_assoc c \<and> m_cache_assoc c \<le> 2 ^ 16 \<and>
     2 ^ m_cache_num_set_bits c \<le> m_cache_num_sets c \<and>
     m_cache_num_sets c < 2 ^ (m_cache_num_set_bits c + 1) \<and>
     m_start_index_bit c < 64 \<and>
     0 < m_block_size c \<and> m_block_size c < 2 ^ 31 \<and>
     1 \<le> m_num_of_retention_zones c \<and> m_num_of_retention_zones c \<le> 4 \<and>
     length (m_retention_table c) = m_num_of_retention_zones c \<and>
     m_thresholds c =
       map (\<lambda>i. (i + 1) * (m_cache_num_sets c div m_num_of_retention_zones c))
         [0..<m_num_of_retention_zones c]"

abbreviation zone_size_of :: "('d, 'g, 'e) cache_memory \<Rightarrow> nat" where
  "zone_size_of c \<equiv> m_cache_num_sets c div m_num_of_retention_zones c"

definition line_bits :: "('d, 'g, 'e) cache_memory \<Rightarrow> nat" where
  "line_bits c = (case floorLog2 4 (of_nat (m_block_size c)) of Inr b \<Rightarrow> b | Inl _ \<Rightarrow> 0)"

definition is_line :: "('d, 'g, 'e) cache_memory \<Rightarrow> Addr \<Rightarrow> bool" where
  "is_line c a \<longleftrightarrow> unat a mod 2 ^ line_bits c = 0"

lemma line_bits_bounds:
  assumes "cm_config c"
  shows "floorLog2 4 (of_nat (m_block_size c)) = Inr (line_bits c) \<and> line_bits c < 31 \<and>
    2 ^ line_bits c \<le> m_block_size c \<and> m_block_size c < 2 ^ (line_bits c + 1)"
proof -
  have b: "0 < m_block_size c" "m_block_size c < 2 ^ 31"
    using assms by (simp_all add: cm_config_def)
  have u: "unat (of_nat (m_block_size c) :: 64 word) = m_block_size c"
    using b(2) by (intro unat_of_nat64) simp
  have nz: "(of_nat (m_block_size c) :: 64 word) \<noteq> 0"
    using b(1) u by (metis less_numeral_extra(3) unat_0)
  obtain y where y: "floorLog2 4 (of_nat (m_block_size c)) = Inr y"
    "2 ^ y \<le> m_block_size c" "m_block_size c < 2 ^ (y + 1)"
    using floorLog2_bounds [of "of_nat (m_block_size c)" 4] nz b(2) unfolding u by auto
  then have "(2 :: nat) ^ y < 2 ^ 31" using b(2) by linarith
  then have "y < 31" by (rule power_less_imp_less_exp [rotated]) simp
  with y show ?thesis by (simp add: line_bits_def)
qed

lemma cm_makeLineAddress_config:
  "cm_config c \<Longrightarrow> cm_makeLineAddress c a = Inr (maskLowOrderBits a (line_bits c))"
  using line_bits_bounds [of c] by (simp add: cm_makeLineAddress_def makeLineAddress_def)

lemma assert_line_config:
  "cm_config c \<Longrightarrow> assert_line c a = Inr u \<longleftrightarrow> is_line c a"
  unfolding is_line_def maskLowOrderBits_fixed [symmetric]
  by (auto simp: assert_line_def cm_makeLineAddress_config assertE_eq_Inr)

lemma is_line_makeLine: "is_line c (maskLowOrderBits a (line_bits c))"
  unfolding is_line_def using maskLowOrderBits_fixed maskLowOrderBits_idem by blast

lemma getDefaultSet_config:
  assumes "cm_config c"
  shows "\<exists>s. getDefaultSet c a = Inr s \<and>
    s = unat a div 2 ^ m_start_index_bit c mod 2 ^ m_cache_num_set_bits c"
proof -
  have "(2 :: nat) ^ m_cache_num_set_bits c \<le> 2 ^ 16" "4 < (2 :: nat) ^ (m_cache_num_set_bits c + 1)"
    using assms by (auto simp: cm_config_def)
  then have b: "m_cache_num_set_bits c \<le> 16" "0 < m_cache_num_set_bits c"
    using power_le_imp_le_exp [of "2 :: nat" "m_cache_num_set_bits c" 16]
    by (auto intro: gr0I)
  have s: "m_start_index_bit c < 64" using assms by (simp add: cm_config_def)
  have "bitSelect a (m_start_index_bit c)
      (m_start_index_bit c + m_cache_num_set_bits c - 1) =
      Inr (take_bit (m_start_index_bit c + m_cache_num_set_bits c - 1 - m_start_index_bit c + 1)
        (drop_bit (m_start_index_bit c) a))"
    using b s by (subst bitSelect_eq_Inr) auto
  then obtain x where x: "bitSelect a (m_start_index_bit c)
      (m_start_index_bit c + m_cache_num_set_bits c - 1) = Inr x" by blast
  then have "unat x = unat a div 2 ^ m_start_index_bit c mod 2 ^ m_cache_num_set_bits c"
    using b s by (intro bitSelect_unat) auto
  then show ?thesis using x by (simp add: getDefaultSet_def)
qed

lemma default_set_bound:
  assumes "cm_config c" and "getDefaultSet c a = Inr s"
  shows "s < 4 * (m_cache_num_sets c div 4)"
proof -
  let ?b = "m_cache_num_set_bits c"
  have n: "2 ^ ?b \<le> m_cache_num_sets c" "m_cache_num_sets c < 2 ^ (?b + 1)"
    "4 \<le> m_cache_num_sets c" using assms(1) by (auto simp: cm_config_def)
  have "\<not> ?b < 2"
  proof
    assume "?b < 2"
    then have "(2 :: nat) ^ (?b + 1) \<le> 2 ^ 2" by (intro power_increasing) auto
    with n show False by simp
  qed
  then obtain k where "?b = k + 2" by (metis add.commute le_Suc_ex not_less)
  then have "(2 :: nat) ^ ?b = 4 * 2 ^ k" by (simp add: power_add)
  then have "2 ^ ?b \<le> 4 * (m_cache_num_sets c div 4)"
    using n(1) by (simp add: less_eq_div_iff_mult_less_eq mult.commute)
  moreover have "s < 2 ^ ?b"
    using getDefaultSet_config [OF assms(1), of a] assms(2) by auto
  ultimately show ?thesis by linarith
qed

section \<open>Retention zones\<close>

text \<open>The zone of a set: the quotient by the zone size, cut off at the last zone.\<close>

definition zone_of :: "('d, 'g, 'e) cache_memory \<Rightarrow> nat \<Rightarrow> nat" where
  "zone_of c s = min (s div zone_size_of c) (m_num_of_retention_zones c - 1)"

lemma zone_loop_map:
  assumes "0 < q" and "i * q \<le> s" and "i + n = z" and "1 \<le> z"
  shows "zone_loop (map (\<lambda>i. (i + 1) * q) [0..<z]) s (z - 1) i n = Inr (min (s div q) (z - 1))"
  using assms
proof (induction n arbitrary: i)
  case 0
  then have "z \<le> s div q" by (simp add: less_eq_div_iff_mult_less_eq)
  then show ?case by simp
next
  case (Suc n)
  then have i: "i < z" by simp
  show ?case
  proof (cases "s < (i + 1) * q")
    case True
    then have "s div q = i" using Suc.prems by (intro div_nat_eqI) (auto simp: algebra_simps)
    then show ?thesis using True i by (simp add: nthE_def)
  next
    case False
    then show ?thesis using Suc.prems i Suc.IH [of "i + 1"] by (simp add: nthE_def not_less)
  qed
qed

lemma zone_size_pos: "cm_config c \<Longrightarrow> 0 < zone_size_of c"
  by (auto simp: cm_config_def div_greater_zero_iff)

lemma getRetentionZone_config:
  assumes "cm_config c"
  shows "getRetentionZone c s = Inr (zone_of c s) \<and> zone_of c s < m_num_of_retention_zones c"
proof -
  have "getRetentionZone c s = Inr (zone_of c s)"
    using assms zone_size_pos [OF assms]
      zone_loop_map [of "zone_size_of c" 0 s "m_num_of_retention_zones c" "m_num_of_retention_zones c"]
    by (simp add: getRetentionZone_def cm_config_def zone_of_def)
  moreover have "1 \<le> m_num_of_retention_zones c" using assms by (simp add: cm_config_def)
  then have "zone_of c s < m_num_of_retention_zones c"
    by (simp add: zone_of_def min_less_iff_disj)
  ultimately show ?thesis by simp
qed

lemma zone_time_config:
  assumes "cm_config c"
  shows "zone_time c s = Inr (lt_time (m_retention_table c ! zone_of c s))"
  using assms getRetentionZone_config [OF assms, of s]
  by (simp add: zone_time_def cm_config_def nthE_def)

section \<open>Redirection\<close>

text \<open>The set before the walk, and how far the write counter of a page walks inside a zone.\<close>

definition base_set_of :: "('d, 'g, 'e) cache_memory \<Rightarrow> Addr \<Rightarrow> nat \<Rightarrow> nat" where
  "base_set_of c a s =
     (case m_chunk_redirection_table c (chunk_ID a) of None \<Rightarrow> s
      | Some r \<Rightarrow>
         let q = zone_size_of c; k = (r + unat (drop_bit 6 a AND 0x3F) * 7) mod q in
         if 3 * q \<le> s then q + k else if 2 * q \<le> s then k else s)"

definition walk_of :: "('d, 'g, 'e) cache_memory \<Rightarrow> Addr \<Rightarrow> nat" where
  "walk_of c a =
     (case m_chunk_counters c (chunk_ID a) of None \<Rightarrow> 0 | Some cnt \<Rightarrow> min 7 (sc_value cnt div 2))"

definition walk_from :: "nat \<Rightarrow> nat \<Rightarrow> nat \<Rightarrow> nat" where
  "walk_from q s k = s div q * q + (s mod q + k) mod q"

lemma thresholds_4:
  assumes "cm_config c" and "m_num_of_retention_zones c = 4"
  shows "m_thresholds c =
    [zone_size_of c, 2 * zone_size_of c, 3 * zone_size_of c, 4 * zone_size_of c]"
  using assms by (simp add: cm_config_def upt_conv_Cons)

lemma redirected_set_eq:
  assumes "cm_config c" and "m_num_of_retention_zones c = 4"
  shows "redirected_set c a (zone_size_of c) s = Inr (base_set_of c a s)"
proof -
  have "zone_size_of c \<noteq> 0" using zone_size_pos [OF assms(1)] by simp
  then show ?thesis
    unfolding redirected_set_def base_set_of_def thresholds_4 [OF assms]
    by (simp add: nthE_def Let_def split: option.splits)
qed

lemma walked_set_eq:
  assumes "0 < q"
  shows "walked_set c a q s = Inr (walk_from q s (walk_of c a))"
  using assms div_mult_mod_eq [of s q]
  by (auto simp: walked_set_def walk_of_def walk_from_def Let_def min_def split: option.splits)

lemma walk_from_zone: "0 < q \<Longrightarrow> walk_from q s k div q = s div q"
  by (simp add: walk_from_def)

lemma addressToCacheSet_eq:
  assumes "cm_config c" and "is_line c a" and "getDefaultSet c a = Inr s"
  shows "addressToCacheSet c a = Inr
    (if m_lazy_redirection_scheme c \<and> m_num_of_retention_zones c = 4
     then walk_from (zone_size_of c) (base_set_of c a s) (walk_of c a) else s)"
proof -
  have l: "assert_line c a = Inr ()"
    using assert_line_config [OF assms(1)] assms(2) by simp
  show ?thesis
  proof (cases "m_lazy_redirection_scheme c \<and> m_num_of_retention_zones c = 4")
    case True
    then have "nthE (m_thresholds c) 0 = Inr (zone_size_of c)"
      using thresholds_4 [OF assms(1)] by (simp add: nthE_def)
    then show ?thesis
      using True assms(3) l redirected_set_eq [OF assms(1)]
        walked_set_eq [OF zone_size_pos [OF assms(1)]]
      by (simp add: addressToCacheSet_def)
  next
    case False
    then show ?thesis using assms(3) l by (auto simp: addressToCacheSet_def)
  qed
qed

text \<open>The zone of the set before the walk.\<close>

definition redirected_zone :: "nat \<Rightarrow> nat" where
  "redirected_zone z = (if z = 3 then 1 else if z = 2 then 0 else z)"

lemma base_set_zone:
  assumes "0 < zone_size_of c" and "s < 4 * zone_size_of c"
  shows "base_set_of c a s div zone_size_of c =
    (if m_chunk_redirection_table c (chunk_ID a) = None then s div zone_size_of c
     else redirected_zone (s div zone_size_of c))"
proof -
  let ?q = "zone_size_of c"
  have "s div ?q < 4" using assms by (simp add: div_less_iff_less_mult)
  moreover have "3 * ?q \<le> s \<longleftrightarrow> 3 \<le> s div ?q" "2 * ?q \<le> s \<longleftrightarrow> 2 \<le> s div ?q"
    using assms(1) by (simp_all add: less_eq_div_iff_mult_less_eq)
  moreover have "(?q + k mod ?q) div ?q = 1" for k
    using assms(1) by (simp add: div_add_self1)
  ultimately show ?thesis
    using assms(1) by (auto simp: base_set_of_def redirected_zone_def Let_def split: option.splits)
qed

lemma addressToCacheSet_config:
  assumes "cm_config c" and "is_line c a"
  shows "\<exists>s. addressToCacheSet c a = Inr s \<and> s < 4 * (m_cache_num_sets c div 4)"
proof -
  obtain d where d: "getDefaultSet c a = Inr d"
    using getDefaultSet_config [OF assms(1)] by blast
  note b = default_set_bound [OF assms(1) d]
  show ?thesis
  proof (cases "m_lazy_redirection_scheme c \<and> m_num_of_retention_zones c = 4")
    case True
    let ?q = "zone_size_of c" and ?s = "walk_from (zone_size_of c) (base_set_of c a d) (walk_of c a)"
    have q: "0 < ?q" by (rule zone_size_pos [OF assms(1)])
    have d4: "d < 4 * ?q" using b True by simp
    then have "d div ?q < 4" using q by (simp add: div_less_iff_less_mult)
    then have "?s div ?q < 4"
      unfolding walk_from_zone [OF q] base_set_zone [OF q d4] redirected_zone_def by simp
    then have "?s < 4 * (m_cache_num_sets c div 4)"
      using q True by (simp add: div_less_iff_less_mult)
    then show ?thesis using addressToCacheSet_eq [OF assms d] True by simp
  next
    case False
    then show ?thesis using addressToCacheSet_eq [OF assms d] b by auto
  qed
qed

lemma addressToCacheSet_Inr:
  assumes "cm_config c" and "addressToCacheSet c a = Inr s"
  shows "is_line c a" and "s < 4 * (m_cache_num_sets c div 4)" and "s < m_cache_num_sets c"
proof -
  show l: "is_line c a"
    using assms assert_line_config [OF assms(1)] by (auto simp: addressToCacheSet_def res_iffs)
  show s: "s < 4 * (m_cache_num_sets c div 4)"
    using addressToCacheSet_config [OF assms(1) l] assms(2) by auto
  have "4 * (m_cache_num_sets c div 4) \<le> m_cache_num_sets c" by simp
  with s show "s < m_cache_num_sets c" by linarith
qed

end
