(* ===== verification/Cache_Invariant.thy ===== *)
theory Cache_Invariant
  imports Cache_Index
begin

text \<open>
  The representation invariant of the cache and what every operation does to it.

  \<open>index_ok\<close> ties the tag index to the array of entries: every indexed address is held by the
  entry at the packed position, every entry that is present is indexed at its own position, and
  every entry points to the replacement data of its own position.  \<open>blocks\<close> is the abstract view
  of a cache, the finite map from line addresses to the blocks that are present.  The operations
  are total on the states that satisfy the invariant, keep it, and act on \<open>blocks\<close> as look-up,
  update and deletion of a map.  The facts that involve the replacement policy are proved once,
  in the context of the locale \<open>replacement_policy\<close>, for every policy that meets the contract.
\<close>

section \<open>The invariant\<close>

definition shape :: "('d, 'g, 'e) cache_memory \<Rightarrow> bool" where
  "shape c \<longleftrightarrow>
     dims (m_cache_num_sets c) (m_cache_assoc c) (m_cache c) \<and>
     dims (m_cache_num_sets c) (m_cache_assoc c) (replacement_data c)"

definition timing_ok :: "('d, 'g, 'e) cache_memory \<Rightarrow> bool" where
  "timing_ok c \<longleftrightarrow>
     length (m_chunk c) = m_cache_num_sets c div 4 \<and>
     length (m_accesses_per_set (cacheMemoryStats c)) = m_cache_num_sets c \<and>
     length (m_chunk_reads (cacheMemoryStats c)) = m_cache_num_sets c div 4 \<and>
     length (m_chunk_writes (cacheMemoryStats c)) = m_cache_num_sets c div 4 \<and>
     ba_wf (dataArray c) \<and> 0 < clockPeriod (dataArray c) \<and>
     ba_wf (tagArray c) \<and> 0 < clockPeriod (tagArray c) \<and>
     alu_block_size_bits (atomicALUArray c) < 64 \<and> 0 < ruby_clockPeriod c"

abbreviation in_range :: "('d, 'g, 'e) cache_memory \<Rightarrow> nat \<times> nat \<Rightarrow> bool" where
  "in_range c loc \<equiv> fst loc < m_cache_num_sets c \<and> snd loc < m_cache_assoc c"

abbreviation slot ::
  "('d, 'g, 'e) cache_memory \<Rightarrow> nat \<times> nat \<Rightarrow> 'e cache_entry_scheme option" where
  "slot c loc \<equiv> m_cache c ! fst loc ! snd loc"

definition decode_loc :: "32 word \<Rightarrow> nat \<times> nat" where
  "decode_loc e = (decode_set e, decode_way e)"

definition index_ok :: "('d, 'g, 'e) cache_memory \<Rightarrow> bool" where
  "index_ok c \<longleftrightarrow>
     (\<forall>a e. m_tag_index c a = Some e \<longrightarrow>
        is_line c a \<and> in_range c (decode_loc e) \<and>
        (\<exists>x. slot c (decode_loc e) = Some x \<and> m_Address x = a)) \<and>
     (\<forall>loc x. in_range c loc \<longrightarrow> slot c loc = Some x \<longrightarrow>
        replacementData x = Some loc \<and>
        (m_Permission x \<noteq> NotPresent \<longrightarrow>
           m_tag_index c (m_Address x) = Some (encode_loc (fst loc) (snd loc))))"

definition cm_inv :: "('d, 'g, 'e) cache_memory \<Rightarrow> bool" where
  "cm_inv c \<longleftrightarrow> cm_config c \<and> page_wf c \<and> shape c \<and> timing_ok c \<and> index_ok c"

definition cm_ok ::
  "('g \<Rightarrow> 'd list list \<Rightarrow> bool) \<Rightarrow> ('d, 'g, 'e) cache_memory \<Rightarrow> bool" where
  "cm_ok ok c \<longleftrightarrow> cm_inv c \<and> ok (repl_state c) (replacement_data c)"

text \<open>The blocks that are present.\<close>

definition blocks :: "('d, 'g, 'e) cache_memory \<Rightarrow> Addr \<rightharpoonup> 'e cache_entry_scheme" where
  "blocks c a =
     Option.bind (m_tag_index c a) (\<lambda>e.
     Option.bind (slot c (decode_loc e)) (\<lambda>x.
     if m_Permission x \<noteq> NotPresent then Some x else None))"

section \<open>Fields an operation leaves alone\<close>

named_theorems cm_frame \<open>parts of the state that do not depend on an updated field\<close>

lemma cm_config_frame [cm_frame, simp]:
  "cm_config (c\<lparr>m_tag_index := a1\<rparr>) = cm_config c"
  "cm_config (c\<lparr>m_cache := a2\<rparr>) = cm_config c"
  "cm_config (c\<lparr>repl_state := a3\<rparr>) = cm_config c"
  "cm_config (c\<lparr>dataArray := a4\<rparr>) = cm_config c"
  "cm_config (c\<lparr>tagArray := a5\<rparr>) = cm_config c"
  "cm_config (c\<lparr>atomicALUArray := a6\<rparr>) = cm_config c"
  "cm_config (c\<lparr>m_chunk := a7\<rparr>) = cm_config c"
  "cm_config (c\<lparr>m_chunk_counters := a8\<rparr>) = cm_config c"
  "cm_config (c\<lparr>m_chunk_redirection_table := a9\<rparr>) = cm_config c"
  "cm_config (c\<lparr>replacement_data := b1\<rparr>) = cm_config c"
  "cm_config (c\<lparr>cacheMemoryStats := b2\<rparr>) = cm_config c"
  by (simp_all add: cm_config_def)

lemma is_line_frame [cm_frame, simp]:
  "is_line (c\<lparr>m_tag_index := a1\<rparr>) = is_line c"
  "is_line (c\<lparr>m_cache := a2\<rparr>) = is_line c"
  "is_line (c\<lparr>repl_state := a3\<rparr>) = is_line c"
  "is_line (c\<lparr>dataArray := a4\<rparr>) = is_line c"
  "is_line (c\<lparr>tagArray := a5\<rparr>) = is_line c"
  "is_line (c\<lparr>atomicALUArray := a6\<rparr>) = is_line c"
  "is_line (c\<lparr>m_chunk := a7\<rparr>) = is_line c"
  "is_line (c\<lparr>m_chunk_counters := a8\<rparr>) = is_line c"
  "is_line (c\<lparr>m_chunk_redirection_table := a9\<rparr>) = is_line c"
  "is_line (c\<lparr>replacement_data := b1\<rparr>) = is_line c"
  "is_line (c\<lparr>cacheMemoryStats := b2\<rparr>) = is_line c"
  by (simp_all add: is_line_def line_bits_def fun_eq_iff)

lemma page_wf_frame [cm_frame, simp]:
  "page_wf (c\<lparr>m_tag_index := a1\<rparr>) = page_wf c"
  "page_wf (c\<lparr>m_cache := a2\<rparr>) = page_wf c"
  "page_wf (c\<lparr>repl_state := a3\<rparr>) = page_wf c"
  "page_wf (c\<lparr>dataArray := a4\<rparr>) = page_wf c"
  "page_wf (c\<lparr>tagArray := a5\<rparr>) = page_wf c"
  "page_wf (c\<lparr>atomicALUArray := a6\<rparr>) = page_wf c"
  "page_wf (c\<lparr>m_chunk := a7\<rparr>) = page_wf c"
  "page_wf (c\<lparr>replacement_data := b1\<rparr>) = page_wf c"
  "page_wf (c\<lparr>cacheMemoryStats := b2\<rparr>) = page_wf c"
  by (simp_all add: page_wf_def)

lemma shape_frame [cm_frame, simp]:
  "shape (c\<lparr>m_tag_index := a1\<rparr>) = shape c"
  "shape (c\<lparr>repl_state := a3\<rparr>) = shape c"
  "shape (c\<lparr>dataArray := a4\<rparr>) = shape c"
  "shape (c\<lparr>tagArray := a5\<rparr>) = shape c"
  "shape (c\<lparr>atomicALUArray := a6\<rparr>) = shape c"
  "shape (c\<lparr>m_chunk := a7\<rparr>) = shape c"
  "shape (c\<lparr>m_chunk_counters := a8\<rparr>) = shape c"
  "shape (c\<lparr>m_chunk_redirection_table := a9\<rparr>) = shape c"
  "shape (c\<lparr>cacheMemoryStats := b2\<rparr>) = shape c"
  by (simp_all add: shape_def)

lemma timing_ok_frame [cm_frame, simp]:
  "timing_ok (c\<lparr>m_tag_index := a1\<rparr>) = timing_ok c"
  "timing_ok (c\<lparr>m_cache := a2\<rparr>) = timing_ok c"
  "timing_ok (c\<lparr>repl_state := a3\<rparr>) = timing_ok c"
  "timing_ok (c\<lparr>m_chunk_counters := a8\<rparr>) = timing_ok c"
  "timing_ok (c\<lparr>m_chunk_redirection_table := a9\<rparr>) = timing_ok c"
  "timing_ok (c\<lparr>replacement_data := b1\<rparr>) = timing_ok c"
  by (simp_all add: timing_ok_def)

lemma index_ok_frame [cm_frame, simp]:
  "index_ok (c\<lparr>repl_state := a3\<rparr>) = index_ok c"
  "index_ok (c\<lparr>dataArray := a4\<rparr>) = index_ok c"
  "index_ok (c\<lparr>tagArray := a5\<rparr>) = index_ok c"
  "index_ok (c\<lparr>atomicALUArray := a6\<rparr>) = index_ok c"
  "index_ok (c\<lparr>m_chunk := a7\<rparr>) = index_ok c"
  "index_ok (c\<lparr>m_chunk_counters := a8\<rparr>) = index_ok c"
  "index_ok (c\<lparr>m_chunk_redirection_table := a9\<rparr>) = index_ok c"
  "index_ok (c\<lparr>replacement_data := b1\<rparr>) = index_ok c"
  "index_ok (c\<lparr>cacheMemoryStats := b2\<rparr>) = index_ok c"
  by (simp_all add: index_ok_def)

lemma blocks_frame [cm_frame, simp]:
  "blocks (c\<lparr>repl_state := a3\<rparr>) = blocks c"
  "blocks (c\<lparr>dataArray := a4\<rparr>) = blocks c"
  "blocks (c\<lparr>tagArray := a5\<rparr>) = blocks c"
  "blocks (c\<lparr>atomicALUArray := a6\<rparr>) = blocks c"
  "blocks (c\<lparr>m_chunk := a7\<rparr>) = blocks c"
  "blocks (c\<lparr>m_chunk_counters := a8\<rparr>) = blocks c"
  "blocks (c\<lparr>m_chunk_redirection_table := a9\<rparr>) = blocks c"
  "blocks (c\<lparr>replacement_data := b1\<rparr>) = blocks c"
  "blocks (c\<lparr>cacheMemoryStats := b2\<rparr>) = blocks c"
  by (simp_all add: blocks_def fun_eq_iff)

lemma addressToCacheSet_frame [cm_frame, simp]:
  "addressToCacheSet (c\<lparr>m_tag_index := a1\<rparr>) = addressToCacheSet c"
  "addressToCacheSet (c\<lparr>m_cache := a2\<rparr>) = addressToCacheSet c"
  "addressToCacheSet (c\<lparr>repl_state := a3\<rparr>) = addressToCacheSet c"
  "addressToCacheSet (c\<lparr>dataArray := a4\<rparr>) = addressToCacheSet c"
  "addressToCacheSet (c\<lparr>tagArray := a5\<rparr>) = addressToCacheSet c"
  "addressToCacheSet (c\<lparr>atomicALUArray := a6\<rparr>) = addressToCacheSet c"
  "addressToCacheSet (c\<lparr>m_chunk := a7\<rparr>) = addressToCacheSet c"
  "addressToCacheSet (c\<lparr>replacement_data := b1\<rparr>) = addressToCacheSet c"
  "addressToCacheSet (c\<lparr>cacheMemoryStats := b2\<rparr>) = addressToCacheSet c"
  by (simp_all add: addressToCacheSet_def redirected_set_def walked_set_def assert_line_def
      cm_makeLineAddress_def getDefaultSet_def fun_eq_iff cong: if_cong option.case_cong)

lemmas cm_inv_defs = cm_inv_def cm_ok_def

lemma timing_ok_stats:
  "length (m_accesses_per_set t) = length (m_accesses_per_set (cacheMemoryStats c)) \<Longrightarrow>
   length (m_chunk_reads t) = length (m_chunk_reads (cacheMemoryStats c)) \<Longrightarrow>
   length (m_chunk_writes t) = length (m_chunk_writes (cacheMemoryStats c)) \<Longrightarrow>
   timing_ok (c\<lparr>cacheMemoryStats := t\<rparr>) = timing_ok c"
  by (simp add: timing_ok_def)

lemma bump_zombies_frame [cm_frame, simp]:
  "cm_inv (bump_zombies e c) = cm_inv c"
  "is_line (bump_zombies e c) = is_line c"
  "blocks (bump_zombies e c) = blocks c"
  "m_cache (bump_zombies e c) = m_cache c"
  "m_tag_index (bump_zombies e c) = m_tag_index c"
  "replacement_data (bump_zombies e c) = replacement_data c"
  "repl_state (bump_zombies e c) = repl_state c"
  "m_cache_num_sets (bump_zombies e c) = m_cache_num_sets c"
  "m_cache_assoc (bump_zombies e c) = m_cache_assoc c"
  "m_is_sttram (bump_zombies e c) = m_is_sttram c"
  "m_retention_table (bump_zombies e c) = m_retention_table c"
  "cm_config (bump_zombies e c) = cm_config c"
  "zone_of (bump_zombies e c) = zone_of c"
  "addressToCacheSet (bump_zombies e c) = addressToCacheSet c"
  by (simp_all add: bump_zombies_def cm_inv_def timing_ok_stats zone_of_def fun_eq_iff)

lemma upd_stats_inv:
  assumes "\<And>s. length (m_accesses_per_set (f s)) = length (m_accesses_per_set s)"
    and "\<And>s. length (m_chunk_reads (f s)) = length (m_chunk_reads s)"
    and "\<And>s. length (m_chunk_writes (f s)) = length (m_chunk_writes s)"
  shows "cm_inv (upd_stats f c) = cm_inv c"
  using assms by (simp add: upd_stats_def cm_inv_def timing_ok_stats)

lemma upd_stats_frame [cm_frame, simp]:
  "blocks (upd_stats f c) = blocks c"
  "is_line (upd_stats f c) = is_line c"
  "m_cache (upd_stats f c) = m_cache c"
  "m_tag_index (upd_stats f c) = m_tag_index c"
  "replacement_data (upd_stats f c) = replacement_data c"
  "repl_state (upd_stats f c) = repl_state c"
  "m_cache_num_sets (upd_stats f c) = m_cache_num_sets c"
  "m_cache_assoc (upd_stats f c) = m_cache_assoc c"
  "addressToCacheSet (upd_stats f c) = addressToCacheSet c"
  by (simp_all add: upd_stats_def)

section \<open>Entries in place\<close>

lemma cm_inv_dims:
  assumes "cm_inv c"
  shows "dims (m_cache_num_sets c) (m_cache_assoc c) (m_cache c)"
    and "dims (m_cache_num_sets c) (m_cache_assoc c) (replacement_data c)"
    and "cm_config c"
  using assms by (simp_all add: cm_inv_def shape_def)

lemma cm_inv_small:
  assumes "cm_inv c" and "in_range c loc"
  shows "fst loc < 2 ^ 16" and "snd loc < 2 ^ 16"
  using cm_inv_dims(3) [OF assms(1)] assms(2) by (auto simp: cm_config_def)

lemma decode_encode_loc:
  "cm_inv c \<Longrightarrow> in_range c loc \<Longrightarrow> decode_loc (encode_loc (fst loc) (snd loc)) = loc"
  using cm_inv_small [of c loc] by (simp add: decode_loc_def decode_encode)

lemma encode_decode_loc: "encode_loc (fst (decode_loc e)) (snd (decode_loc e)) = e"
  by (simp add: decode_loc_def encode_decode)

lemma indexed:
  assumes "cm_inv c" and "m_tag_index c a = Some e"
  obtains x where "is_line c a" and "in_range c (decode_loc e)"
    and "slot c (decode_loc e) = Some x" and "m_Address x = a"
    and "replacementData x = Some (decode_loc e)"
  using assms unfolding cm_inv_def index_ok_def by metis

lemma present:
  assumes "cm_inv c" and "in_range c loc" and "slot c loc = Some x"
  shows "replacementData x = Some loc"
    and "m_Permission x \<noteq> NotPresent \<Longrightarrow>
      m_tag_index c (m_Address x) = Some (encode_loc (fst loc) (snd loc))"
  using assms unfolding cm_inv_def index_ok_def by blast+

lemma nth2E_slot: "cm_inv c \<Longrightarrow> in_range c loc \<Longrightarrow> nth2E (m_cache c) (fst loc) (snd loc) = Inr (slot c loc)"
  by (rule nth2E_in_range [OF cm_inv_dims(1)]) auto

lemma entry_at_slot:
  "cm_inv c \<Longrightarrow> in_range c loc \<Longrightarrow> slot c loc = Some x \<Longrightarrow> entry_at c loc = Inr x"
  by (simp add: entry_at_def nth2E_slot)

lemma slot_set_entry:
  "cm_inv c \<Longrightarrow> in_range c loc \<Longrightarrow>
     slot (set_entry loc e c) l = (if l = loc then Some e else slot c l)"
  using upd2_nth [OF cm_inv_dims(1), of c "fst loc" "snd loc" "Some e" "fst l" "snd l"]
  by (auto simp: set_entry_def prod_eq_iff)

lemma set_entry_frame [cm_frame, simp]:
  "m_cache_num_sets (set_entry loc e c) = m_cache_num_sets c"
  "m_cache_assoc (set_entry loc e c) = m_cache_assoc c"
  "m_tag_index (set_entry loc e c) = m_tag_index c"
  "replacement_data (set_entry loc e c) = replacement_data c"
  "repl_state (set_entry loc e c) = repl_state c"
  "m_retention_table (set_entry loc e c) = m_retention_table c"
  "cacheMemoryStats (set_entry loc e c) = cacheMemoryStats c"
  "cm_config (set_entry loc e c) = cm_config c"
  "page_wf (set_entry loc e c) = page_wf c"
  "timing_ok (set_entry loc e c) = timing_ok c"
  "is_line (set_entry loc e c) = is_line c"
  "addressToCacheSet (set_entry loc e c) = addressToCacheSet c"
  by (simp_all add: set_entry_def)

lemma shape_set_entry: "shape c \<Longrightarrow> in_range c loc \<Longrightarrow> shape (set_entry loc e c)"
  by (simp add: shape_def set_entry_def)

text \<open>Two addresses are never indexed at the same position.\<close>

lemma index_inj:
  assumes "cm_inv c" and "m_tag_index c a = Some e" and "m_tag_index c b = Some f"
    and "decode_loc e = decode_loc f"
  shows "a = b"
  using assms by (metis indexed option.inject)

text \<open>An update in place of an indexed entry.\<close>

lemma set_entry_inv:
  assumes inv: "cm_inv c" and ix: "m_tag_index c a = Some e"
    and x: "slot c (decode_loc e) = Some x" and sp: "same_place x x'"
  shows "cm_inv (set_entry (decode_loc e) x' c)"
proof -
  let ?l = "decode_loc e"
  obtain y where y: "in_range c ?l" "slot c ?l = Some y" "m_Address y = a"
    "replacementData y = Some ?l" using indexed [OF inv ix] .
  with x sp have x': "m_Address x' = a" "replacementData x' = Some ?l"
    by (auto simp: same_place_def)
  have "index_ok (set_entry ?l x' c)"
    unfolding index_ok_def
  proof (intro conjI allI impI)
    fix b f assume b: "m_tag_index (set_entry ?l x' c) b = Some f"
    then have b': "m_tag_index c b = Some f" by simp
    obtain z where z: "is_line c b" "in_range c (decode_loc f)"
      "slot c (decode_loc f) = Some z" "m_Address z = b" using indexed [OF inv b'] .
    show "is_line (set_entry ?l x' c) b" using z by simp
    show "fst (decode_loc f) < m_cache_num_sets (set_entry ?l x' c)"
      "snd (decode_loc f) < m_cache_assoc (set_entry ?l x' c)" using z by simp_all
    show "\<exists>z. slot (set_entry ?l x' c) (decode_loc f) = Some z \<and> m_Address z = b"
      using z x' y x by (auto simp: slot_set_entry [OF inv y(1)])
  next
    fix loc z assume r: "in_range (set_entry ?l x' c) loc" and z: "slot (set_entry ?l x' c) loc = Some z"
    then have r': "in_range c loc" by simp
    show "replacementData z = Some loc"
      using z x' present(1) [OF inv r'] by (auto simp: slot_set_entry [OF inv y(1)] split: if_splits)
    assume p: "m_Permission z \<noteq> NotPresent"
    show "m_tag_index (set_entry ?l x' c) (m_Address z) = Some (encode_loc (fst loc) (snd loc))"
      using z p x' ix present(2) [OF inv r']
      by (auto simp: slot_set_entry [OF inv y(1)] encode_decode_loc split: if_splits)
  qed
  then show ?thesis using inv shape_set_entry [of c ?l x'] y by (simp add: cm_inv_def)
qed

lemma blocks_set_entry:
  assumes inv: "cm_inv c" and ix: "m_tag_index c a = Some e"
  shows "blocks (set_entry (decode_loc e) x' c) =
    (blocks c)(a := (if m_Permission x' \<noteq> NotPresent then Some x' else None))"
proof
  fix b
  obtain y where y: "in_range c (decode_loc e)" using indexed [OF inv ix] .
  show "blocks (set_entry (decode_loc e) x' c) b =
    ((blocks c)(a := (if m_Permission x' \<noteq> NotPresent then Some x' else None))) b"
  proof (cases "b = a")
    case True
    then show ?thesis using ix by (simp add: blocks_def slot_set_entry [OF inv y])
  next
    case False
    have "decode_loc f \<noteq> decode_loc e" if "m_tag_index c b = Some f" for f
      using index_inj [OF inv that ix] False by blast
    then show ?thesis
      using False by (cases "m_tag_index c b") (simp_all add: blocks_def slot_set_entry [OF inv y])
  qed
qed

text \<open>Where the present block of an address is.\<close>

lemma blocks_Some:
  assumes "cm_inv c" and "blocks c a = Some x"
  obtains e where "m_tag_index c a = Some e" and "in_range c (decode_loc e)"
    and "slot c (decode_loc e) = Some x" and "m_Address x = a" and "is_line c a"
    and "m_Permission x \<noteq> NotPresent" and "replacementData x = Some (decode_loc e)"
proof -
  obtain e where e: "m_tag_index c a = Some e" "slot c (decode_loc e) = Some x"
    "m_Permission x \<noteq> NotPresent"
    using assms(2) by (auto simp: blocks_def bind_eq_Some_conv split: if_splits)
  obtain y where "is_line c a" "in_range c (decode_loc e)" "slot c (decode_loc e) = Some y"
    "m_Address y = a" "replacementData y = Some (decode_loc e)"
    using indexed [OF assms(1) e(1)] .
  with e that show thesis by auto
qed

lemma blocks_present:
  assumes "cm_inv c" and "in_range c loc" and "slot c loc = Some x" and "m_Permission x \<noteq> NotPresent"
  shows "blocks c (m_Address x) = Some x"
  using present(2) [OF assms] assms(3,4) decode_encode_loc [OF assms(1,2)]
  by (simp add: blocks_def)

section \<open>Look-up\<close>

lemma assert_line_inv: "cm_inv c \<Longrightarrow> is_line c a \<Longrightarrow> assert_line c a = Inr ()"
  using assert_line_config [OF cm_inv_dims(3), of c a "()"] by simp

lemma findTagInSetIgnorePermissions_inv:
  assumes "cm_inv c" and "is_line c a"
  shows "findTagInSetIgnorePermissions c a = Inr (map_option decode_loc (m_tag_index c a))"
proof (cases "m_tag_index c a")
  case None
  then show ?thesis
    using assms by (simp add: findTagInSetIgnorePermissions_def assert_line_inv)
next
  case (Some e)
  obtain x where x: "in_range c (decode_loc e)" "slot c (decode_loc e) = Some x" "m_Address x = a"
    using indexed [OF assms(1) Some] .
  then have "nth2E (m_cache c) (decode_set e) (decode_way e) = Inr (Some x)"
    using nth2E_slot [OF assms(1) x(1)] by (simp add: decode_loc_def)
  then show ?thesis
    using assms Some x
    by (simp add: findTagInSetIgnorePermissions_def assert_line_inv Let_def decode_loc_def)
qed

definition present_loc :: "('d, 'g, 'e) cache_memory \<Rightarrow> Addr \<Rightarrow> (nat \<times> nat) option" where
  "present_loc c a = (if blocks c a = None then None else map_option decode_loc (m_tag_index c a))"

lemma findTagInSet_inv:
  assumes "cm_inv c" and "is_line c a"
  shows "findTagInSet c a = Inr (present_loc c a)"
proof (cases "m_tag_index c a")
  case None
  then show ?thesis
    using assms by (simp add: findTagInSet_def assert_line_inv present_loc_def)
next
  case (Some e)
  obtain x where x: "in_range c (decode_loc e)" "slot c (decode_loc e) = Some x" "m_Address x = a"
    using indexed [OF assms(1) Some] .
  then have n: "nth2E (m_cache c) (decode_set e) (decode_way e) = Inr (Some x)"
    using nth2E_slot [OF assms(1) x(1)] by (simp add: decode_loc_def)
  have "blocks c a = (if m_Permission x \<noteq> NotPresent then Some x else None)"
    using Some x(2) by (simp add: blocks_def)
  then show ?thesis
    using assms Some x n
    by (simp add: findTagInSet_def assert_line_inv Let_def decode_loc_def present_loc_def)
qed

lemma addressToCacheSet_inv:
  assumes "cm_inv c" and "is_line c a"
  obtains s where "addressToCacheSet c a = Inr s" and "s < m_cache_num_sets c"
    and "s div 4 < m_cache_num_sets c div 4"
proof -
  obtain s where s: "addressToCacheSet c a = Inr s"
    using addressToCacheSet_config [OF cm_inv_dims(3) [OF assms(1)] assms(2)] by blast
  note b = addressToCacheSet_Inr [OF cm_inv_dims(3) [OF assms(1)] s]
  have "s div 4 < m_cache_num_sets c div 4"
    using b(2) by (simp add: div_less_iff_less_mult)
  with s b that show thesis by blast
qed

text \<open>\<open>lookup\<close> returns the place of the block, and marks it when its retention time is over.\<close>

lemma cm_lookup_None:
  "cm_inv c \<Longrightarrow> is_line c a \<Longrightarrow> blocks c a = None \<Longrightarrow> cm_lookup now a c = Inr (None, c)"
  by (auto simp: cm_lookup_def findTagInSet_inv present_loc_def elim: addressToCacheSet_inv)

lemma cm_lookup_Some:
  assumes "cm_inv c" and "is_line c a" and "blocks c a = Some x"
  shows "\<exists>e. m_tag_index c a = Some e \<and>
    cm_lookup now a c = Inr (Some (decode_loc e), set_entry (decode_loc e) (expire_entry now x) c)"
proof -
  obtain e where e: "m_tag_index c a = Some e" "in_range c (decode_loc e)"
    "slot c (decode_loc e) = Some x" using blocks_Some [OF assms(1,3)] .
  obtain s where "addressToCacheSet c a = Inr s" using addressToCacheSet_inv [OF assms(1,2)] .
  then show ?thesis
    using e assms nth2E_slot [OF assms(1) e(2)]
    by (simp add: cm_lookup_def findTagInSet_inv present_loc_def)
qed

lemma expire_entry_same [simp]:
  "same_place e (expire_entry now e)"
  "m_Permission (expire_entry now e) = m_Permission e"
  by (simp_all add: expire_entry_def same_place_def)

lemma cm_lookup_spec:
  assumes "cm_inv c" and "is_line c a"
  obtains p c' where "cm_lookup now a c = Inr (p, c')" and "cm_inv c'"
    and "blocks c' = (blocks c)(a := map_option (expire_entry now) (blocks c a))"
    and "p = present_loc c a" and "present_loc c' a = present_loc c a"
    and "replacement_data c' = replacement_data c" and "repl_state c' = repl_state c"
    and "m_tag_index c' = m_tag_index c" and "m_cache_num_sets c' = m_cache_num_sets c"
    and "m_cache_assoc c' = m_cache_assoc c" and "is_line c' = is_line c"
proof (cases "blocks c a")
  case None
  have l: "cm_lookup now a c = Inr (None, c)" using cm_lookup_None assms None by blast
  have b: "blocks c = (blocks c)(a := map_option (expire_entry now) (blocks c a))"
    using None by (auto simp: fun_eq_iff)
  show thesis
    by (rule that [OF l _ b]) (use assms None in \<open>simp_all add: present_loc_def\<close>)
next
  case (Some x)
  obtain e where e: "m_tag_index c a = Some e"
    "cm_lookup now a c = Inr (Some (decode_loc e), set_entry (decode_loc e) (expire_entry now x) c)"
    using cm_lookup_Some [OF assms Some] by blast
  obtain f where "m_tag_index c a = Some f" "slot c (decode_loc f) = Some x"
    "m_Permission x \<noteq> NotPresent" using blocks_Some [OF assms(1) Some] .
  with e(1) have x: "slot c (decode_loc e) = Some x" "m_Permission x \<noteq> NotPresent" by auto
  let ?c' = "set_entry (decode_loc e) (expire_entry now x) c"
  have "cm_inv ?c'" using set_entry_inv [OF assms(1) e(1) x(1)] by simp
  moreover have "blocks ?c' = (blocks c)(a := map_option (expire_entry now) (blocks c a))"
    using blocks_set_entry [OF assms(1) e(1)] x(2) Some by simp
  moreover have "present_loc ?c' a = present_loc c a"
    using calculation(2) Some e(1) by (simp add: present_loc_def)
  ultimately show thesis
    by (intro that [OF e(2)]) (simp_all add: present_loc_def e(1) Some)
qed

text \<open>The const \<open>lookup\<close> finds the same block and changes nothing.\<close>

lemma cm_lookup_const_spec:
  assumes "cm_inv c" and "is_line c a"
  shows "cm_lookup_const now a c = Inr (present_loc c a)"
proof -
  obtain s where s: "addressToCacheSet c a = Inr s" using addressToCacheSet_inv [OF assms] .
  show ?thesis
  proof (cases "blocks c a")
    case None
    then show ?thesis
      using assms s
      by (simp add: cm_lookup_const_def findTagInSet_inv present_loc_def assert_line_inv)
  next
    case (Some x)
    obtain e where e: "m_tag_index c a = Some e" "in_range c (decode_loc e)"
      "slot c (decode_loc e) = Some x" using blocks_Some [OF assms(1) Some] .
    then show ?thesis
      using assms s Some nth2E_slot [OF assms(1) e(2)]
      by (simp add: cm_lookup_const_def findTagInSet_inv present_loc_def assert_line_inv)
  qed
qed

lemma present_loc_None: "present_loc c a = None \<longleftrightarrow> blocks c a = None"
  by (cases "m_tag_index c a") (simp_all add: present_loc_def blocks_def)

lemma isTagPresent_spec:
  "cm_inv c \<Longrightarrow> is_line c a \<Longrightarrow> isTagPresent now a c = Inr (blocks c a \<noteq> None)"
  by (simp add: isTagPresent_def cm_lookup_const_spec present_loc_None del: not_None_eq)

section \<open>Operations that call the replacement policy\<close>

abbreviation with_policy ::
  "'d list list \<Rightarrow> 'g \<Rightarrow> ('d, 'g, 'e) cache_memory \<Rightarrow> ('d, 'g, 'e) cache_memory" where
  "with_policy rd g c \<equiv> c\<lparr>replacement_data := rd, repl_state := g\<rparr>"

lemma cm_ok_with_policy:
  "cm_inv c \<Longrightarrow> dims (m_cache_num_sets c) (m_cache_assoc c) rd \<Longrightarrow> ok g rd \<Longrightarrow>
     cm_ok ok (with_policy rd g c)"
  by (simp add: cm_ok_def cm_inv_def) (simp add: shape_def)

lemma call_policy_ok:
  assumes "cm_ok ok c" and "in_range c loc"
    and "\<And>g rd. ok g rd \<Longrightarrow> fst loc < length rd \<Longrightarrow> snd loc < length (rd ! fst loc) \<Longrightarrow>
      \<exists>d' g'. f g (rd ! fst loc ! snd loc) = Inr (d', g') \<and> ok g' (upd2 rd (fst loc) (snd loc) d')"
  obtains rd g where "call_policy f (Some loc) c = Inr (with_policy rd g c)"
    and "cm_ok ok (with_policy rd g c)"
proof -
  have inv: "cm_inv c" and ok: "ok (repl_state c) (replacement_data c)"
    using assms(1) by (simp_all add: cm_ok_def)
  note d = cm_inv_dims(2) [OF inv]
  have r: "fst loc < length (replacement_data c)" "snd loc < length (replacement_data c ! fst loc)"
    using d assms(2) by (simp_all add: dims_length)
  obtain d' g' where f: "f (repl_state c) (replacement_data c ! fst loc ! snd loc) = Inr (d', g')"
    "ok g' (upd2 (replacement_data c) (fst loc) (snd loc) d')"
    using assms(3) [OF ok r] by blast
  have "call_policy f (Some loc) c =
      Inr (with_policy (upd2 (replacement_data c) (fst loc) (snd loc) d') g' c)"
    using f(1) r by (simp add: call_policy_def split_def nth2E_def nthE_def)
  moreover have "cm_ok ok (with_policy (upd2 (replacement_data c) (fst loc) (snd loc) d') g' c)"
    using inv f(2) d assms(2) by (intro cm_ok_with_policy) simp_all
  ultimately show thesis using that by blast
qed

context replacement_policy
begin

lemma call_touch:
  assumes "cm_ok ok c" and "in_range c loc"
  obtains rd g where "call_policy (rp_touch P now) (Some loc) c = Inr (with_policy rd g c)"
    and "cm_ok ok (with_policy rd g c)"
  by (rule call_policy_ok [OF assms, where f = "rp_touch P now"]) (erule (2) touch_ok, rule that)

lemma call_touch_occ:
  assumes "cm_ok ok c" and "in_range c loc"
  obtains rd g where "call_policy (rp_touch_occ P now occ) (Some loc) c = Inr (with_policy rd g c)"
    and "cm_ok ok (with_policy rd g c)"
  by (rule call_policy_ok [OF assms, where f = "rp_touch_occ P now occ"])
    (erule (2) touch_occ_ok, rule that)

lemma call_reset:
  assumes "cm_ok ok c" and "in_range c loc"
  obtains rd g where "call_policy (rp_reset P now) (Some loc) c = Inr (with_policy rd g c)"
    and "cm_ok ok (with_policy rd g c)"
  by (rule call_policy_ok [OF assms, where f = "rp_reset P now"]) (erule (2) reset_ok, rule that)

lemma call_invalidate:
  assumes "cm_ok ok c" and "in_range c loc"
  obtains rd g where "call_policy (rp_invalidate P now) (Some loc) c = Inr (with_policy rd g c)"
    and "cm_ok ok (with_policy rd g c)"
  by (rule call_policy_ok [OF assms, where f = "rp_invalidate P now"]) (erule (2) invalidate_ok, rule that)

lemma touch_entry_spec:
  assumes "cm_ok ok c" and "blocks c a = Some x" and "m_tag_index c a = Some e"
  obtains c' where "touch_entry P now (decode_loc e) c = Inr c'" and "cm_ok ok c'"
    and "blocks c' = (blocks c)(a \<mapsto> entry_setLastAccess now x)"
    and "m_tag_index c' = m_tag_index c"
    and "entry_at c' (decode_loc e) = Inr (entry_setLastAccess now x)"
proof -
  have inv: "cm_inv c" using assms(1) by (simp add: cm_ok_def)
  obtain f where "m_tag_index c a = Some f" "in_range c (decode_loc f)"
    "slot c (decode_loc f) = Some x" "replacementData x = Some (decode_loc f)"
    "m_Permission x \<noteq> NotPresent"
    using blocks_Some [OF inv assms(2)] .
  with assms(3) have x: "in_range c (decode_loc e)" "slot c (decode_loc e) = Some x"
    "replacementData x = Some (decode_loc e)" "m_Permission x \<noteq> NotPresent" by auto
  obtain rd g where p: "call_policy (rp_touch P now) (Some (decode_loc e)) c = Inr (with_policy rd g c)"
    "cm_ok ok (with_policy rd g c)" using call_touch [OF assms(1) x(1)] .
  let ?c1 = "with_policy rd g c"
  let ?c' = "set_entry (decode_loc e) (entry_setLastAccess now x) ?c1"
  have inv1: "cm_inv ?c1" and ok1: "ok g rd" using p(2) by (simp_all add: cm_ok_def)
  have x1: "in_range ?c1 (decode_loc e)" "slot ?c1 (decode_loc e) = Some x" "m_tag_index ?c1 a = Some e"
    using x assms(3) by simp_all
  have r: "touch_entry P now (decode_loc e) c = Inr ?c'"
    using entry_at_slot [OF inv x(1,2)] entry_at_slot [OF inv1 x1(1,2)] p(1) x(3)
    by (simp add: touch_entry_def mod_entry_def)
  have ok': "cm_ok ok ?c'"
    using set_entry_inv [OF inv1 x1(3,2)] ok1 by (simp add: cm_ok_def)
  have b: "blocks ?c' = (blocks c)(a \<mapsto> entry_setLastAccess now x)"
    using blocks_set_entry [OF inv1 x1(3)] x(4) by (simp add: entry_setLastAccess_def)
  have at: "entry_at ?c' (decode_loc e) = Inr (entry_setLastAccess now x)"
    using ok' x1(1) by (intro entry_at_slot) (simp_all add: cm_ok_def slot_set_entry [OF inv1 x1(1)])
  show thesis by (rule that [OF r ok' b _ at]) simp
qed

lemma setMRU_spec:
  assumes "cm_ok ok c"
  shows "\<exists>c'. setMRU P now addr c = Inr c' \<and> cm_ok ok c' \<and>
    (let a = maskLowOrderBits addr (line_bits c) in
     blocks c' = (blocks c)(a := map_option (\<lambda>x. entry_setLastAccess now (expire_entry now x)) (blocks c a)))"
proof -
  have inv: "cm_inv c" using assms by (simp add: cm_ok_def)
  let ?a = "maskLowOrderBits addr (line_bits c)"
  have line: "cm_makeLineAddress c addr = Inr ?a" "is_line c ?a"
    by (simp_all add: cm_makeLineAddress_config cm_inv_dims(3) [OF inv] is_line_makeLine)
  obtain p c1 where l: "cm_lookup now ?a c = Inr (p, c1)" "cm_inv c1"
    "blocks c1 = (blocks c)(?a := map_option (expire_entry now) (blocks c ?a))"
    "p = present_loc c ?a" "replacement_data c1 = replacement_data c"
    "repl_state c1 = repl_state c" "m_tag_index c1 = m_tag_index c"
    using cm_lookup_spec [OF inv line(2), of now] .
  have ok1: "cm_ok ok c1" using l assms by (simp add: cm_ok_def)
  show ?thesis
  proof (cases "blocks c ?a")
    case None
    then show ?thesis using l ok1 line
      by (simp add: setMRU_def present_loc_def Let_def)
  next
    case (Some x)
    obtain e where e: "m_tag_index c ?a = Some e" using blocks_Some [OF inv Some] .
    have "blocks c1 ?a = Some (expire_entry now x)" using l(3) Some by simp
    then obtain c' where "touch_entry P now (decode_loc e) c1 = Inr c'" "cm_ok ok c'"
      "blocks c' = (blocks c1)(?a \<mapsto> entry_setLastAccess now (expire_entry now x))"
      using touch_entry_spec [OF ok1, of ?a "expire_entry now x" e now] e l(7) by auto
    then show ?thesis using l Some e line by (simp add: setMRU_def present_loc_def Let_def)
  qed
qed

end

end
