(* ===== verification/Cache_Operations.thy ===== *)
theory Cache_Operations
  imports Cache_Invariant
begin

text \<open>
  Allocation, eviction and the choice of a victim, as operations on the map of present blocks.
  Everything that involves the replacement policy is proved in the context of its contract.
\<close>

section \<open>The tag index under insertion and removal\<close>

text \<open>Removing the tag of an entry that is not present.\<close>

lemma drop_index_inv:
  assumes inv: "cm_inv c" and ix: "m_tag_index c b = Some e"
    and x: "slot c (decode_loc e) = Some x" "m_Permission x = NotPresent"
  shows "cm_inv (c\<lparr>m_tag_index := (m_tag_index c)(b := None)\<rparr>)"
    and "blocks (c\<lparr>m_tag_index := (m_tag_index c)(b := None)\<rparr>) = blocks c"
proof -
  let ?c = "c\<lparr>m_tag_index := (m_tag_index c)(b := None)\<rparr>"
  have "index_ok ?c"
    unfolding index_ok_def
  proof (intro conjI allI impI)
    fix a f assume "m_tag_index ?c a = Some f"
    then have f: "m_tag_index c a = Some f" by (simp split: if_splits)
    obtain z where z: "is_line c a" "in_range c (decode_loc f)" "slot c (decode_loc f) = Some z"
      "m_Address z = a" using indexed [OF inv f] .
    show "is_line ?c a" using z by simp
    show "fst (decode_loc f) < m_cache_num_sets ?c" "snd (decode_loc f) < m_cache_assoc ?c"
      using z by simp_all
    show "\<exists>x. slot ?c (decode_loc f) = Some x \<and> m_Address x = a" using z by simp
  next
    fix loc z assume r: "in_range ?c loc" and z: "slot ?c loc = Some z"
    then have r': "in_range c loc" "slot c loc = Some z" by simp_all
    show "replacementData z = Some loc" using present(1) [OF inv r'] .
    assume p: "m_Permission z \<noteq> NotPresent"
    have pz: "m_tag_index c (m_Address z) = Some (encode_loc (fst loc) (snd loc))"
      using present(2) [OF inv r' p] .
    have "m_Address z \<noteq> b"
    proof
      assume "m_Address z = b"
      then have "e = encode_loc (fst loc) (snd loc)" using pz ix by simp
      then have "decode_loc e = loc" using decode_encode_loc [OF inv r'(1)] by simp
      then show False using x r'(2) p by simp
    qed
    then show "m_tag_index ?c (m_Address z) = Some (encode_loc (fst loc) (snd loc))"
      using pz by simp
  qed
  then show "cm_inv ?c" using inv by (simp add: cm_inv_def)
  have "blocks c b = None" using ix x by (simp add: blocks_def)
  then show "blocks ?c = blocks c" by (auto simp: blocks_def fun_eq_iff)
qed

text \<open>Placing an entry with a new tag at a position no tag points to.\<close>

lemma place_entry_inv:
  assumes inv: "cm_inv c" and r: "in_range c loc" and a: "is_line c a" "m_tag_index c a = None"
    and free: "\<And>b f. m_tag_index c b = Some f \<Longrightarrow> decode_loc f \<noteq> loc"
    and x: "m_Address x = a" "replacementData x = Some loc"
  defines "c' \<equiv> set_entry loc x (c\<lparr>m_tag_index := (m_tag_index c)(a \<mapsto> encode_loc (fst loc) (snd loc))\<rparr>)"
  shows "cm_inv c'"
    and "blocks c' = (blocks c)(a := (if m_Permission x \<noteq> NotPresent then Some x else None))"
proof -
  have s: "slot c' l = (if l = loc then Some x else slot c l)" for l
    using slot_set_entry [OF inv r, of x l] by (simp add: c'_def set_entry_def)
  have i: "m_tag_index c' = (m_tag_index c)(a \<mapsto> encode_loc (fst loc) (snd loc))"
    by (simp add: c'_def)
  have d: "decode_loc (encode_loc (fst loc) (snd loc)) = loc" by (rule decode_encode_loc [OF inv r])
  have f: "m_cache_num_sets c' = m_cache_num_sets c" "m_cache_assoc c' = m_cache_assoc c"
    "is_line c' = is_line c" by (simp_all add: c'_def)
  have "index_ok c'"
    unfolding index_ok_def
  proof (intro conjI allI impI)
    fix b e assume b: "m_tag_index c' b = Some e"
    have "is_line c b \<and> in_range c (decode_loc e) \<and> (\<exists>y. slot c' (decode_loc e) = Some y \<and> m_Address y = b)"
    proof (cases "b = a")
      case True
      then show ?thesis using b i d r x a by (simp add: s)
    next
      case False
      then have e: "m_tag_index c b = Some e" using b i by simp
      obtain y where "is_line c b" "in_range c (decode_loc e)" "slot c (decode_loc e) = Some y"
        "m_Address y = b" using indexed [OF inv e] .
      then show ?thesis using free [OF e] by (simp add: s)
    qed
    then show "is_line c' b" "fst (decode_loc e) < m_cache_num_sets c'"
      "snd (decode_loc e) < m_cache_assoc c'"
      "\<exists>y. slot c' (decode_loc e) = Some y \<and> m_Address y = b" using f by simp_all
  next
    fix l z assume l: "in_range c' l" and z: "slot c' l = Some z"
    have l': "in_range c l" using l f by simp
    show "replacementData z = Some l"
      using z x present(1) [OF inv l'] by (auto simp: s split: if_splits)
    assume p: "m_Permission z \<noteq> NotPresent"
    show "m_tag_index c' (m_Address z) = Some (encode_loc (fst l) (snd l))"
    proof (cases "l = loc")
      case True
      then show ?thesis using z x i by (simp add: s)
    next
      case False
      then have "m_tag_index c (m_Address z) = Some (encode_loc (fst l) (snd l))"
        using present(2) [OF inv l' _ p] z by (simp add: s)
      then show ?thesis using i a by auto
    qed
  qed
  moreover have "shape c'"
    unfolding c'_def using inv r by (intro shape_set_entry) (simp_all add: cm_inv_def)
  ultimately show "cm_inv c'" using inv by (simp add: cm_inv_def c'_def)
  show "blocks c' = (blocks c)(a := (if m_Permission x \<noteq> NotPresent then Some x else None))"
  proof
    fix b
    show "blocks c' b = ((blocks c)(a := (if m_Permission x \<noteq> NotPresent then Some x else None))) b"
      using free [of b] d
      by (cases "b = a"; cases "m_tag_index c b") (simp_all add: blocks_def s i)
  qed
qed

lemma erase_stale_tag_inv:
  assumes inv: "cm_inv c" and r: "in_range c loc" and old: "slot c loc = Some old" "m_Permission old = NotPresent"
  shows "cm_inv (erase_stale_tag loc old c)" and "blocks (erase_stale_tag loc old c) = blocks c"
    and "\<And>b f. m_tag_index (erase_stale_tag loc old c) b = Some f \<Longrightarrow> decode_loc f \<noteq> loc"
proof -
  have key: "b = m_Address old" if "m_tag_index c b = Some f" "decode_loc f = loc" for b f
    using indexed [OF inv that(1)] that(2) old(1) by (metis option.inject)
  show "cm_inv (erase_stale_tag loc old c)" "blocks (erase_stale_tag loc old c) = blocks c"
    using inv old drop_index_inv [OF inv, of "m_Address old"]
    by (auto simp: erase_stale_tag_def decode_loc_def split: option.splits)
  show "decode_loc f \<noteq> loc" if "m_tag_index (erase_stale_tag loc old c) b = Some f" for b f
  proof
    assume l: "decode_loc f = loc"
    have "m_tag_index c b = Some f"
      using that by (auto simp: erase_stale_tag_def split: option.splits if_splits)
    then show False
      using key l that by (auto simp: erase_stale_tag_def decode_loc_def split: option.splits if_splits)
  qed
qed

lemma erase_stale_tag_frame [cm_frame, simp]:
  "m_cache (erase_stale_tag loc old c) = m_cache c"
  "m_cache_num_sets (erase_stale_tag loc old c) = m_cache_num_sets c"
  "m_cache_assoc (erase_stale_tag loc old c) = m_cache_assoc c"
  "replacement_data (erase_stale_tag loc old c) = replacement_data c"
  "repl_state (erase_stale_tag loc old c) = repl_state c"
  "m_is_sttram (erase_stale_tag loc old c) = m_is_sttram c"
  "m_retention_table (erase_stale_tag loc old c) = m_retention_table c"
  "is_line (erase_stale_tag loc old c) = is_line c"
  "zone_of (erase_stale_tag loc old c) = zone_of c"
  by (auto simp: erase_stale_tag_def zone_of_def fun_eq_iff split: option.splits)

lemma erase_stale_tag_None:
  "m_tag_index c a = None \<Longrightarrow> m_tag_index (erase_stale_tag loc old c) a = None"
  by (auto simp: erase_stale_tag_def split: option.splits)

section \<open>Allocation and deallocation\<close>

text \<open>What \<open>allocate\<close> makes of an entry.\<close>

definition allocated :: "Tick \<Rightarrow> Tick \<Rightarrow> 'e cache_entry_scheme \<Rightarrow> 'e cache_entry_scheme" where
  "allocated now limit x =
     x\<lparr>m_is_expired := False, m_Permission := PermInvalid, m_retention_limit := limit,
       m_last_touch_tick := now, m_last_refresh_tick := now\<rparr>"

definition limit_at :: "('d, 'g, 'e) cache_memory \<Rightarrow> nat \<Rightarrow> Tick" where
  "limit_at c s = lt_time (m_retention_table c ! zone_of c s)"

text \<open>The entry that stands for an address after \<open>allocate\<close>, at position \<open>loc\<close>.\<close>

definition allocate_result ::
  "Tick \<Rightarrow> Addr \<Rightarrow> 'e cache_entry_scheme \<Rightarrow> nat \<times> nat \<Rightarrow> ('d, 'g, 'e) cache_memory \<Rightarrow>
   'e cache_entry_scheme" where
  "allocate_result now a entry loc c =
     (case m_tag_index c a of
        Some _ \<Rightarrow> allocated now (limit_at c (fst loc)) (the (slot c loc))
      | None \<Rightarrow> allocated now (if m_is_sttram c then limit_at c (fst loc) else 0)
                  (entry\<lparr>replacementData := Some loc, m_Address := a\<rparr>))"

lemma zone_of_frame [cm_frame, simp]:
  "zone_of (c\<lparr>m_tag_index := a1\<rparr>) = zone_of c"
  "zone_of (c\<lparr>m_cache := a2\<rparr>) = zone_of c"
  by (simp_all add: zone_of_def fun_eq_iff)

context replacement_policy
begin

lemma allocate_reuse_spec:
  assumes okc: "cm_ok ok c" and ix: "m_tag_index c a = Some e" and x: "slot c (decode_loc e) = Some x"
  obtains c' where "allocate_reuse P now a (decode_loc e) c = Inr (decode_loc e, c')"
    and "cm_ok ok c'"
    and "blocks c' = (blocks c)(a \<mapsto> allocated now (limit_at c (fst (decode_loc e))) x)"
    and "m_tag_index c' = m_tag_index c"
proof -
  have inv: "cm_inv c" using okc by (simp add: cm_ok_def)
  let ?l = "decode_loc e" and ?x = "allocated now (limit_at c (fst (decode_loc e))) x"
  obtain y where "in_range c ?l" "slot c ?l = Some y" "replacementData y = Some ?l"
    using indexed [OF inv ix] .
  with x have r: "in_range c ?l" "replacementData x = Some ?l" by auto
  let ?c1 = "bump_zombies x c" and ?c2 = "set_entry ?l ?x (bump_zombies x c)"
  have inv1: "cm_inv ?c1" using inv by simp
  have x1: "slot ?c1 ?l = Some x" "m_tag_index ?c1 a = Some e" "in_range ?c1 ?l"
    using x ix r by simp_all
  have ok2: "cm_ok ok ?c2"
    using set_entry_inv [OF inv1 x1(2,1), of ?x] okc
    by (simp add: cm_ok_def same_place_def allocated_def)
  have r2: "in_range ?c2 ?l" using r by simp
  obtain rd g where p: "call_policy (rp_reset P now) (Some ?l) ?c2 = Inr (with_policy rd g ?c2)"
    "cm_ok ok (with_policy rd g ?c2)" using call_reset [OF ok2 r2, of now] .
  let ?c' = "with_policy rd g ?c2"
  have lim: "zone_time ?c1 (fst ?l) = Inr (limit_at c (fst ?l))"
    using zone_time_config [OF cm_inv_dims(3) [OF inv1]] by (simp add: limit_at_def)
  have at: "entry_at c ?l = Inr x" by (rule entry_at_slot [OF inv r(1) x])
  have e: "(m_tag_index ?c')(a \<mapsto> encode_loc (fst ?l) (snd ?l)) = m_tag_index ?c'"
    using ix by (simp add: encode_decode_loc fun_upd_idem)
  have "allocate_reuse P now a ?l c = Inr (?l, ?c'\<lparr>m_tag_index := m_tag_index ?c'\<rparr>)"
    using at lim p(1) r(2) e
    by (simp add: allocate_reuse_def Let_def entry_setLastAccess_def allocated_def)
  then have a1: "allocate_reuse P now a ?l c = Inr (?l, ?c')" by simp
  have "blocks ?c' = (blocks c)(a \<mapsto> ?x)"
    using blocks_set_entry [OF inv1 x1(2), of ?x] by (simp add: allocated_def)
  then show thesis using that [OF a1 p(2)] by simp
qed

lemma allocate_new_spec:
  fixes now :: Tick and entry :: "'e cache_entry_scheme"
  assumes okc: "cm_ok ok c" and a: "is_line c a" "m_tag_index c a = None"
    and r: "in_range c loc" and free: "slot_free (slot c loc)"
  defines "x \<equiv> allocated now (if m_is_sttram c then limit_at c (fst loc) else 0)
    (entry\<lparr>replacementData := Some loc, m_Address := a\<rparr>)"
  obtains c' where "allocate_new P now a entry loc c = Inr (loc, c')" and "cm_ok ok c'"
    and "blocks c' = (blocks c)(a \<mapsto> x)"
    and "m_tag_index c' a = Some (encode_loc (fst loc) (snd loc))"
proof -
  have inv: "cm_inv c" using okc by (simp add: cm_ok_def)
  define c1 where "c1 = (case slot c loc of None \<Rightarrow> c
    | Some old \<Rightarrow> erase_stale_tag loc old (bump_zombies old c))"
  have f1: "m_cache_num_sets c1 = m_cache_num_sets c" "m_cache_assoc c1 = m_cache_assoc c"
    "is_line c1 = is_line c" "repl_state c1 = repl_state c"
    "replacement_data c1 = replacement_data c" "m_is_sttram c1 = m_is_sttram c"
    "zone_of c1 = zone_of c" "m_retention_table c1 = m_retention_table c"
    by (auto simp: c1_def split: option.splits)
  have c1: "cm_inv c1 \<and> blocks c1 = blocks c \<and> m_tag_index c1 a = None \<and>
      (\<forall>b f. m_tag_index c1 b = Some f \<longrightarrow> decode_loc f \<noteq> loc)"
  proof (cases "slot c loc")
    case None
    then show ?thesis using inv a indexed [OF inv]
      by (simp add: c1_def) (metis option.distinct(1))
  next
    case (Some old)
    have i: "cm_inv (bump_zombies old c)" "in_range (bump_zombies old c) loc"
      "slot (bump_zombies old c) loc = Some old" "m_Permission old = NotPresent"
      using inv r Some free by (simp_all add: slot_free_def)
    show ?thesis
      using erase_stale_tag_inv [OF i] a erase_stale_tag_None [of "bump_zombies old c" a]
      by (simp add: c1_def Some)
  qed
  let ?c2 = "c1\<lparr>m_tag_index := (m_tag_index c1)(a \<mapsto> encode_loc (fst loc) (snd loc))\<rparr>"
  have x: "m_Address x = a" "replacementData x = Some loc" "m_Permission x = PermInvalid"
    by (simp_all add: x_def allocated_def)
  have place: "cm_inv (set_entry loc x ?c2)" "blocks (set_entry loc x ?c2) = (blocks c)(a \<mapsto> x)"
    using place_entry_inv [of c1 loc a x] c1 a r f1 x by auto
  have ok3: "cm_ok ok (set_entry loc x ?c2)" using place(1) okc f1 by (simp add: cm_ok_def)
  have r3: "in_range (set_entry loc x ?c2) loc" using r f1 by simp
  obtain rd g where p: "call_policy (rp_reset P now) (Some loc) (set_entry loc x ?c2) =
      Inr (with_policy rd g (set_entry loc x ?c2))" "cm_ok ok (with_policy rd g (set_entry loc x ?c2))"
    using call_reset [OF ok3 r3, of now] .
  have lim: "zone_time ?c2 (fst loc) = Inr (limit_at c (fst loc))"
    using zone_time_config [of ?c2] cm_inv_dims(3) [of c1] c1 f1 by (simp add: limit_at_def)
  have rd: "nth2E (replacement_data c1) (fst loc) (snd loc) = Inr (replacement_data c ! fst loc ! snd loc)"
    using nth2E_in_range [OF cm_inv_dims(2) [OF inv]] r f1 by simp
  have "allocate_new P now a entry loc c = Inr (loc, with_policy rd g (set_entry loc x ?c2))"
    using nth2E_slot [OF inv r] rd lim p(1) f1
    by (simp add: allocate_new_def Let_def c1_def [symmetric] entry_setLastAccess_def
        x_def allocated_def split: if_splits)
  then show thesis using that p(2) place(2) by simp
qed

lemma deallocate_spec:
  assumes okc: "cm_ok ok c" and a: "is_line c a"
  obtains c' where "deallocate P now a c = Inr c'" and "cm_ok ok c'"
    and "blocks c' = (blocks c)(a := None)" and "m_tag_index c' = (m_tag_index c)(a := None)"
    and "\<And>e. m_tag_index c a = Some e \<Longrightarrow> slot_free (slot c' (decode_loc e))"
    and "addressToCacheSet c' = addressToCacheSet c" and "is_line c' = is_line c"
    and "m_cache_num_sets c' = m_cache_num_sets c" and "m_cache_assoc c' = m_cache_assoc c"
proof -
  have inv: "cm_inv c" using okc by (simp add: cm_ok_def)
  obtain s where s: "addressToCacheSet c a = Inr s" using addressToCacheSet_inv [OF inv a] .
  note find = findTagInSetIgnorePermissions_inv [OF inv a]
  show thesis
  proof (cases "m_tag_index c a")
    case None
    then have d: "deallocate P now a c = Inr c" and n: "blocks c a = None"
      using s find by (simp_all add: deallocate_def blocks_def)
    show thesis
      by (rule that [OF d okc]) (use None n in \<open>simp_all add: fun_upd_idem\<close>)
  next
    case (Some e)
    let ?l = "decode_loc e"
    obtain x where x: "in_range c ?l" "slot c ?l = Some x" "replacementData x = Some ?l"
      using indexed [OF inv Some] .
    let ?c1 = "bump_zombies x c" and ?x = "x\<lparr>m_Permission := NotPresent\<rparr>"
    have ok1: "cm_ok ok ?c1" and r1: "in_range ?c1 ?l" using okc x by (simp_all add: cm_ok_def)
    obtain rd g where p: "call_policy (rp_invalidate P now) (Some ?l) ?c1 = Inr (with_policy rd g ?c1)"
      "cm_ok ok (with_policy rd g ?c1)" using call_invalidate [OF ok1 r1, of now] .
    let ?c2 = "with_policy rd g ?c1" and ?c3 = "set_entry ?l ?x (with_policy rd g ?c1)"
    have inv2: "cm_inv ?c2" and ok2: "ok g rd" using p(2) by (simp_all add: cm_ok_def)
    have x2: "m_tag_index ?c2 a = Some e" "slot ?c2 ?l = Some x" "in_range ?c2 ?l"
      using Some x by simp_all
    have inv3: "cm_inv ?c3"
      by (rule set_entry_inv [OF inv2 x2(1,2)]) (simp add: same_place_def)
    have x3: "m_tag_index ?c3 a = Some e" "slot ?c3 ?l = Some ?x"
      using Some by (simp_all add: slot_set_entry [OF inv2 x2(3)])
    let ?c' = "?c3\<lparr>m_tag_index := (m_tag_index ?c3)(a := None)\<rparr>"
    have d: "deallocate P now a c = Inr ?c'"
      using s find Some entry_at_slot [OF inv x(1,2)] p(1) x(3)
      by (simp add: deallocate_def Let_def)
    have inv': "cm_inv ?c'" "blocks ?c' = blocks ?c3"
      using drop_index_inv [OF inv3 x3] by simp_all
    have ok': "cm_ok ok ?c'" using inv' ok2 by (simp add: cm_ok_def)
    have b: "blocks ?c' = (blocks c)(a := None)"
      using inv'(2) blocks_set_entry [OF inv2 x2(1), of ?x] by simp
    have "slot ?c' ?l = Some ?x" using x3(2) by simp
    then have f: "slot_free (slot ?c' (decode_loc f))" if "m_tag_index c a = Some f" for f
      using that Some by (simp add: slot_free_def)
    show thesis by (rule that [OF d ok' b _ f]) simp_all
  qed
qed

end

section \<open>Room for an address\<close>

lemma cacheAvail_spec:
  assumes "cm_inv c" and "is_line c a" and s: "addressToCacheSet c a = Inr s"
  shows "cacheAvail a c = Inr (m_tag_index c a \<noteq> None \<or>
    (\<exists>w < m_cache_assoc c. slot_free (slot c (s, w))))"
proof -
  note d = cm_inv_dims(1) [OF assms(1)]
  have sn: "s < m_cache_num_sets c"
    using addressToCacheSet_Inr(3) [OF cm_inv_dims(3) [OF assms(1)] s] .
  have row: "nthE (m_cache c) s = Inr (m_cache c ! s)" "length (m_cache c ! s) = m_cache_assoc c"
    using sn d by (simp_all add: nthE_def dims_length)
  show ?thesis
  proof (cases "m_tag_index c a")
    case None
    have "(find_idx (\<lambda>i. slot_free (m_cache c ! s ! i)) (m_cache_assoc c) \<noteq> None) =
        (\<exists>w < m_cache_assoc c. slot_free (m_cache c ! s ! w))"
      unfolding find_idx_None by blast
    then show ?thesis
      using None s row
      by (simp add: cacheAvail_def findTagInSetIgnorePermissions_inv [OF assms(1,2)] findE_length
          del: not_None_eq)
  next
    case (Some e)
    then show ?thesis
      using s by (simp add: cacheAvail_def findTagInSetIgnorePermissions_inv [OF assms(1,2)])
  qed
qed

context replacement_policy
begin

text \<open>\<open>allocate\<close> succeeds exactly when there is room.\<close>

lemma allocate_spec:
  assumes okc: "cm_ok ok c" and a: "is_line c a" and avail: "cacheAvail a c = Inr True"
  obtains loc c' where "allocate P now a entry c = Inr (loc, c')" and "cm_ok ok c'"
    and "blocks c' = (blocks c)(a \<mapsto> allocate_result now a entry loc c)"
    and "present_loc c' a = Some loc"
    and "m_tag_index c a = None \<Longrightarrow> addressToCacheSet c a = Inr (fst loc)"
proof -
  have inv: "cm_inv c" using okc by (simp add: cm_ok_def)
  obtain s where s: "addressToCacheSet c a = Inr s" "s < m_cache_num_sets c"
    using addressToCacheSet_inv [OF inv a] .
  note find = findTagInSetIgnorePermissions_inv [OF inv a]
  show thesis
  proof (cases "m_tag_index c a")
    case (Some e)
    let ?l = "decode_loc e"
    obtain x where x: "slot c ?l = Some x" using indexed [OF inv Some] .
    obtain c' where c': "allocate_reuse P now a ?l c = Inr (?l, c')" "cm_ok ok c'"
      "blocks c' = (blocks c)(a \<mapsto> allocated now (limit_at c (fst ?l)) x)"
      "m_tag_index c' = m_tag_index c" using allocate_reuse_spec [OF okc Some x, of now] .
    have al: "allocate P now a entry c = Inr (?l, c')" using s find Some c'(1) by (simp add: allocate_def)
    have b: "blocks c' = (blocks c)(a \<mapsto> allocate_result now a entry ?l c)"
      using c'(3) Some x by (simp add: allocate_result_def)
    show thesis
      by (rule that [OF al c'(2) b]) (use Some b c'(4) in \<open>simp_all add: present_loc_def\<close>)
  next
    case None
    have "\<exists>w < m_cache_assoc c. slot_free (slot c (s, w))"
      using avail None cacheAvail_spec [OF inv a s(1)] by simp
    then obtain w where w: "find_idx (\<lambda>i. slot_free (m_cache c ! s ! i)) (m_cache_assoc c) = Some w"
      using find_idx_ex [of _ "m_cache_assoc c" "\<lambda>i. slot_free (m_cache c ! s ! i)"] by auto
    have r: "in_range c (s, w)" "slot_free (slot c (s, w))"
      using find_idx_Some [OF w] s by simp_all
    obtain c' where c': "allocate_new P now a entry (s, w) c = Inr ((s, w), c')" "cm_ok ok c'"
      "blocks c' = (blocks c)(a \<mapsto> allocated now (if m_is_sttram c then limit_at c (fst (s, w)) else 0)
        (entry\<lparr>replacementData := Some (s, w), m_Address := a\<rparr>))"
      "m_tag_index c' a = Some (encode_loc (fst (s, w)) (snd (s, w)))"
      using allocate_new_spec [OF okc a None r, of now entry] .
    have row: "nthE (m_cache c) s = Inr (m_cache c ! s)" "length (m_cache c ! s) = m_cache_assoc c"
      using s(2) cm_inv_dims(1) [OF inv] by (simp_all add: nthE_def dims_length)
    have al: "allocate P now a entry c = Inr ((s, w), c')"
      using s find None row c'(1) w by (simp add: allocate_def findE_length)
    have b: "blocks c' = (blocks c)(a \<mapsto> allocate_result now a entry (s, w) c)"
      using c'(3) None by (simp add: allocate_result_def)
    have "present_loc c' a = Some (s, w)"
      using b c'(4) decode_encode_loc [OF inv r(1)] by (simp add: present_loc_def)
    then show thesis using that [OF al c'(2) b] s(1) by simp
  qed
qed

lemma allocate_full:
  assumes okc: "cm_ok ok c" and a: "is_line c a" and full: "cacheAvail a c = Inr False"
  shows "allocate P now a entry c = Inl (Panic ''Set is full. No expired or invalid blocks to evict.'')"
proof -
  have inv: "cm_inv c" using okc by (simp add: cm_ok_def)
  obtain s where s: "addressToCacheSet c a = Inr s" "s < m_cache_num_sets c"
    using addressToCacheSet_inv [OF inv a] .
  have n: "m_tag_index c a = None" "\<forall>w < m_cache_assoc c. \<not> slot_free (m_cache c ! s ! w)"
    using full cacheAvail_spec [OF inv a s(1)] by simp_all
  have row: "nthE (m_cache c) s = Inr (m_cache c ! s)" "length (m_cache c ! s) = m_cache_assoc c"
    using s(2) cm_inv_dims(1) [OF inv] by (simp_all add: nthE_def dims_length)
  have "find_idx (\<lambda>i. slot_free (m_cache c ! s ! i)) (m_cache_assoc c) = None"
    using n(2) by (simp add: find_idx_None)
  then show ?thesis
    using s n(1) row findTagInSetIgnorePermissions_inv [OF inv a]
    by (simp add: allocate_def findE_length)
qed

end

section \<open>Choice of a victim\<close>

text \<open>The loop for the oldest block that is not busy.\<close>

definition idle :: "'e cache_entry_scheme option \<Rightarrow> bool" where
  "idle p \<longleftrightarrow> (case p of None \<Rightarrow> False | Some e \<Rightarrow> m_Permission e \<noteq> Busy)"

lemma oldest_idle_Some:
  "oldest_idle ps i t sw = Some j \<Longrightarrow>
     sw = Some j \<or> (i \<le> j \<and> j < i + length ps \<and> idle (ps ! (j - i)))"
proof (induction ps arbitrary: i t sw)
  case (Cons p ps)
  show ?case
  proof (cases "sw = Some j")
    case False
    have "oldest_idle ps (i + 1) t sw = Some j \<or>
        (idle p \<and> (\<exists>t'. oldest_idle ps (i + 1) t' (Some i) = Some j))"
      using Cons.prems by (auto simp: idle_def split: option.splits if_splits)
    then show ?thesis
    proof
      assume "oldest_idle ps (i + 1) t sw = Some j"
      then have "i + 1 \<le> j \<and> j < i + 1 + length ps \<and> idle (ps ! (j - (i + 1)))"
        using Cons.IH False by blast
      then show ?thesis by (auto simp: nth_Cons')
    next
      assume h: "idle p \<and> (\<exists>t'. oldest_idle ps (i + 1) t' (Some i) = Some j)"
      then have "i = j \<or> (i + 1 \<le> j \<and> j < i + 1 + length ps \<and> idle (ps ! (j - (i + 1))))"
        using Cons.IH by blast
      then show ?thesis using h by (auto simp: nth_Cons')
    qed
  qed simp
qed simp

lemma oldest_idle_None:
  "oldest_idle ps i t sw = None \<Longrightarrow>
     sw = None \<and> (\<forall>e. Some e \<in> set ps \<longrightarrow> m_Permission e \<noteq> Busy \<longrightarrow> t \<le> m_last_touch_tick e)"
proof (induction ps arbitrary: i t sw)
  case (Cons p ps)
  then show ?case
    by (cases p) (auto simp: not_less split: if_splits)
qed simp

lemma write_back_row:
  "s < length rd \<Longrightarrow> i + length ds = length (rd ! s) \<Longrightarrow>
     write_back (map (Pair s) [i..<i + length ds]) ds rd = rd[s := take i (rd ! s) @ ds]"
proof (induction ds arbitrary: i rd)
  case Nil
  then show ?case by simp
next
  case (Cons d ds)
  let ?rd = "upd2 rd s i d"
  have "write_back (map (Pair s) [i + 1..<i + 1 + length ds]) ds ?rd =
      ?rd[s := take (i + 1) (?rd ! s) @ ds]"
    using Cons.prems by (intro Cons.IH) (simp_all add: upd2_def)
  moreover have "take (i + 1) (?rd ! s) = take i (rd ! s) @ [d]"
    using Cons.prems by (simp add: upd2_def take_Suc_conv_app_nth)
  moreover have "?rd[s := xs] = rd[s := xs]" for xs by (simp add: upd2_def)
  moreover have "[i..<i + length (d # ds)] = i # [i + 1..<i + 1 + length ds]"
    by (subst upt_rec) simp
  ultimately show ?case by simp
qed

lemma write_back_all:
  assumes "s < length rd" and "length ds = length (rd ! s)"
  shows "write_back (map (Pair s) [0..<length ds]) ds rd = rd[s := ds]"
  using write_back_row [of s rd 0 ds] assms by simp

context replacement_policy
begin

lemma policy_victim_spec:
  assumes okc: "cm_ok ok c" and s: "s < m_cache_num_sets c"
    and full: "\<forall>w < m_cache_assoc c. slot c (s, w) \<noteq> None"
  obtains v rd g where "policy_victim P (take (m_cache_assoc c) (m_cache c ! s)) c =
      Inr (v, with_policy rd g c)"
    and "v < m_cache_assoc c" and "cm_ok ok (with_policy rd g c)"
proof -
  have inv: "cm_inv c" and okr: "ok (repl_state c) (replacement_data c)"
    using okc by (simp_all add: cm_ok_def)
  let ?k = "m_cache_assoc c" and ?row = "m_cache c ! s" and ?rd = "replacement_data c"
  have len: "length ?row = ?k" "s < length ?rd" "length (?rd ! s) = ?k" "0 < ?k"
    using cm_inv_dims [OF inv] s by (simp_all add: dims_length cm_config_def)
  have loc: "candidate_loc (?row ! w) = Inr (s, w)" if w: "w < ?k" for w
  proof -
    obtain x where x: "?row ! w = Some x" using full w by auto
    then show ?thesis using present(1) [OF inv, of "(s, w)" x] s w by (simp add: candidate_loc_def)
  qed
  have row: "take ?k ?row = map (\<lambda>w. ?row ! w) [0..<?k]"
    using map_nth [of ?row] len(1) by simp
  have mapE_map: "mapE f (map h xs) = mapE (\<lambda>w. f (h w)) xs" for f :: "'x \<Rightarrow> 'y res" and h :: "'z \<Rightarrow> 'x" and xs
    by (induction xs) auto
  have locs: "mapE candidate_loc (take ?k ?row) = Inr (map (Pair s) [0..<?k])"
    unfolding row mapE_map by (rule mapE_all_Inr) (simp add: loc)
  have "mapE (\<lambda>(s, w). nth2E ?rd s w) (map (Pair s) [0..<?k]) = Inr (map (\<lambda>w. ?rd ! s ! w) [0..<?k])"
    unfolding mapE_map using len by (intro mapE_all_Inr) (simp add: nth2E_def nthE_def)
  also have "map (\<lambda>w. ?rd ! s ! w) [0..<?k] = ?rd ! s" using map_nth [of "?rd ! s"] len(3) by simp
  finally have ds: "mapE (\<lambda>(s, w). nth2E ?rd s w) (map (Pair s) [0..<?k]) = Inr (?rd ! s)" .
  have "?rd ! s \<noteq> []" using len by auto
  then obtain v ds' g' where v: "rp_getVictim P (repl_state c) (?rd ! s) = Inr (v, ds', g')"
    "v < length (?rd ! s)" "length ds' = length (?rd ! s)" "ok g' (?rd[s := ds'])"
    using getVictim_ok [OF okr len(2)] by blast
  have wb: "write_back (map (Pair s) [0..<?k]) ds' ?rd = ?rd[s := ds']"
    using write_back_all [of s ?rd ds'] len v(3) by simp
  have pv: "policy_victim P (take ?k ?row) c = Inr (v, with_policy (?rd[s := ds']) g' c)"
    using locs ds v(1) wb by (simp add: policy_victim_def)
  have "dims (m_cache_num_sets c) ?k (?rd[s := ds'])"
    using cm_inv_dims(2) [OF inv] v(3) len(3)
    by (auto simp: dims_def dest!: set_update_subset_insert [THEN subsetD])
  then have "cm_ok ok (with_policy (?rd[s := ds']) g' c)"
    using inv v(4) by (intro cm_ok_with_policy)
  then show thesis using that [OF pv] v(2) len(3) by simp
qed

text \<open>
  In a full set the probe returns the address of one of its blocks.  A block that is expired and
  not busy is preferred; and when the set has a block that is not busy (and was last touched no
  later than now) the victim is not busy.
\<close>

lemma cacheProbe_spec:
  assumes okc: "cm_ok ok c" and a: "is_line c a" and full: "cacheAvail a c = Inr False"
    and s: "addressToCacheSet c a = Inr s"
  obtains v c' w x where "cacheProbe P now a c = Inr (v, c')" and "cm_ok ok c'"
    and "\<exists>rd g. c' = with_policy rd g c"
    and "w < m_cache_assoc c" and "slot c (s, w) = Some x" and "m_Address x = v"
    and "m_Permission x \<noteq> NotPresent"
    and "(\<exists>i < m_cache_assoc c. expired_idle (slot c (s, i))) \<Longrightarrow> expired_idle (Some x)"
    and "now + 1 \<noteq> 0 \<Longrightarrow>
      (\<exists>i < m_cache_assoc c. \<exists>y. slot c (s, i) = Some y \<and> m_Permission y \<noteq> Busy \<and>
         m_last_touch_tick y \<le> now) \<Longrightarrow> m_Permission x \<noteq> Busy"
proof -
  have inv: "cm_inv c" using okc by (simp add: cm_ok_def)
  have sn: "s < m_cache_num_sets c"
    using addressToCacheSet_Inr(3) [OF cm_inv_dims(3) [OF inv] s] .
  let ?k = "m_cache_assoc c" and ?row = "m_cache c ! s"
  have len: "length ?row = ?k" "0 < ?k" and row: "nthE (m_cache c) s = Inr ?row"
    using cm_inv_dims [OF inv] sn by (simp_all add: dims_length cm_config_def nthE_def)
  have "\<forall>w < ?k. \<not> slot_free (?row ! w)"
    using full cacheAvail_spec [OF inv a s] by simp
  then have ent: "\<exists>x. ?row ! w = Some x \<and> m_Permission x \<noteq> NotPresent" if "w < ?k" for w
    using that by (auto simp: slot_free_def split: option.splits)
  have adr: "address_in_row ?row w = Inr (m_Address x)" if "w < ?k" "?row ! w = Some x" for w x
    using that len by (simp add: address_in_row_def nthE_def)
  have pre: "cacheProbe P now a c =
    (case find_idx (\<lambda>i. expired_idle (?row ! i)) ?k of
       Some i \<Rightarrow> bindE (address_in_row ?row i) (\<lambda>a. Inr (a, c))
     | None \<Rightarrow>
         bindE (policy_victim P (take ?k ?row) c) (\<lambda>(v, c1).
         let victim_way = (case find_idx (\<lambda>i. i = v) ?k of None \<Rightarrow> 0 | Some i \<Rightarrow> i) in
         bindE (nthE ?row victim_way) (\<lambda>p.
         bindE (derefE p) (\<lambda>e.
         if m_Permission e = Busy then
           (case oldest_idle (take ?k ?row) 0 (now + 1) None of
              None \<Rightarrow> bindE (address_in_row ?row 0) (\<lambda>a. Inr (a, c1))
            | Some safe_way \<Rightarrow> bindE (address_in_row ?row safe_way) (\<lambda>a. Inr (a, c1)))
         else Inr (m_Address e, c1)))))"
    by (simp only: cacheProbe_def assert_line_inv [OF inv a] full not_False_eq_True assertE_True
        s row findE_length [OF len(1)] bindE_Inr)
  show thesis
  proof (cases "find_idx (\<lambda>i. expired_idle (?row ! i)) ?k")
    case (Some i)
    then have i: "i < ?k" "expired_idle (?row ! i)" using find_idx_Some [OF Some] by simp_all
    obtain x where x: "?row ! i = Some x" "m_Permission x \<noteq> NotPresent" using ent [OF i(1)] by blast
    have p: "cacheProbe P now a c = Inr (m_Address x, c)" using pre Some adr [OF i(1) x(1)] by simp
    have same: "\<exists>rd g. c = with_policy rd g c"
      by (intro exI [of _ "replacement_data c"] exI [of _ "repl_state c"]) simp
    show thesis
      by (rule that [OF p okc same i(1), of x]) (use x i in \<open>auto simp: expired_idle_def\<close>)
  next
    case None
    then have ne: "\<forall>i < ?k. \<not> expired_idle (?row ! i)" by (simp add: find_idx_None)
    have full': "\<forall>w < ?k. slot c (s, w) \<noteq> None" using ent by fastforce
    obtain v rd g where v: "policy_victim P (take ?k ?row) c = Inr (v, with_policy rd g c)"
      "v < ?k" "cm_ok ok (with_policy rd g c)" using policy_victim_spec [OF okc sn full'] .
    obtain j where "find_idx (\<lambda>i. i = v) ?k = Some j"
      using find_idx_ex [of v ?k "\<lambda>i. i = v"] v(2) by blast
    then have fv: "find_idx (\<lambda>i. i = v) ?k = Some v" using find_idx_Some by blast
    obtain e where e: "?row ! v = Some e" "m_Permission e \<noteq> NotPresent" using ent [OF v(2)] by blast
    have nv: "nthE ?row v = Inr (Some e)" using v(2) len e by (simp add: nthE_def)
    show thesis
    proof (cases "m_Permission e = Busy")
      case False
      have p: "cacheProbe P now a c = Inr (m_Address e, with_policy rd g c)"
        using pre None v(1) fv nv False by simp
      show thesis by (rule that [OF p v(3) _ v(2), of e]) (use e False ne in auto)
    next
      case True
      define o' where "o' = oldest_idle (take ?k ?row) 0 (now + 1) None"
      define w where "w = (case o' of None \<Rightarrow> 0 | Some j \<Rightarrow> j)"
      have w: "w < ?k" "o' \<noteq> None \<Longrightarrow> idle (?row ! w)"
        using oldest_idle_Some [of "take ?k ?row" 0 "now + 1" None w] len
        by (auto simp: w_def o'_def split: option.splits)
      obtain x where x: "?row ! w = Some x" "m_Permission x \<noteq> NotPresent" using ent [OF w(1)] by blast
      have p: "cacheProbe P now a c = Inr (m_Address x, with_policy rd g c)"
        using pre None v(1) fv nv True adr [OF w(1) x(1)]
        by (simp add: o'_def [symmetric] w_def split: option.splits)
      have "m_Permission x \<noteq> Busy" if "now + 1 \<noteq> 0" "i < ?k" "?row ! i = Some y"
        "m_Permission y \<noteq> Busy" "m_last_touch_tick y \<le> now" for i y
      proof -
        have "\<not> now + 1 \<le> m_last_touch_tick y" using that(1,5) by unat_arith
        moreover have "Some y \<in> set (take ?k ?row)" using that(2,3) len by (auto simp: in_set_conv_nth)
        ultimately have "o' \<noteq> None" using oldest_idle_None that(4) unfolding o'_def by blast
        then show ?thesis using w(2) x(1) by (simp add: idle_def)
      qed
      then show thesis by (intro that [OF p v(3) _ w(1), of x]) (use x ne in auto)
    qed
  qed
qed

text \<open>A miss in a full set: probe, deallocate the victim, allocate.\<close>

lemma evict_and_allocate:
  assumes okc: "cm_ok ok c" and a: "is_line c a" and full: "cacheAvail a c = Inr False"
  shows "\<exists>v c1 c2 loc c3 x. cacheProbe P t1 a c = Inr (v, c1) \<and> blocks c v \<noteq> None \<and> v \<noteq> a \<and>
    deallocate P t2 v c1 = Inr c2 \<and> cacheAvail a c2 = Inr True \<and>
    allocate P t3 a e c2 = Inr (loc, c3) \<and> addressToCacheSet c a = Inr (fst loc) \<and>
    blocks c3 = (blocks c)(v := None, a \<mapsto> x) \<and> m_Permission x = PermInvalid"
proof -
  have inv: "cm_inv c" using okc by (simp add: cm_ok_def)
  obtain s where s: "addressToCacheSet c a = Inr s" "s < m_cache_num_sets c"
    using addressToCacheSet_inv [OF inv a] .
  obtain v c1 w x where pr: "cacheProbe P t1 a c = Inr (v, c1)" "cm_ok ok c1"
    and wp: "\<exists>rd g. c1 = with_policy rd g c"
    and w: "w < m_cache_assoc c" "slot c (s, w) = Some x" "m_Address x = v" "m_Permission x \<noteq> NotPresent"
    by (rule cacheProbe_spec [OF okc a full s(1), of t1]) (rule that)
  have none: "m_tag_index c a = None" using cacheAvail_spec [OF inv a s(1)] full by simp
  have r: "in_range c (s, w)" using s w by simp
  have v: "blocks c v = Some x" "m_tag_index c v = Some (encode_loc s w)"
    using blocks_present [OF inv r w(2) w(4)] present(2) [OF inv r w(2) w(4)] w(3) by simp_all
  have c1: "blocks c1 = blocks c" "is_line c1 = is_line c" "m_tag_index c1 = m_tag_index c"
    "addressToCacheSet c1 = addressToCacheSet c" "m_cache_assoc c1 = m_cache_assoc c"
    using wp by auto
  have lv: "is_line c1 v" using blocks_Some [OF inv v(1)] c1(2) by metis
  obtain c2 where c2: "deallocate P t2 v c1 = Inr c2" "cm_ok ok c2" "blocks c2 = (blocks c1)(v := None)"
    "m_tag_index c2 = (m_tag_index c1)(v := None)"
    "\<And>e. m_tag_index c1 v = Some e \<Longrightarrow> slot_free (slot c2 (decode_loc e))"
    "addressToCacheSet c2 = addressToCacheSet c1" "is_line c2 = is_line c1" "m_cache_assoc c2 = m_cache_assoc c1"
    by (rule deallocate_spec [OF pr(2) lv, of t2]) (rule that)
  have "decode_loc (encode_loc s w) = (s, w)" using decode_encode_loc [OF inv r] by simp
  then have "slot_free (slot c2 (s, w))" using c2(5) v(2) c1(3) by metis
  moreover have l2: "is_line c2 a" and s2: "addressToCacheSet c2 a = Inr s"
    using a s c1 c2 by simp_all
  moreover have i2: "cm_inv c2" using c2(2) by (simp add: cm_ok_def)
  ultimately have av: "cacheAvail a c2 = Inr True"
    using cacheAvail_spec [OF i2 l2 s2] w(1) c1(5) c2(8) by auto
  have "m_tag_index c2 a = None" using c2(4) c1(3) none by simp
  obtain loc c3 where c3: "allocate P t3 a e c2 = Inr (loc, c3)"
    "blocks c3 = (blocks c2)(a \<mapsto> allocate_result t3 a e loc c2)"
    "m_tag_index c2 a = None \<Longrightarrow> addressToCacheSet c2 a = Inr (fst loc)"
    by (rule allocate_spec [OF c2(2) l2 av, of t3 e]) (rule that)
  have "m_Permission (allocate_result t3 a e loc c2) = PermInvalid"
    by (simp add: allocate_result_def allocated_def split: option.splits)
  moreover have "v \<noteq> a" using v(2) none by auto
  ultimately show ?thesis
    using pr(1) v(1) c2(1,3,4,6) av c3 c1(1,3,4) none by (intro exI conjI) (assumption | simp)+
qed

end

end
