(* ===== verification/Cache_Requests.thy ===== *)
theory Cache_Requests
  imports Cache_Operations
begin

text \<open>
  The accounting of requests: bank reservations, statistics, the refresh of the retention time,
  and the write counters that redirect a page.  Recording a request about an address is total,
  keeps the invariant, and leaves every other block, the tag index and the replacement state
  alone; so a page may be redirected while its blocks are in the cache and none is lost.
\<close>

section \<open>Steps that leave the index alone\<close>

definition cfg :: "('d, 'g, 'e) cache_memory \<Rightarrow>
  nat \<times> nat \<times> nat \<times> latency_type list \<times> nat list \<times> nat \<times> bool \<times> nat \<times> nat \<times> bool \<times> bool" where
  "cfg c = (m_cache_num_sets c, m_cache_assoc c, m_num_of_retention_zones c,
     m_retention_table c, m_thresholds c, m_block_size c, m_lazy_redirection_scheme c,
     m_start_index_bit c, m_cache_num_set_bits c, m_resource_stalls c, m_is_sttram c)"

definition frame :: "('d, 'g, 'e) cache_memory \<Rightarrow> ('d, 'g, 'e) cache_memory \<Rightarrow> bool" where
  "frame c c' \<longleftrightarrow>
     cm_inv c' \<and> cfg c' = cfg c \<and> m_tag_index c' = m_tag_index c \<and>
     replacement_data c' = replacement_data c \<and> repl_state c' = repl_state c"

text \<open>A step that changes no block, and one that changes the block of one address.\<close>

definition calm :: "('d, 'g, 'e) cache_memory \<Rightarrow> ('d, 'g, 'e) cache_memory \<Rightarrow> bool" where
  "calm c c' \<longleftrightarrow> frame c c' \<and> blocks c' = blocks c"

definition updates ::
  "Addr \<Rightarrow> 'e cache_entry_scheme option \<Rightarrow> ('d, 'g, 'e) cache_memory \<Rightarrow>
   ('d, 'g, 'e) cache_memory \<Rightarrow> bool" where
  "updates a v c c' \<longleftrightarrow> frame c c' \<and> blocks c' = (blocks c)(a := v)"

lemma calm_refl: "cm_inv c \<Longrightarrow> calm c c"
  by (simp add: calm_def frame_def)

lemma calm_trans: "calm c c' \<Longrightarrow> calm c' c'' \<Longrightarrow> calm c c''"
  by (simp add: calm_def frame_def)

lemma updates_calm: "updates a v c c' \<Longrightarrow> calm c' c'' \<Longrightarrow> updates a v c c''"
  by (simp add: calm_def updates_def frame_def)

lemma calm_updates: "calm c c' \<Longrightarrow> updates a v c' c'' \<Longrightarrow> updates a v c c''"
  by (simp add: calm_def updates_def frame_def)

lemma updates_updates: "updates a v c c' \<Longrightarrow> updates a w c' c'' \<Longrightarrow> updates a w c c''"
  by (simp add: updates_def frame_def)

lemma calm_is_update: "calm c c' \<Longrightarrow> updates a (blocks c a) c c'"
  by (simp add: calm_def updates_def)

lemma frameD:
  assumes "frame c c'"
  shows "cm_inv c'" and "m_tag_index c' = m_tag_index c" and "is_line c' = is_line c"
    and "m_num_of_retention_zones c' = m_num_of_retention_zones c"
    and "m_cache_num_sets c' = m_cache_num_sets c" and "m_cache_assoc c' = m_cache_assoc c"
    and "m_thresholds c' = m_thresholds c" and "m_retention_table c' = m_retention_table c"
    and "m_lazy_redirection_scheme c' = m_lazy_redirection_scheme c"
  using assms by (simp_all add: frame_def cfg_def is_line_def line_bits_def fun_eq_iff)

lemma calm_frame: "calm c c' \<Longrightarrow> frame c c'" and updates_frame: "updates a v c c' \<Longrightarrow> frame c c'"
  by (simp_all add: calm_def updates_def)

lemmas calmD = frameD [OF calm_frame] and updatesD = frameD [OF updates_frame]

lemma calm_stats:
  assumes "cm_inv c" and "\<And>s. length (m_accesses_per_set (f s)) = length (m_accesses_per_set s)"
    and "\<And>s. length (m_chunk_reads (f s)) = length (m_chunk_reads s)"
    and "\<And>s. length (m_chunk_writes (f s)) = length (m_chunk_writes s)"
  shows "calm c (upd_stats f c)"
  using assms upd_stats_inv [OF assms(2-4), of c]
  by (simp add: calm_def frame_def cfg_def) (simp add: upd_stats_def)

lemma calm_count_walk: "cm_inv c \<Longrightarrow> calm c (count_walk addr c)"
  by (auto simp: count_walk_def calm_refl intro!: calm_stats split: option.splits)

lemma mod_entry_updates:
  assumes inv: "cm_inv c" and ix: "m_tag_index c a = Some e" and sp: "\<And>x. same_place x (f x)"
  obtains x where "slot c (decode_loc e) = Some x"
    and "mod_entry f (decode_loc e) c = Inr (set_entry (decode_loc e) (f x) c)"
    and "updates a (if m_Permission (f x) \<noteq> NotPresent then Some (f x) else None) c
      (set_entry (decode_loc e) (f x) c)"
proof -
  obtain x where x: "in_range c (decode_loc e)" "slot c (decode_loc e) = Some x"
    using indexed [OF inv ix] .
  let ?c' = "set_entry (decode_loc e) (f x) c"
  have m: "mod_entry f (decode_loc e) c = Inr ?c'"
    using entry_at_slot [OF inv x] by (simp add: mod_entry_def)
  have i: "cm_inv ?c'" by (rule set_entry_inv [OF inv ix x(2) sp])
  have b: "blocks ?c' = (blocks c)(a := (if m_Permission (f x) \<noteq> NotPresent then Some (f x) else None))"
    by (rule blocks_set_entry [OF inv ix])
  have "frame c ?c'"
    using i by (simp add: frame_def cfg_def) (simp add: set_entry_def)
  then show thesis using that [OF x(2) m] b by (simp add: updates_def)
qed

section \<open>Timing arrays and counters\<close>

lemma incE_in_range: "i < length xs \<Longrightarrow> incE xs i = Inr (xs[i := xs ! i + 1])"
  by (simp add: incE_def nthE_def updE_def)

lemma calm_reserve_data:
  assumes inv: "cm_inv c" and z: "z < m_num_of_retention_zones c" and a: "is_line c a"
  shows "\<exists>c'. reserve_data now a z t c = Inr c' \<and> calm c c'"
proof (cases "m_resource_stalls c")
  case True
  obtain s where s: "addressToCacheSet c a = Inr s" using addressToCacheSet_inv [OF inv a] .
  have l: "z < length (m_retention_table c)"
    using z cm_inv_dims(3) [OF inv] by (simp add: cm_config_def)
  have w: "ba_wf (dataArray c)" "0 < clockPeriod (dataArray c)"
    using inv by (simp_all add: cm_inv_def timing_ok_def)
  obtain d where d: "ba_reserve now s (basic_latency (m_retention_table c ! z) t) (dataArray c) = Inr d"
    using ba_reserve_wf [OF w] by blast
  have "cm_inv (c\<lparr>dataArray := d\<rparr>)"
    using inv ba_reserve_keeps [OF w(1) d] by (simp add: cm_inv_def timing_ok_def)
  then have "calm c (c\<lparr>dataArray := d\<rparr>)" by (simp add: calm_def frame_def cfg_def)
  then show ?thesis using True s l d by (simp add: reserve_data_def nthE_def)
next
  case False
  then show ?thesis using inv by (simp add: reserve_data_def calm_refl)
qed

lemma calm_reserve_tag:
  assumes inv: "cm_inv c" and z: "z < m_num_of_retention_zones c" and a: "is_line c a"
  shows "\<exists>c'. reserve_tag now a z t c = Inr c' \<and> calm c c'"
proof (cases "m_resource_stalls c")
  case True
  obtain s where s: "addressToCacheSet c a = Inr s" using addressToCacheSet_inv [OF inv a] .
  have l: "z < length (m_retention_table c)"
    using z cm_inv_dims(3) [OF inv] by (simp add: cm_config_def)
  have w: "ba_wf (tagArray c)" "0 < clockPeriod (tagArray c)"
    using inv by (simp_all add: cm_inv_def timing_ok_def)
  obtain d where d: "ba_reserve now s (basic_latency (m_retention_table c ! z) t) (tagArray c) = Inr d"
    using ba_reserve_wf [OF w] by blast
  have "cm_inv (c\<lparr>tagArray := d\<rparr>)"
    using inv ba_reserve_keeps [OF w(1) d] by (simp add: cm_inv_def timing_ok_def)
  then have "calm c (c\<lparr>tagArray := d\<rparr>)" by (simp add: calm_def frame_def cfg_def)
  then show ?thesis using True s l d by (simp add: reserve_tag_def nthE_def)
next
  case False
  then show ?thesis using inv by (simp add: reserve_tag_def calm_refl)
qed

lemma calm_bump_chunk:
  assumes inv: "cm_inv c" and k: "k < m_cache_num_sets c div 4"
  shows "\<exists>c'. bump_chunk_reads k c = Inr c' \<and> calm c c'"
    and "\<exists>c'. bump_chunk_writes k c = Inr c' \<and> calm c c'"
proof -
  have t: "timing_ok c" using inv by (simp add: cm_inv_def)
  let ?s = "cacheMemoryStats c"
  let ?r = "c\<lparr>m_chunk := (m_chunk c)[k := (m_chunk c ! k)\<lparr>reads := reads (m_chunk c ! k) + 1\<rparr>],
      cacheMemoryStats := ?s\<lparr>m_chunk_reads := (m_chunk_reads ?s)[k := m_chunk_reads ?s ! k + 1]\<rparr>\<rparr>"
  have "cm_inv ?r" using inv by (simp add: cm_inv_def timing_ok_def)
  then have "calm c ?r" by (simp add: calm_def frame_def cfg_def)
  moreover have "bump_chunk_reads k c = Inr ?r"
    using t k by (simp add: bump_chunk_reads_def timing_ok_def nthE_def incE_in_range upd_stats_def Let_def)
  ultimately show "\<exists>c'. bump_chunk_reads k c = Inr c' \<and> calm c c'" by blast
  let ?w = "c\<lparr>m_chunk := (m_chunk c)[k := (m_chunk c ! k)\<lparr>writes := writes (m_chunk c ! k) + 1\<rparr>],
      cacheMemoryStats := ?s\<lparr>m_chunk_writes := (m_chunk_writes ?s)[k := m_chunk_writes ?s ! k + 1]\<rparr>\<rparr>"
  have "cm_inv ?w" using inv by (simp add: cm_inv_def timing_ok_def)
  then have "calm c ?w" by (simp add: calm_def frame_def cfg_def)
  moreover have "bump_chunk_writes k c = Inr ?w"
    using t k by (simp add: bump_chunk_writes_def timing_ok_def nthE_def incE_in_range upd_stats_def Let_def)
  ultimately show "\<exists>c'. bump_chunk_writes k c = Inr c' \<and> calm c c'" by blast
qed

section \<open>The write counter of a page\<close>

lemma sc_new_4: "sc_new 4 0 = Inr (\<lparr>initialVal = 0, maxVal = 15, counter = 0\<rparr> :: SatCounter8)"
  by (simp add: sc_new_def Let_def)

text \<open>The counter of a page before a write is counted; a page starts at zero.\<close>

definition page_counter :: "('d, 'g, 'e) cache_memory \<Rightarrow> Addr \<Rightarrow> SatCounter8" where
  "page_counter c ch =
     (case m_chunk_counters c ch of
        Some cnt \<Rightarrow> cnt | None \<Rightarrow> \<lparr>initialVal = 0, maxVal = 15, counter = 0\<rparr>)"

lemma page_counter_wf:
  "page_wf c \<Longrightarrow> sc_wf (page_counter c ch) \<and> maxVal (page_counter c ch) = 15"
  by (cases "m_chunk_counters c ch")
    (simp add: page_counter_def sc_wf_def, simp add: page_wf_def page_counter_def)

definition counted :: "Addr \<Rightarrow> ('d, 'g, 'e) cache_memory \<Rightarrow> ('d, 'g, 'e) cache_memory" where
  "counted a c =
     (let ch = chunk_ID a; cnt = page_counter c ch; cnt' = sc_inc cnt in
      if \<not> m_lazy_redirection_scheme c then c
      else if m_chunk_redirection_table c ch \<noteq> None
      then c\<lparr>m_chunk_counters := (m_chunk_counters c)(ch \<mapsto> cnt)\<rparr>
      else
        let c2 = c\<lparr>m_chunk_counters := (m_chunk_counters c)(ch \<mapsto> cnt')\<rparr> in
        if sc_isSaturated cnt'
        then upd_stats (\<lambda>s. s\<lparr>m_inter_zone_jumps := m_inter_zone_jumps s + 1\<rparr>)
          (c2\<lparr>m_chunk_redirection_table :=
                (m_chunk_redirection_table c)(ch \<mapsto> unat ch mod zone_size_of c)\<rparr>)
        else c2)"

lemma count_write_eq:
  assumes "cm_inv c"
  shows "count_write a c = Inr (counted a c)"
proof -
  have cf: "cm_config c" using cm_inv_dims(3) [OF assms] .
  then have t: "nthE (m_thresholds c) 0 = Inr (zone_size_of c)"
    by (simp add: cm_config_def nthE_def)
  have z: "zone_size_of c \<noteq> 0" using zone_size_pos [OF cf] by simp
  have n: "(case m_chunk_counters c (chunk_ID a) of Some cnt \<Rightarrow> Inr cnt | None \<Rightarrow> sc_new 4 0) =
      Inr (page_counter c (chunk_ID a))"
    by (simp add: page_counter_def sc_new_4 split: option.splits)
  show ?thesis
    unfolding count_write_def n
    using t z by (auto simp: counted_def Let_def sc_post_inc_def split: option.splits)
qed

lemma calm_counted:
  assumes inv: "cm_inv c"
  shows "calm c (counted a c)"
proof -
  let ?ch = "chunk_ID a"
  have pw: "page_wf c" and q: "0 < zone_size_of c"
    using inv zone_size_pos [OF cm_inv_dims(3) [OF inv]] by (simp_all add: cm_inv_def)
  note w = page_counter_wf [OF pw, of ?ch]
  have c1: "cm_inv (c\<lparr>m_chunk_counters := (m_chunk_counters c)(?ch \<mapsto> cnt)\<rparr>)"
    if "sc_wf cnt" "maxVal cnt = 15" for cnt
    using inv that by (auto simp: cm_inv_def page_wf_def split: if_splits)
  have c2: "cm_inv (d\<lparr>m_chunk_redirection_table :=
      (m_chunk_redirection_table d)(?ch \<mapsto> unat ?ch mod zone_size_of c)\<rparr>)"
    if "cm_inv d" "zone_size_of d = zone_size_of c" for d :: "('a, 'b, 'c) cache_memory"
    using that q by (auto simp: cm_inv_def page_wf_def split: if_splits)
  let ?d = "c\<lparr>m_chunk_counters := (m_chunk_counters c)(?ch \<mapsto> sc_inc (page_counter c ?ch))\<rparr>"
  have d: "cm_inv ?d" by (rule c1) (simp_all add: w sc_inc_wf)
  have "cm_inv (upd_stats (\<lambda>s. s\<lparr>m_inter_zone_jumps := m_inter_zone_jumps s + 1\<rparr>)
      (?d\<lparr>m_chunk_redirection_table := (m_chunk_redirection_table c)(?ch \<mapsto> unat ?ch mod zone_size_of c)\<rparr>))"
    using c2 [OF d] by (subst upd_stats_inv) simp_all
  then have "cm_inv (counted a c)"
    using inv c1 w d by (simp add: counted_def Let_def)
  moreover have "cfg (counted a c) = cfg c" "m_tag_index (counted a c) = m_tag_index c"
    "replacement_data (counted a c) = replacement_data c" "repl_state (counted a c) = repl_state c"
    "blocks (counted a c) = blocks c"
    by (simp_all add: counted_def Let_def cfg_def upd_stats_def)
  ultimately show ?thesis by (simp add: calm_def frame_def)
qed

section \<open>Recording a request\<close>

lemma blocks_indexed:
  "m_tag_index c a = Some e \<Longrightarrow> slot c (decode_loc e) = Some x \<Longrightarrow>
     blocks c a = (if m_Permission x \<noteq> NotPresent then Some x else None)"
  by (simp add: blocks_def)

lemma calm_same_zone: "frame c c' \<Longrightarrow> zone_of c' = zone_of c \<and> limit_at c' = limit_at c"
  by (simp add: frame_def cfg_def zone_of_def limit_at_def fun_eq_iff)

lemma record_preamble_spec:
  assumes inv: "cm_inv c" and a: "is_line c a" and s: "addressToCacheSet c a = Inr s"
  obtains c' where
    "record_preamble now a c = Inr (zone_of c s, s div 4, map_option decode_loc (m_tag_index c a), c')"
    and "updates a (map_option (entry_setLastAccess now) (blocks c a)) c c'"
proof -
  have sn: "s < m_cache_num_sets c" using addressToCacheSet_Inr(3) [OF cm_inv_dims(3) [OF inv] s] .
  let ?acc = "m_accesses_per_set (cacheMemoryStats c)"
  have l: "length ?acc = m_cache_num_sets c" using inv by (simp add: cm_inv_def timing_ok_def)
  let ?c1 = "upd_stats (\<lambda>t. t\<lparr>m_accesses_per_set := ?acc[s := ?acc ! s + 1]\<rparr>) c"
  let ?c2 = "count_walk a ?c1"
  have "cm_inv ?c1" using inv l by (simp add: upd_stats_def cm_inv_def timing_ok_stats)
  then have k1: "calm c ?c1" by (simp add: calm_def frame_def cfg_def) (simp add: upd_stats_def)
  have k2: "calm c ?c2" using calm_trans [OF k1 calm_count_walk] calmD(1) [OF k1] by blast
  note f2 = calmD [OF k2]
  have z: "getRetentionZone ?c2 s = Inr (zone_of c s)"
    using getRetentionZone_config [OF cm_inv_dims(3) [OF f2(1)], of s]
      calm_same_zone [OF calm_frame [OF k2]] by auto
  have fnd: "findTagInSetIgnorePermissions ?c2 a = Inr (map_option decode_loc (m_tag_index c a))"
    using findTagInSetIgnorePermissions_inv [OF f2(1)] a f2 by simp
  have pre: "record_preamble now a c =
      bindE (on_entry (map_option decode_loc (m_tag_index c a)) (mod_entry (entry_setLastAccess now)) ?c2)
        (\<lambda>c3. Inr (zone_of c s, s div 4, map_option decode_loc (m_tag_index c a), c3))"
    using s sn l z fnd by (simp add: record_preamble_def incE_in_range Let_def getChunkId_def)
  show thesis
  proof (cases "m_tag_index c a")
    case None
    then have "blocks c a = None" by (simp add: blocks_def)
    then show thesis
      using that [of ?c2] None pre calm_is_update [OF k2, of a] by (simp add: on_entry_def)
  next
    case (Some e)
    then have e: "m_tag_index ?c2 a = Some e" using f2 by simp
    obtain x where x: "slot ?c2 (decode_loc e) = Some x"
      "mod_entry (entry_setLastAccess now) (decode_loc e) ?c2 =
        Inr (set_entry (decode_loc e) (entry_setLastAccess now x) ?c2)"
      "updates a (if m_Permission (entry_setLastAccess now x) \<noteq> NotPresent
         then Some (entry_setLastAccess now x) else None) ?c2
         (set_entry (decode_loc e) (entry_setLastAccess now x) ?c2)"
      by (rule mod_entry_updates [OF f2(1) e same_place_entry(4) [of _ now]])
    have "blocks c a = (if m_Permission x \<noteq> NotPresent then Some x else None)"
      using blocks_indexed [OF e x(1)] k2 by (simp add: calm_def)
    then have v: "(if m_Permission (entry_setLastAccess now x) \<noteq> NotPresent
        then Some (entry_setLastAccess now x) else None) = map_option (entry_setLastAccess now) (blocks c a)"
      by (simp add: entry_setLastAccess_def)
    show thesis
      by (rule that [OF _ calm_updates [OF k2 x(3) [unfolded v]]])
        (use pre Some x(2) in \<open>simp add: on_entry_def\<close>)
  qed
qed

text \<open>A chain of two steps that change no block.\<close>

lemma calm_bind:
  assumes "\<exists>c1. m = Inr c1 \<and> calm c c1" and "\<And>c1. calm c c1 \<Longrightarrow> \<exists>c2. f c1 = Inr c2 \<and> calm c1 c2"
  shows "\<exists>c2. bindE m f = Inr c2 \<and> calm c c2"
  using assms calm_trans by fastforce

lemma refresh_same_place [simp]:
  "same_place x (refresh_entry now l x)" "same_place x (revive_entry (refresh_entry now l x))"
  by (simp_all add: same_place_def refresh_entry_def revive_entry_def)

lemma refresh_perm: "m_Permission (refresh_entry now l x) = m_Permission x"
  by (simp add: refresh_entry_def)

lemma bump_after_stats:
  assumes "calm c c1" and "k < m_cache_num_sets c div 4"
    and "\<And>s. length (m_accesses_per_set (f s)) = length (m_accesses_per_set s)"
    and "\<And>s. length (m_chunk_reads (f s)) = length (m_chunk_reads s)"
    and "\<And>s. length (m_chunk_writes (f s)) = length (m_chunk_writes s)"
  shows "\<exists>c2. bump_chunk_reads k (upd_stats f c1) = Inr c2 \<and> calm c1 c2"
    and "\<exists>c2. bump_chunk_writes k (upd_stats f c1) = Inr c2 \<and> calm c1 c2"
proof -
  have d: "calm c1 (upd_stats f c1)" by (rule calm_stats [OF calmD(1) [OF assms(1)] assms(3-5)])
  have k: "k < m_cache_num_sets (upd_stats f c1) div 4"
    using assms(2) calmD(5) [OF assms(1)] by simp
  show "\<exists>c2. bump_chunk_reads k (upd_stats f c1) = Inr c2 \<and> calm c1 c2"
    using calm_bump_chunk(1) [OF calmD(1) [OF d] k] calm_trans [OF d] by blast
  show "\<exists>c2. bump_chunk_writes k (upd_stats f c1) = Inr c2 \<and> calm c1 c2"
    using calm_bump_chunk(2) [OF calmD(1) [OF d] k] calm_trans [OF d] by blast
qed

text \<open>The part of every request after the block itself has been dealt with.\<close>

lemma record_tails:
  assumes inv: "cm_inv c" and a: "is_line c a" and z: "z < m_num_of_retention_zones c"
    and k: "k < m_cache_num_sets c div 4"
  shows "\<exists>c'. record_data_read now a z k c = Inr c' \<and> calm c c'"
    and "\<exists>c'. record_tag_read now a z k c = Inr c' \<and> calm c c'"
    and "\<exists>c'. record_data_write now a z k None c = Inr c' \<and> calm c c'"
    and "\<exists>c'. record_tag_write now a z k None c = Inr c' \<and> calm c c'"
  unfolding record_data_read_def record_tag_read_def record_data_write_def record_tag_write_def
    on_entry_def option.case bindE_Inr
  by (rule calm_bind, rule calm_reserve_data [OF inv z a] calm_reserve_tag [OF inv z a],
      rule bump_after_stats [OF _ k], assumption, simp, simp, simp)+

lemma record_data_write_Some:
  "record_data_write now a z k (Some loc) c =
     bindE (bindE (nthE (m_retention_table c) z) (\<lambda>l.
            bindE (mod_entry (refresh_entry now (lt_time l)) loc c) (count_write a)))
       (record_data_write now a z k None)"
  by (simp add: record_data_write_def [abs_def] on_entry_def)

lemma record_tag_write_Some:
  "record_tag_write now a z k (Some loc) c =
     bindE (bindE (zone_time c (fst loc)) (\<lambda>l.
            mod_entry (\<lambda>e. revive_entry (refresh_entry now l e)) loc c))
       (record_tag_write now a z k None)"
  by (simp add: record_tag_write_def [abs_def] on_entry_def)

text \<open>What a request makes of the block it is about.\<close>

definition recorded ::
  "Tick \<Rightarrow> CacheRequestType \<Rightarrow> Tick \<Rightarrow> Tick \<Rightarrow> 'e cache_entry_scheme \<Rightarrow> 'e cache_entry_scheme" where
  "recorded now t target_limit own_limit x =
     (case t of
        DataArrayWrite \<Rightarrow> refresh_entry now target_limit (entry_setLastAccess now x)
      | TagArrayWrite \<Rightarrow> refresh_entry now own_limit (entry_setLastAccess now x)
      | _ \<Rightarrow> entry_setLastAccess now x)"

lemma record_data_write_spec:
  assumes inv: "cm_inv c" and a: "is_line c a" and z: "z < m_num_of_retention_zones c"
    and k: "k < m_cache_num_sets c div 4"
  shows "\<exists>c'. record_data_write now a z k (map_option decode_loc (m_tag_index c a)) c = Inr c' \<and>
    updates a (map_option (refresh_entry now (lt_time (m_retention_table c ! z))) (blocks c a)) c c'"
proof (cases "m_tag_index c a")
  case None
  then have "blocks c a = None" by (simp add: blocks_def)
  then show ?thesis
    using record_tails(3) [OF assms, of now] calm_is_update [of c _ a] None by fastforce
next
  case (Some e)
  let ?l = "lt_time (m_retention_table c ! z)"
  have l: "nthE (m_retention_table c) z = Inr (m_retention_table c ! z)"
    using cm_inv_dims(3) [OF inv] z by (simp add: cm_config_def nthE_def)
  obtain x where x: "slot c (decode_loc e) = Some x"
    "mod_entry (refresh_entry now ?l) (decode_loc e) c =
      Inr (set_entry (decode_loc e) (refresh_entry now ?l x) c)"
    "updates a (if m_Permission (refresh_entry now ?l x) \<noteq> NotPresent
       then Some (refresh_entry now ?l x) else None) c (set_entry (decode_loc e) (refresh_entry now ?l x) c)"
    by (rule mod_entry_updates [OF inv Some refresh_same_place(1) [of _ now ?l]])
  let ?c1 = "set_entry (decode_loc e) (refresh_entry now ?l x) c"
  have c1: "updates a (map_option (refresh_entry now ?l) (blocks c a)) c ?c1"
    using x(3) blocks_indexed [OF Some x(1)] by (simp add: refresh_perm split: if_splits)
  have c2: "updates a (map_option (refresh_entry now ?l) (blocks c a)) c (counted a ?c1)"
    by (rule updates_calm [OF c1 calm_counted [OF updatesD(1) [OF c1]]])
  note f = updatesD [OF c2]
  obtain c' where c': "record_data_write now a z k None (counted a ?c1) = Inr c'" "calm (counted a ?c1) c'"
    using record_tails(3) [OF f(1), of a z k now] f a z k by auto
  show ?thesis
    using l x(2) count_write_eq [OF updatesD(1) [OF c1]] c' updates_calm [OF c2 c'(2)] Some
    by (simp add: record_data_write_Some)
qed

lemma record_tag_write_spec:
  assumes inv: "cm_inv c" and a: "is_line c a" and z: "z < m_num_of_retention_zones c"
    and k: "k < m_cache_num_sets c div 4"
  shows "\<exists>c'. record_tag_write now a z k (map_option decode_loc (m_tag_index c a)) c = Inr c' \<and>
    updates a (map_option (\<lambda>e. revive_entry (refresh_entry now (limit_at c (fst (decode_loc e)))
      (the (slot c (decode_loc e))))) (m_tag_index c a)) c c'"
proof (cases "m_tag_index c a")
  case None
  then have "blocks c a = None" by (simp add: blocks_def)
  then show ?thesis
    using record_tails(4) [OF assms, of now] calm_is_update [of c _ a] None by fastforce
next
  case (Some e)
  let ?l = "limit_at c (fst (decode_loc e))"
  let ?f = "\<lambda>x. revive_entry (refresh_entry now ?l x)"
  have l: "zone_time c (fst (decode_loc e)) = Inr ?l"
    using zone_time_config [OF cm_inv_dims(3) [OF inv]] by (simp add: limit_at_def)
  obtain x where x: "slot c (decode_loc e) = Some x"
    "mod_entry ?f (decode_loc e) c = Inr (set_entry (decode_loc e) (?f x) c)"
    "updates a (if m_Permission (?f x) \<noteq> NotPresent then Some (?f x) else None) c
       (set_entry (decode_loc e) (?f x) c)"
    by (rule mod_entry_updates [OF inv Some refresh_same_place(2) [of _ now ?l]])
  have "m_Permission (?f x) \<noteq> NotPresent" by (simp add: revive_entry_def)
  with x(3) have c1: "updates a (Some (?f x)) c (set_entry (decode_loc e) (?f x) c)" by simp
  note f = updatesD [OF c1]
  obtain c' where c': "record_tag_write now a z k None (set_entry (decode_loc e) (?f x) c) = Inr c'"
    "calm (set_entry (decode_loc e) (?f x) c) c'"
    using record_tails(4) [OF f(1), of a z k now] f a z k by auto
  show ?thesis
    using l x(1,2) c' updates_calm [OF c1 c'(2)] Some
    by (simp add: record_tag_write_Some)
qed

lemma record_alu_spec:
  assumes "cm_inv c"
  shows "\<exists>c'. record_alu now a c = Inr c' \<and> calm c c'"
proof -
  have b: "alu_block_size_bits (atomicALUArray c) < 64" using assms by (simp add: cm_inv_def timing_ok_def)
  have "\<exists>c1. (if m_resource_stalls c then
      bindE (alu_reserve now a (atomicALUArray c)) (\<lambda>x. Inr (c\<lparr>atomicALUArray := x\<rparr>)) else Inr c) = Inr c1 \<and> calm c c1"
    using assms b
    by (auto simp: alu_reserve_def makeLineAddress_def calm_def frame_def cfg_def cm_inv_def timing_ok_def)
  then show ?thesis
    unfolding record_alu_def
    by (rule calm_bind) (use calm_stats calmD(1) in fastforce)
qed

text \<open>
  The outcome of a request: for the block itself the refresh of its retention time, for every
  other block nothing.
\<close>

lemma recordRequestType_spec:
  assumes inv: "cm_inv c" and a: "is_line c a" and s: "addressToCacheSet c a = Inr s"
  obtains c' where "recordRequestType now t a c = Inr c'" and "frame c c'"
    and "\<And>b. b \<noteq> a \<Longrightarrow> blocks c' b = blocks c b"
    and "\<And>x loc. blocks c a = Some x \<Longrightarrow> present_loc c a = Some loc \<Longrightarrow>
      blocks c' a = Some (recorded now t (limit_at c s) (limit_at c (fst loc)) x)"
    and "blocks c' a = None \<longleftrightarrow> (if t = TagArrayWrite then m_tag_index c a = None else blocks c a = None)"
proof -
  obtain c1 where c1: "record_preamble now a c =
      Inr (zone_of c s, s div 4, map_option decode_loc (m_tag_index c a), c1)"
    "updates a (map_option (entry_setLastAccess now) (blocks c a)) c c1"
    using record_preamble_spec [OF assms, of now] .
  note f = updatesD [OF c1(2)]
  have cf: "cm_config c" using cm_inv_dims(3) [OF inv] .
  have "s div 4 < m_cache_num_sets c div 4"
    using addressToCacheSet_Inr(2) [OF cf s] by (simp add: div_less_iff_less_mult)
  then have h: "cm_inv c1" "is_line c1 a" "zone_of c s < m_num_of_retention_zones c1"
      "s div 4 < m_cache_num_sets c1 div 4"
    using f a getRetentionZone_config [OF cf, of s] by simp_all
  have b1: "blocks c1 = (blocks c)(a := map_option (entry_setLastAccess now) (blocks c a))"
    using c1(2) by (simp add: updates_def)
  have lim: "lt_time (m_retention_table c1 ! zone_of c s) = limit_at c s" "limit_at c1 = limit_at c"
    using calm_same_zone [OF updates_frame [OF c1(2)]] f by (simp_all add: limit_at_def)
  define v where "v = (case t of
      DataArrayWrite \<Rightarrow> map_option (refresh_entry now (limit_at c s)) (blocks c1 a)
    | TagArrayWrite \<Rightarrow> map_option (\<lambda>e. revive_entry (refresh_entry now (limit_at c (fst (decode_loc e)))
        (the (slot c1 (decode_loc e))))) (m_tag_index c1 a)
    | _ \<Rightarrow> blocks c1 a)"
  have "\<exists>c'. recordRequestType now t a c = Inr c' \<and> updates a v c1 c'"
  proof (cases t)
    case DataArrayRead
    then show ?thesis
      using record_tails(1) [OF h, of now] calm_is_update [of c1 _ a] c1(1)
      by (fastforce simp: recordRequestType_def v_def)
  next
    case DataArrayWrite
    then show ?thesis
      using record_data_write_spec [OF h, of now] c1(1) f(2) lim by (simp add: recordRequestType_def v_def)
  next
    case TagArrayRead
    then show ?thesis
      using record_tails(2) [OF h, of now] calm_is_update [of c1 _ a] c1(1)
      by (fastforce simp: recordRequestType_def v_def)
  next
    case TagArrayWrite
    then show ?thesis
      using record_tag_write_spec [OF h, of now] c1(1) f(2) lim by (simp add: recordRequestType_def v_def)
  next
    case AtomicALUOperation
    then show ?thesis
      using record_alu_spec [OF h(1), of now a] calm_is_update [of c1 _ a] c1(1)
      by (fastforce simp: recordRequestType_def v_def)
  next
    case CacheRequestType_NUM
    then show ?thesis
      using calm_is_update [OF calm_refl [OF h(1)]] c1(1) by (simp add: recordRequestType_def v_def)
  qed
  then obtain c' where c': "recordRequestType now t a c = Inr c'" "updates a v c c'"
    using updates_updates [OF c1(2)] by blast
  have "v = Some (recorded now t (limit_at c s) (limit_at c (fst loc)) x)"
    if x: "blocks c a = Some x" and loc: "present_loc c a = Some loc" for x loc
  proof -
    have x1: "blocks c1 a = Some (entry_setLastAccess now x)" using b1 x by simp
    obtain e where e: "m_tag_index c1 a = Some e" "slot c1 (decode_loc e) = Some (entry_setLastAccess now x)"
      "m_Permission (entry_setLastAccess now x) \<noteq> NotPresent" using blocks_Some [OF h(1) x1] .
    then have "loc = decode_loc e" using loc x f(2) by (simp add: present_loc_def)
    then show ?thesis
      using x1 e by (simp add: v_def recorded_def revive_entry_def refresh_perm split: CacheRequestType.splits)
  qed
  moreover have "v = None \<longleftrightarrow> (if t = TagArrayWrite then m_tag_index c a = None else blocks c a = None)"
    using b1 f(2) by (simp add: v_def split: CacheRequestType.splits)
  ultimately show thesis
    using that [OF c'(1) updates_frame [OF c'(2)]] c'(2) by (simp add: updates_def)
qed

lemma frame_ok: "frame c c' \<Longrightarrow> cm_ok ok c \<Longrightarrow> cm_ok ok c'"
  by (simp add: frame_def cm_ok_def)

lemma checkResourceAvailable_spec:
  assumes inv: "cm_inv c"
    and en: "\<not> m_resource_stalls c \<or> r = AtomicALUArray \<or> ((r = TagArray \<or> r = DataArray) \<and> is_line c a)"
  shows "\<exists>b c'. checkResourceAvailable now r a c = Inr (b, c') \<and> calm c c'"
proof (cases "m_resource_stalls c")
  case True
  have w: "ba_wf (dataArray c)" "ba_wf (tagArray c)" "alu_block_size_bits (atomicALUArray c) < 64"
    using inv by (simp_all add: cm_inv_def timing_ok_def)
  have st: "calm c (upd_stats (\<lambda>s. s\<lparr>numTagArrayStalls := numTagArrayStalls s + 1\<rparr>) c)"
    "calm c (upd_stats (\<lambda>s. s\<lparr>numDataArrayStalls := numDataArrayStalls s + 1\<rparr>) c)"
    by (rule calm_stats [OF inv], simp_all)+
  have alu: "calm c (c\<lparr>atomicALUArray := x\<rparr>)"
    if "alu_tryAccess now a (atomicALUArray c) = Inr (b, x)" for b x
    using inv alu_tryAccess_queue [OF that]
    by (simp add: calm_def frame_def cfg_def cm_inv_def timing_ok_def)
  have alu_st: "calm c (upd_stats (\<lambda>s. s\<lparr>numAtomicALUArrayStalls := numAtomicALUArrayStalls s + 1\<rparr>) c1)"
    if "calm c c1" for c1
    by (rule calm_trans [OF that calm_stats [OF calmD(1) [OF that]]]) simp_all
  show ?thesis
  proof (cases r)
    case AtomicALUArray
    obtain b x where x: "alu_tryAccess now a (atomicALUArray c) = Inr (b, x)"
      using alu_scan_iff [OF w(3)] by (auto simp: alu_tryAccess_def Let_def)
    show ?thesis
      using True AtomicALUArray x alu [OF x] alu_st [OF alu [OF x]]
      by (cases b) (auto simp: checkResourceAvailable_def Let_def)
  next
    case TagArray
    obtain s where "addressToCacheSet c a = Inr s"
      using addressToCacheSet_inv [OF inv, of a] en True TagArray by auto
    then show ?thesis
      using True TagArray w st calm_refl [OF inv] by (auto simp: checkResourceAvailable_def ba_tryAccess_wf)
  next
    case DataArray
    obtain s where "addressToCacheSet c a = Inr s"
      using addressToCacheSet_inv [OF inv, of a] en True DataArray by auto
    then show ?thesis
      using True DataArray w st calm_refl [OF inv] by (auto simp: checkResourceAvailable_def ba_tryAccess_wf)
  qed (use en True in simp)
next
  case False
  then show ?thesis using calm_refl [OF inv] by (auto simp: checkResourceAvailable_def)
qed

lemma getRetentionLatency_spec:
  assumes inv: "cm_inv c" and a: "is_line c a"
  shows "\<exists>l c'. getRetentionLatency now t a c = Inr (l, c') \<and> calm c c'"
proof -
  obtain s where s: "addressToCacheSet c a = Inr s" using addressToCacheSet_inv [OF inv a] .
  have cf: "cm_config c" using cm_inv_dims(3) [OF inv] .
  have z: "getRetentionZone c s = Inr (zone_of c s)"
    "nthE (m_retention_table c) (zone_of c s) = Inr (m_retention_table c ! zone_of c s)"
    using getRetentionZone_config [OF cf, of s] cf by (simp_all add: cm_config_def nthE_def)
  have w: "ba_wf (dataArray c)" "ba_wf (tagArray c)" "ruby_clockPeriod c \<noteq> 0"
    using inv by (auto simp: cm_inv_def timing_ok_def)
  have st: "calm c (c\<lparr>cacheMemoryStats := (cacheMemoryStats c)
      \<lparr>m_data_array_stalls := m_data_array_stalls (cacheMemoryStats c) + 1\<rparr>\<rparr>)"
    using calm_stats [OF inv, of "\<lambda>s. s\<lparr>m_data_array_stalls := m_data_array_stalls s + 1\<rparr>"]
    by (simp add: upd_stats_def)
  define arr where "arr = (if t \<in> {DataArrayRead, DataArrayWrite} then dataArray c else tagArray c)"
  have "ba_wf arr" using w by (simp add: arr_def)
  then obtain free where fr: "getBankEndTime s arr = Inr free" using getBankEndTime_wf by blast
  define basic where "basic = (if t \<in> {DataArrayRead, DataArrayWrite, TagArrayRead, TagArrayWrite}
    then basic_latency (m_retention_table c ! zone_of c s) t else 1)"
  have "(if t \<in> {DataArrayRead, DataArrayWrite, TagArrayRead, TagArrayWrite}
      then bindE (nthE (m_retention_table c) (zone_of c s)) (\<lambda>l. Inr (basic_latency l t)) else Inr 1) = Inr basic"
    using z(2) by (simp add: basic_def)
  then have "getRetentionLatency now t a c =
      (if now < free then bindE (divCeil (free - now) (ruby_clockPeriod c)) (\<lambda>cyc.
         Inr (cyc, c\<lparr>cacheMemoryStats := (cacheMemoryStats c)
           \<lparr>m_data_array_stalls := m_data_array_stalls (cacheMemoryStats c) + 1\<rparr>\<rparr>))
       else Inr (basic, c))"
    using s z(1) fr unfolding getRetentionLatency_def arr_def by simp
  then show ?thesis
    using st w(3) calm_refl [OF inv] by (auto simp: divCeil_def)
qed

end
