(* ===== verification/Cache_Access.thy ===== *)
theory Cache_Access
  imports Cache_Requests
begin

text \<open>
  The access tests of the sequencer, the locks of load-linked and store-conditional, and the
  transactional operations: what they return and what they do to the blocks.
\<close>

section \<open>Access tests\<close>

lemma expire_entry_keeps [simp]:
  "m_Permission (entry_setLastAccess now x) = m_Permission x"
  "m_locked (expire_entry now x) = m_locked x"
  by (simp_all add: entry_setLastAccess_def expire_entry_def)

definition accessible :: "AccessPermission \<Rightarrow> RubyRequestType \<Rightarrow> bool" where
  "accessible p t \<longleftrightarrow> p = Read_Write \<or> (p = Read_Only \<and> (t = LD \<or> t = IFETCH))"

definition touched :: "Tick \<Rightarrow> 'e cache_entry_scheme \<Rightarrow> 'e cache_entry_scheme" where
  "touched now x = entry_setLastAccess now (expire_entry now x)"

context replacement_policy
begin

text \<open>Look-up followed by a touch: the common start of the access tests and of \<open>setMRU\<close>.\<close>

lemma lookup_touch:
  assumes okc: "cm_ok ok c" and a: "is_line c a" and x: "blocks c a = Some x"
  obtains loc c1 c2 where "cm_lookup now a c = Inr (Some loc, c1)"
    and "touch_entry P now loc c1 = Inr c2" and "cm_ok ok c2"
    and "blocks c2 = (blocks c)(a \<mapsto> touched now x)"
    and "entry_at c2 loc = Inr (touched now x)"
    and "present_loc c a = Some loc"
proof -
  have inv: "cm_inv c" using okc by (simp add: cm_ok_def)
  obtain p c1 where l: "cm_lookup now a c = Inr (p, c1)" "cm_inv c1"
    "blocks c1 = (blocks c)(a := map_option (expire_entry now) (blocks c a))"
    "p = present_loc c a" "present_loc c1 a = present_loc c a" "replacement_data c1 = replacement_data c"
    "repl_state c1 = repl_state c" "m_tag_index c1 = m_tag_index c"
    using cm_lookup_spec [OF inv a, of now] .
  obtain e where e: "m_tag_index c a = Some e" using blocks_Some [OF inv x] .
  have ok1: "cm_ok ok c1" using l okc by (simp add: cm_ok_def)
  have b1: "blocks c1 a = Some (expire_entry now x)" using l(3) x by simp
  have e1: "m_tag_index c1 a = Some e" using e l(8) by simp
  obtain c2 where c2: "touch_entry P now (decode_loc e) c1 = Inr c2" "cm_ok ok c2"
    "blocks c2 = (blocks c1)(a \<mapsto> entry_setLastAccess now (expire_entry now x))"
    "entry_at c2 (decode_loc e) = Inr (entry_setLastAccess now (expire_entry now x))"
    using touch_entry_spec [OF ok1 b1 e1, of now] .
  have p: "p = Some (decode_loc e)" "present_loc c a = Some (decode_loc e)"
    using l(4) x e by (simp_all add: present_loc_def)
  show thesis
    by (rule that [OF l(1) [unfolded p] c2(1,2)]) (use c2 l(3) p in \<open>simp_all add: touched_def\<close>)
qed

lemma tryCacheAccess_spec:
  assumes okc: "cm_ok ok c" and a: "is_line c a"
  shows "\<exists>c'. tryCacheAccess P now a t c = Inr
      (case blocks c a of
         None \<Rightarrow> (False, None, c')
       | Some x \<Rightarrow> if accessible (m_Permission x) t then (True, present_loc c a, c') else (False, None, c'))
    \<and> cm_ok ok c' \<and> blocks c' = (blocks c)(a := map_option (touched now) (blocks c a))"
proof (cases "blocks c a")
  case None
  have inv: "cm_inv c" using okc by (simp add: cm_ok_def)
  then show ?thesis
    using None cm_lookup_None [OF inv a None, of now] okc
    by (simp add: tryCacheAccess_def fun_upd_idem)
next
  case (Some x)
  obtain loc c1 c2 where s: "cm_lookup now a c = Inr (Some loc, c1)"
    "touch_entry P now loc c1 = Inr c2" "cm_ok ok c2" "blocks c2 = (blocks c)(a \<mapsto> touched now x)"
    "entry_at c2 loc = Inr (touched now x)" "present_loc c a = Some loc"
    using lookup_touch [OF okc a Some, of now] .
  have "m_Permission (touched now x) = m_Permission x" by (simp add: touched_def)
  then show ?thesis
    using s Some by (auto simp: tryCacheAccess_def accessible_def intro!: exI [of _ c2])
qed

lemma testCacheAccess_spec:
  assumes okc: "cm_ok ok c" and a: "is_line c a"
  shows "\<exists>c'. testCacheAccess P now a t c = Inr (blocks c a \<noteq> None, present_loc c a, c')
    \<and> cm_ok ok c' \<and> blocks c' = (blocks c)(a := map_option (touched now) (blocks c a))"
proof (cases "blocks c a")
  case None
  have inv: "cm_inv c" using okc by (simp add: cm_ok_def)
  then show ?thesis
    using None cm_lookup_None [OF inv a None, of now] okc present_loc_None [of c a]
    by (simp add: testCacheAccess_def fun_upd_idem)
next
  case (Some x)
  have inv: "cm_inv c" using okc by (simp add: cm_ok_def)
  obtain loc c1 c2 where s: "cm_lookup now a c = Inr (Some loc, c1)"
    "touch_entry P now loc c1 = Inr c2" "cm_ok ok c2" "blocks c2 = (blocks c)(a \<mapsto> touched now x)"
    "entry_at c2 loc = Inr (touched now x)" "present_loc c a = Some loc"
    using lookup_touch [OF okc a Some, of now] .
  obtain e where "m_Permission x \<noteq> NotPresent" using blocks_Some [OF inv Some] .
  then have "m_Permission (touched now x) \<noteq> NotPresent" by (simp add: touched_def)
  then show ?thesis using s Some by (auto simp: testCacheAccess_def)
qed

lemma call_touch_either:
  assumes "cm_ok ok c" and "in_range c loc"
  obtains rd g where "call_policy (if b then rp_touch_occ P now occ else rp_touch P now) (Some loc) c =
      Inr (with_policy rd g c)"
    and "cm_ok ok (with_policy rd g c)"
proof (cases b)
  case True
  obtain rd g where "call_policy (rp_touch_occ P now occ) (Some loc) c = Inr (with_policy rd g c)"
    "cm_ok ok (with_policy rd g c)" using call_touch_occ [OF assms, of now occ] .
  with True that show thesis by simp
next
  case False
  obtain rd g where "call_policy (rp_touch P now) (Some loc) c = Inr (with_policy rd g c)"
    "cm_ok ok (with_policy rd g c)" using call_touch [OF assms, of now] .
  with False that show thesis by simp
qed

lemma setMRU_occ_spec:
  assumes okc: "cm_ok ok c"
  shows "\<exists>c'. setMRU_occ P now addr occ c = Inr c' \<and> cm_ok ok c' \<and>
    (let a = maskLowOrderBits addr (line_bits c) in
     blocks c' = (blocks c)(a := map_option (touched now) (blocks c a)))"
proof -
  have inv: "cm_inv c" using okc by (simp add: cm_ok_def)
  let ?a = "maskLowOrderBits addr (line_bits c)"
  have line: "cm_makeLineAddress c addr = Inr ?a" "is_line c ?a"
    by (simp_all add: cm_makeLineAddress_config cm_inv_dims(3) [OF inv] is_line_makeLine)
  show ?thesis
  proof (cases "blocks c ?a")
    case None
    then show ?thesis
      using cm_lookup_None [OF inv line(2) None, of now] okc line
      by (simp add: setMRU_occ_def Let_def fun_upd_idem)
  next
    case (Some x)
    obtain e where e: "m_tag_index c ?a = Some e"
      "cm_lookup now ?a c = Inr (Some (decode_loc e), set_entry (decode_loc e) (expire_entry now x) c)"
      using cm_lookup_Some [OF inv line(2) Some] by blast
    obtain f where "m_tag_index c ?a = Some f" "in_range c (decode_loc f)" "slot c (decode_loc f) = Some x"
      "m_Permission x \<noteq> NotPresent" "replacementData x = Some (decode_loc f)"
      using blocks_Some [OF inv Some] .
    with e(1) have x: "in_range c (decode_loc e)" "slot c (decode_loc e) = Some x"
      "m_Permission x \<noteq> NotPresent" "replacementData x = Some (decode_loc e)" by auto
    let ?c1 = "set_entry (decode_loc e) (expire_entry now x) c"
    have ok1: "cm_ok ok ?c1"
      using set_entry_inv [OF inv e(1) x(2)] okc by (simp add: cm_ok_def)
    have r1: "in_range ?c1 (decode_loc e)" "slot ?c1 (decode_loc e) = Some (expire_entry now x)"
      "m_tag_index ?c1 ?a = Some e"
      using x e by (simp_all add: slot_set_entry [OF inv x(1)])
    have at: "entry_at ?c1 (decode_loc e) = Inr (expire_entry now x)"
      using ok1 r1 by (intro entry_at_slot) (simp_all add: cm_ok_def)
    have rx: "replacementData (expire_entry now x) = Some (decode_loc e)"
      using x(4) by (simp add: expire_entry_def)
    obtain rd g where p: "call_policy (if m_use_occupancy ?c1 then rp_touch_occ P now occ else rp_touch P now)
        (Some (decode_loc e)) ?c1 = Inr (with_policy rd g ?c1)" "cm_ok ok (with_policy rd g ?c1)"
      using call_touch_either [OF ok1 r1(1), of "m_use_occupancy ?c1" now occ] .
    let ?c2 = "with_policy rd g ?c1"
    have inv2: "cm_inv ?c2" and g: "ok g rd" using p(2) by (simp_all add: cm_ok_def)
    have x2: "m_tag_index ?c2 ?a = Some e" "slot ?c2 (decode_loc e) = Some (expire_entry now x)"
      "in_range ?c2 (decode_loc e)" using r1 by simp_all
    let ?c3 = "set_entry (decode_loc e) (touched now x) ?c2"
    have m: "setMRU_occ P now addr occ c = Inr ?c3"
      using e(2) line at rx p(1) entry_at_slot [OF inv2 x2(3,2)]
      by (simp add: setMRU_occ_def mod_entry_def touched_def)
    have ok3: "cm_ok ok ?c3"
      using set_entry_inv [OF inv2 x2(1,2)] g by (simp add: cm_ok_def touched_def)
    have "blocks ?c3 = (blocks c)(?a \<mapsto> touched now x)"
      using blocks_set_entry [OF inv2 x2(1)] blocks_set_entry [OF inv e(1)] x(3)
      by (simp add: touched_def)
    then show ?thesis using m ok3 Some by (simp add: Let_def)
  qed
qed

end

section \<open>Locks\<close>

lemma lookup_mod:
  assumes inv: "cm_inv c" and a: "is_line c a" and x: "blocks c a = Some x"
    and f: "\<And>y. same_place y (f y)" "\<And>y. m_Permission (f y) = m_Permission y"
  obtains loc c1 c2 where "cm_lookup now a c = Inr (Some loc, c1)"
    and "entry_at c1 loc = Inr (expire_entry now x)" and "mod_entry f loc c1 = Inr c2"
    and "updates a (Some (expire_entry now x)) c c1"
    and "updates a (Some (f (expire_entry now x))) c c2"
proof -
  obtain e where e: "m_tag_index c a = Some e"
    "cm_lookup now a c = Inr (Some (decode_loc e), set_entry (decode_loc e) (expire_entry now x) c)"
    using cm_lookup_Some [OF inv a x] by blast
  obtain g where "m_tag_index c a = Some g" "in_range c (decode_loc g)"
    "slot c (decode_loc g) = Some x" "m_Permission x \<noteq> NotPresent" using blocks_Some [OF inv x] .
  with e(1) have s: "in_range c (decode_loc e)" "slot c (decode_loc e) = Some x" "m_Permission x \<noteq> NotPresent"
    by auto
  let ?c1 = "set_entry (decode_loc e) (expire_entry now x) c"
  have i1: "cm_inv ?c1" by (rule set_entry_inv [OF inv e(1) s(2)]) simp
  have u1: "updates a (Some (expire_entry now x)) c ?c1"
    using i1 blocks_set_entry [OF inv e(1), of "expire_entry now x"] s(3)
    by (simp add: updates_def frame_def cfg_def) (simp add: set_entry_def)
  have r1: "in_range ?c1 (decode_loc e)" "slot ?c1 (decode_loc e) = Some (expire_entry now x)"
    "m_tag_index ?c1 a = Some e"
    using s e by (simp_all add: slot_set_entry [OF inv s(1)])
  obtain y where y: "slot ?c1 (decode_loc e) = Some y"
    "mod_entry f (decode_loc e) ?c1 = Inr (set_entry (decode_loc e) (f y) ?c1)"
    "updates a (if m_Permission (f y) \<noteq> NotPresent then Some (f y) else None) ?c1
      (set_entry (decode_loc e) (f y) ?c1)"
    using mod_entry_updates [OF i1 r1(3), of f, OF f(1)] .
  have u2: "updates a (Some (f (expire_entry now x))) c (set_entry (decode_loc e) (f y) ?c1)"
  proof -
    have "y = expire_entry now x" using y(1) r1(2) by simp
    moreover from this have "m_Permission (f y) \<noteq> NotPresent" using f(2) s(3) by simp
    ultimately show ?thesis using updates_updates [OF u1 y(3)] by simp
  qed
  show thesis
    by (rule that [OF e(2) entry_at_slot [OF i1 r1(1,2)] y(2) u1 u2])
qed

lemma cm_setLocked_spec:
  assumes "cm_inv c" and "is_line c a" and "blocks c a = Some x"
  shows "\<exists>c'. cm_setLocked now a ctx c = Inr c' \<and>
    updates a (Some (entry_setLocked ctx (expire_entry now x))) c c'"
proof -
  obtain loc c1 c2 where "cm_lookup now a c = Inr (Some loc, c1)"
    "mod_entry (entry_setLocked ctx) loc c1 = Inr c2"
    "updates a (Some (entry_setLocked ctx (expire_entry now x))) c c2"
    by (rule lookup_mod [OF assms, of "entry_setLocked ctx" now]) (simp_all add: entry_setLocked_def same_place_def)
  then show ?thesis by (simp add: cm_setLocked_def)
qed

lemma cm_clearLocked_spec:
  assumes "cm_inv c" and "is_line c a" and "blocks c a = Some x"
  shows "\<exists>c'. cm_clearLocked now a c = Inr c' \<and>
    updates a (Some (entry_clearLocked (expire_entry now x))) c c'"
proof -
  obtain loc c1 c2 where "cm_lookup now a c = Inr (Some loc, c1)"
    "mod_entry entry_clearLocked loc c1 = Inr c2"
    "updates a (Some (entry_clearLocked (expire_entry now x))) c c2"
    by (rule lookup_mod [OF assms, of entry_clearLocked now]) (simp_all add: entry_clearLocked_def same_place_def)
  then show ?thesis by (simp add: cm_clearLocked_def)
qed

lemma cm_isLocked_spec:
  assumes "cm_inv c" and "is_line c a" and "blocks c a = Some x"
  shows "\<exists>c'. cm_isLocked now a ctx c = Inr (m_locked x = ctx, c') \<and>
    updates a (Some (expire_entry now x)) c c'"
proof -
  obtain loc c1 c2 where "cm_lookup now a c = Inr (Some loc, c1)"
    "entry_at c1 loc = Inr (expire_entry now x)" "updates a (Some (expire_entry now x)) c c1"
    by (rule lookup_mod [OF assms, of id now]) simp_all
  then show ?thesis by (simp add: cm_isLocked_def entry_isLocked_def)
qed

lemma lock_ops_absent:
  assumes "cm_inv c" and "is_line c a" and "blocks c a = None"
  shows "cm_setLocked now a ctx c = Inl (AssertFail ''entry != nullptr'')"
    and "cm_clearLocked now a c = Inl (AssertFail ''entry != nullptr'')"
    and "cm_isLocked now a ctx c = Inl (AssertFail ''entry != nullptr'')"
  using cm_lookup_None [OF assms, of now]
  by (simp_all add: cm_setLocked_def cm_clearLocked_def cm_isLocked_def)

section \<open>Updates of every entry\<close>

lemma slot_map_entries:
  "cm_inv c \<Longrightarrow> in_range c loc \<Longrightarrow> slot (map_entries f c) loc = map_option f (slot c loc)"
  using cm_inv_dims(1) [of c] by (simp add: map_entries_def dims_length)

lemma map_entries_frame [simp]:
  "m_tag_index (map_entries f c) = m_tag_index c"
  "m_cache_num_sets (map_entries f c) = m_cache_num_sets c"
  "m_cache_assoc (map_entries f c) = m_cache_assoc c"
  "is_line (map_entries f c) = is_line c"
  "replacement_data (map_entries f c) = replacement_data c"
  "repl_state (map_entries f c) = repl_state c"
  by (simp_all add: map_entries_def)

lemma map_entries_inv:
  assumes inv: "cm_inv c" and f: "\<And>y. same_place y (f y)" "\<And>y. m_Permission (f y) = m_Permission y"
  shows "frame c (map_entries f c)" and "blocks (map_entries f c) = (\<lambda>a. map_option f (blocks c a))"
proof -
  let ?c = "map_entries f c"
  have ad: "m_Address (f y) = m_Address y" "replacementData (f y) = replacementData y" for y
    using f(1) [of y] by (simp_all add: same_place_def)
  have "index_ok ?c"
    unfolding index_ok_def
  proof (intro conjI allI impI)
    fix a e assume "m_tag_index ?c a = Some e"
    then have e: "m_tag_index c a = Some e" by simp
    obtain x where x: "is_line c a" "in_range c (decode_loc e)" "slot c (decode_loc e) = Some x" "m_Address x = a"
      using indexed [OF inv e] .
    show "is_line ?c a" using x by simp
    show "fst (decode_loc e) < m_cache_num_sets ?c" "snd (decode_loc e) < m_cache_assoc ?c" using x by simp_all
    show "\<exists>x. slot ?c (decode_loc e) = Some x \<and> m_Address x = a"
      using x ad by (simp add: slot_map_entries [OF inv])
  next
    fix loc z assume r: "in_range ?c loc" and "slot ?c loc = Some z"
    then have r': "in_range c loc" by simp
    obtain y where y: "slot c loc = Some y" "z = f y"
      using \<open>slot ?c loc = Some z\<close> slot_map_entries [OF inv r', of f] by auto
    show "replacementData z = Some loc" using present(1) [OF inv r' y(1)] y(2) ad by simp
    assume "m_Permission z \<noteq> NotPresent"
    then show "m_tag_index ?c (m_Address z) = Some (encode_loc (fst loc) (snd loc))"
      using present(2) [OF inv r' y(1)] y(2) ad f(2) by simp
  qed
  moreover have "shape ?c"
    using inv by (simp add: cm_inv_def shape_def map_entries_def dims_def)
  ultimately have "cm_inv ?c"
    using inv by (simp add: cm_inv_def) (simp add: map_entries_def)
  then show "frame c ?c" by (simp add: frame_def cfg_def) (simp add: map_entries_def)
  show "blocks ?c = (\<lambda>a. map_option f (blocks c a))"
  proof
    fix a show "blocks ?c a = map_option f (blocks c a)"
    proof (cases "m_tag_index c a")
      case (Some e)
      obtain x where x: "in_range c (decode_loc e)" "slot c (decode_loc e) = Some x"
        using indexed [OF inv Some] .
      then show ?thesis using Some f(2) by (simp add: blocks_def slot_map_entries [OF inv])
    qed (simp add: blocks_def)
  qed
qed

lemma clearLockedAll_spec:
  assumes "cm_inv c"
  shows "frame c (clearLockedAll ctx c)"
    and "blocks (clearLockedAll ctx c) =
      (\<lambda>a. map_option (\<lambda>e. if entry_isLocked ctx e then entry_clearLocked e else e) (blocks c a))"
  unfolding clearLockedAll_def
  by (rule map_entries_inv [OF assms], simp_all add: entry_clearLocked_def same_place_def)+

lemma htm_clear_keeps [simp]: "same_place x (htm_clear x)" "m_Permission (htm_clear x) = m_Permission x"
  by (simp_all add: htm_clear_def entry_defs same_place_def)

text \<open>
  Committing and aborting leave no block in a read or write set and no lock; aborting also runs
  the protocol's invalidation on the blocks of the write set.
\<close>

lemma calm_htm_stats:
  assumes "frame c c1"
    and "\<And>s. length (m_accesses_per_set (f s)) = length (m_accesses_per_set s)"
    and "\<And>s. length (m_chunk_reads (f s)) = length (m_chunk_reads s)"
    and "\<And>s. length (m_chunk_writes (f s)) = length (m_chunk_writes s)"
  shows "frame c (upd_stats f c1)"
  using calm_frame [OF calm_stats [OF frameD(1) [OF assms(1)] assms(2-4)]] assms(1)
  by (simp add: frame_def)

lemma htmCommit_spec:
  assumes "cm_inv c"
  shows "frame c (htmCommitTransaction c)"
    and "blocks (htmCommitTransaction c) = (\<lambda>a. map_option htm_clear (blocks c a))"
proof -
  note m = map_entries_inv [OF assms htm_clear_keeps]
  show "frame c (htmCommitTransaction c)"
    unfolding htmCommitTransaction_def Let_def by (rule calm_htm_stats [OF m(1)]) simp_all
  show "blocks (htmCommitTransaction c) = (\<lambda>a. map_option htm_clear (blocks c a))"
    unfolding htmCommitTransaction_def Let_def using m(2) by simp
qed

definition htm_aborted :: "('e \<Rightarrow> 'e) \<Rightarrow> 'e cache_entry_scheme \<Rightarrow> 'e cache_entry_scheme" where
  "htm_aborted f e = htm_clear (if m_htmInWriteSet e then cache_entry.more_update f e else e)"

lemma htmAbort_spec:
  assumes "cm_inv c"
  shows "frame c (htmAbortTransaction f c)"
    and "blocks (htmAbortTransaction f c) = (\<lambda>a. map_option (htm_aborted f) (blocks c a))"
proof -
  have k: "same_place x (htm_aborted f x)" "m_Permission (htm_aborted f x) = m_Permission x" for x
    by (simp_all add: htm_aborted_def htm_clear_def entry_defs same_place_def)
  note m = map_entries_inv [OF assms k]
  have e: "(\<lambda>e. htm_clear (if m_htmInWriteSet e then cache_entry.more_update f e else e)) = htm_aborted f"
    by (simp add: htm_aborted_def fun_eq_iff)
  show "frame c (htmAbortTransaction f c)"
    unfolding htmAbortTransaction_def Let_def e by (rule calm_htm_stats [OF m(1)]) simp_all
  show "blocks (htmAbortTransaction f c) = (\<lambda>a. map_option (htm_aborted f) (blocks c a))"
    unfolding htmAbortTransaction_def Let_def e using m(2) by simp
qed

end
