(* ===== verification/Cache_Machine.thy ===== *)
theory Cache_Machine
  imports Cache_Access
begin

text \<open>
  The cache as a state machine: its construction, the operations a coherence controller and the
  sequencer call, and the states they reach.

  \<open>enabled\<close> is the precondition of each operation.  An operation succeeds exactly when it is
  enabled, keeps the invariant, and acts on the map of present blocks as \<open>abs_step\<close> says.  The
  invariant then holds in every state that is reachable from a constructed cache, whatever the
  replacement policy, as long as the policy meets its contract.
\<close>

section \<open>Operations as labels\<close>

text \<open>
  \<open>OpChangePermission\<close> is what a controller does to an entry it has looked up
  (\<^verbatim>\<open>AbstractCacheEntry::changePermission\<close>).
\<close>

datatype 'e cache_op =
    OpLookup Tick Addr
  | OpTryAccess Tick Addr RubyRequestType
  | OpTestAccess Tick Addr RubyRequestType
  | OpAllocate Tick Addr "'e cache_entry_scheme"
  | OpDeallocate Tick Addr
  | OpProbe Tick Addr
  | OpSetMRU Tick Addr
  | OpSetMRUOcc Tick Addr int
  | OpSetLocked Tick Addr int
  | OpClearLocked Tick Addr
  | OpIsLocked Tick Addr int
  | OpClearLockedAll int
  | OpRecord Tick CacheRequestType Addr
  | OpCheck Tick CacheResourceType Addr
  | OpLatency Tick CacheRequestType Addr
  | OpHtmAbort
  | OpHtmCommit
  | OpChangePermission Addr AccessPermission

definition change_permission ::
  "Addr \<Rightarrow> AccessPermission \<Rightarrow> ('d, 'g, 'e) cache_memory \<Rightarrow> ('d, 'g, 'e) cache_memory res" where
  "change_permission a p c =
     bindE (findTagInSet c a) (\<lambda>q.
     on_entry q (mod_entry (entry_changePermission p)) c)"

fun run_op ::
  "('d, 'g) repl_policy \<Rightarrow> ('e \<Rightarrow> 'e) \<Rightarrow> 'e cache_op \<Rightarrow> ('d, 'g, 'e) cache_memory \<Rightarrow>
   ('d, 'g, 'e) cache_memory res" where
  "run_op P f (OpLookup now a) c = bindE (cm_lookup now a c) (\<lambda>(_, c'). Inr c')"
| "run_op P f (OpTryAccess now a t) c = bindE (tryCacheAccess P now a t c) (\<lambda>(_, _, c'). Inr c')"
| "run_op P f (OpTestAccess now a t) c = bindE (testCacheAccess P now a t c) (\<lambda>(_, _, c'). Inr c')"
| "run_op P f (OpAllocate now a e) c = bindE (allocate P now a e c) (\<lambda>(_, c'). Inr c')"
| "run_op P f (OpDeallocate now a) c = deallocate P now a c"
| "run_op P f (OpProbe now a) c = bindE (cacheProbe P now a c) (\<lambda>(_, c'). Inr c')"
| "run_op P f (OpSetMRU now a) c = setMRU P now a c"
| "run_op P f (OpSetMRUOcc now a occ) c = setMRU_occ P now a occ c"
| "run_op P f (OpSetLocked now a ctx) c = cm_setLocked now a ctx c"
| "run_op P f (OpClearLocked now a) c = cm_clearLocked now a c"
| "run_op P f (OpIsLocked now a ctx) c = bindE (cm_isLocked now a ctx c) (\<lambda>(_, c'). Inr c')"
| "run_op P f (OpClearLockedAll ctx) c = Inr (clearLockedAll ctx c)"
| "run_op P f (OpRecord now t a) c = recordRequestType now t a c"
| "run_op P f (OpCheck now r a) c = bindE (checkResourceAvailable now r a c) (\<lambda>(_, c'). Inr c')"
| "run_op P f (OpLatency now t a) c = bindE (getRetentionLatency now t a c) (\<lambda>(_, c'). Inr c')"
| "run_op P f OpHtmAbort c = Inr (htmAbortTransaction f c)"
| "run_op P f OpHtmCommit c = Inr (htmCommitTransaction c)"
| "run_op P f (OpChangePermission a p) c = change_permission a p c"

fun enabled :: "'e cache_op \<Rightarrow> ('d, 'g, 'e) cache_memory \<Rightarrow> bool" where
  "enabled (OpLookup now a) c = is_line c a"
| "enabled (OpTryAccess now a t) c = is_line c a"
| "enabled (OpTestAccess now a t) c = is_line c a"
| "enabled (OpAllocate now a e) c = (is_line c a \<and> cacheAvail a c = Inr True)"
| "enabled (OpDeallocate now a) c = is_line c a"
| "enabled (OpProbe now a) c = (is_line c a \<and> cacheAvail a c = Inr False)"
| "enabled (OpSetMRU now a) c = True"
| "enabled (OpSetMRUOcc now a occ) c = True"
| "enabled (OpSetLocked now a ctx) c = (is_line c a \<and> blocks c a \<noteq> None)"
| "enabled (OpClearLocked now a) c = (is_line c a \<and> blocks c a \<noteq> None)"
| "enabled (OpIsLocked now a ctx) c = (is_line c a \<and> blocks c a \<noteq> None)"
| "enabled (OpClearLockedAll ctx) c = True"
| "enabled (OpRecord now t a) c = is_line c a"
| "enabled (OpCheck now r a) c =
     (\<not> m_resource_stalls c \<or> r = AtomicALUArray \<or> ((r = TagArray \<or> r = DataArray) \<and> is_line c a))"
| "enabled (OpLatency now t a) c = is_line c a"
| "enabled OpHtmAbort c = True"
| "enabled OpHtmCommit c = True"
| "enabled (OpChangePermission a p) c = is_line c a"

section \<open>What a failed precondition does\<close>

lemma needs_line:
  assumes "cm_inv c"
  shows "cm_lookup now a c = Inr r1 \<Longrightarrow> is_line c a" and "allocate P now a e c = Inr r2 \<Longrightarrow> is_line c a"
    and "deallocate P now a c = Inr r3 \<Longrightarrow> is_line c a" and "cacheProbe P now a c = Inr r4 \<Longrightarrow> is_line c a"
    and "recordRequestType now t a c = Inr r5 \<Longrightarrow> is_line c a"
    and "getRetentionLatency now t a c = Inr r6 \<Longrightarrow> is_line c a"
    and "change_permission a p c = Inr r7 \<Longrightarrow> is_line c a"
  using addressToCacheSet_Inr(1) [OF cm_inv_dims(3) [OF assms], of a]
    assert_line_config [OF cm_inv_dims(3) [OF assms], of a]
  by (auto simp: cm_lookup_def allocate_def deallocate_def cacheProbe_def recordRequestType_def
      record_preamble_def getRetentionLatency_def change_permission_def findTagInSet_def bindE_eq_Inr)

lemma needs_block:
  assumes "cm_inv c"
  shows "cm_setLocked now a ctx c = Inr r1 \<Longrightarrow> is_line c a \<and> blocks c a \<noteq> None"
    and "cm_clearLocked now a c = Inr r2 \<Longrightarrow> is_line c a \<and> blocks c a \<noteq> None"
    and "cm_isLocked now a ctx c = Inr r3 \<Longrightarrow> is_line c a \<and> blocks c a \<noteq> None"
proof -
  have l: "is_line c a" if "\<exists>r. cm_lookup now a c = Inr r" using that needs_line(1) [OF assms] by blast
  show "is_line c a \<and> blocks c a \<noteq> None" if "cm_setLocked now a ctx c = Inr r1"
    using l that lock_ops_absent(1) [OF assms, of a now ctx]
    by (cases "blocks c a") (auto simp: cm_setLocked_def bindE_eq_Inr)
  show "is_line c a \<and> blocks c a \<noteq> None" if "cm_clearLocked now a c = Inr r2"
    using l that lock_ops_absent(2) [OF assms, of a now]
    by (cases "blocks c a") (auto simp: cm_clearLocked_def bindE_eq_Inr)
  show "is_line c a \<and> blocks c a \<noteq> None" if "cm_isLocked now a ctx c = Inr r3"
    using l that lock_ops_absent(3) [OF assms, of a now ctx]
    by (cases "blocks c a") (auto simp: cm_isLocked_def bindE_eq_Inr)
qed

lemma cacheProbe_needs_full:
  "cacheProbe P now a c = Inr r \<Longrightarrow> cacheAvail a c = Inr False"
  by (auto simp: cacheProbe_def res_iffs)

lemma cacheAvail_total:
  assumes "cm_inv c" and "is_line c a"
  obtains b where "cacheAvail a c = Inr b"
proof -
  obtain s where "addressToCacheSet c a = Inr s" using addressToCacheSet_inv [OF assms] .
  then show thesis using cacheAvail_spec [OF assms] that by blast
qed

lemma change_permission_spec:
  assumes inv: "cm_inv c" and a: "is_line c a"
  shows "\<exists>c'. change_permission a p c = Inr c' \<and>
    updates a (if p \<noteq> NotPresent then map_option (entry_changePermission p) (blocks c a) else None) c c'"
proof (cases "blocks c a")
  case None
  then have "present_loc c a = None" by (simp add: present_loc_None)
  then show ?thesis
    using None findTagInSet_inv [OF inv a] calm_is_update [OF calm_refl [OF inv], of a]
    by (simp add: change_permission_def on_entry_def)
next
  case (Some x)
  obtain e where e: "m_tag_index c a = Some e" "slot c (decode_loc e) = Some x"
    using blocks_Some [OF inv Some] .
  obtain y where y: "slot c (decode_loc e) = Some y"
    "mod_entry (entry_changePermission p) (decode_loc e) c =
      Inr (set_entry (decode_loc e) (entry_changePermission p y) c)"
    "updates a (if m_Permission (entry_changePermission p y) \<noteq> NotPresent
       then Some (entry_changePermission p y) else None) c
       (set_entry (decode_loc e) (entry_changePermission p y) c)"
    using mod_entry_updates [OF inv e(1), of "entry_changePermission p", OF same_place_entry(1)] .
  have "m_Permission (entry_changePermission p y) = p"
    by (simp add: entry_changePermission_def Let_def)
  then show ?thesis
    using y e Some findTagInSet_inv [OF inv a]
    by (auto simp: change_permission_def on_entry_def present_loc_def)
qed

section \<open>The abstract cache\<close>

text \<open>
  The specification of each operation on the map of present blocks; \<open>lb\<close> is the number of
  address bits inside a line.
\<close>

fun abs_step ::
  "('e \<Rightarrow> 'e) \<Rightarrow> nat \<Rightarrow> 'e cache_op \<Rightarrow> (Addr \<rightharpoonup> 'e cache_entry_scheme) \<Rightarrow>
   (Addr \<rightharpoonup> 'e cache_entry_scheme) \<Rightarrow> bool" where
  "abs_step f lb (OpLookup now a) m m' = (m' = m(a := map_option (expire_entry now) (m a)))"
| "abs_step f lb (OpTryAccess now a t) m m' = (m' = m(a := map_option (touched now) (m a)))"
| "abs_step f lb (OpTestAccess now a t) m m' = (m' = m(a := map_option (touched now) (m a)))"
| "abs_step f lb (OpAllocate now a e) m m' =
     (\<exists>x. m' = m(a \<mapsto> x) \<and> m_Address x = a \<and> m_Permission x = PermInvalid \<and>
        \<not> m_is_expired x \<and> m_last_refresh_tick x = now \<and> m_last_touch_tick x = now)"
| "abs_step f lb (OpDeallocate now a) m m' = (m' = m(a := None))"
| "abs_step f lb (OpProbe now a) m m' = (m' = m)"
| "abs_step f lb (OpSetMRU now addr) m m' =
     (let a = maskLowOrderBits addr lb in m' = m(a := map_option (touched now) (m a)))"
| "abs_step f lb (OpSetMRUOcc now addr occ) m m' =
     (let a = maskLowOrderBits addr lb in m' = m(a := map_option (touched now) (m a)))"
| "abs_step f lb (OpSetLocked now a ctx) m m' =
     (m' = m(a := map_option (\<lambda>x. entry_setLocked ctx (expire_entry now x)) (m a)))"
| "abs_step f lb (OpClearLocked now a) m m' =
     (m' = m(a := map_option (\<lambda>x. entry_clearLocked (expire_entry now x)) (m a)))"
| "abs_step f lb (OpIsLocked now a ctx) m m' = (m' = m(a := map_option (expire_entry now) (m a)))"
| "abs_step f lb (OpClearLockedAll ctx) m m' =
     (m' = (\<lambda>a. map_option (\<lambda>e. if entry_isLocked ctx e then entry_clearLocked e else e) (m a)))"
| "abs_step f lb (OpRecord now t a) m m' =
     ((\<forall>b. b \<noteq> a \<longrightarrow> m' b = m b) \<and>
      (\<forall>x. m a = Some x \<longrightarrow> (\<exists>tl ol. m' a = Some (recorded now t tl ol x))))"
| "abs_step f lb (OpCheck now r a) m m' = (m' = m)"
| "abs_step f lb (OpLatency now t a) m m' = (m' = m)"
| "abs_step f lb OpHtmAbort m m' = (m' = (\<lambda>a. map_option (htm_aborted f) (m a)))"
| "abs_step f lb OpHtmCommit m m' = (m' = (\<lambda>a. map_option htm_clear (m a)))"
| "abs_step f lb (OpChangePermission a p) m m' =
     (m' = m(a := (if p \<noteq> NotPresent then map_option (entry_changePermission p) (m a) else None)))"

lemma allocate_result_fields:
  assumes "cm_inv c" and "\<And>e. m_tag_index c a = Some e \<Longrightarrow> loc = decode_loc e"
  shows "m_Address (allocate_result now a entry loc c) = a"
    and "m_Permission (allocate_result now a entry loc c) = PermInvalid"
    and "\<not> m_is_expired (allocate_result now a entry loc c)"
    and "m_last_refresh_tick (allocate_result now a entry loc c) = now"
    and "m_last_touch_tick (allocate_result now a entry loc c) = now"
proof -
  show "m_Address (allocate_result now a entry loc c) = a"
  proof (cases "m_tag_index c a")
    case (Some e)
    obtain x where "slot c (decode_loc e) = Some x" "m_Address x = a" using indexed [OF assms(1) Some] .
    then show ?thesis using Some assms(2) by (simp add: allocate_result_def allocated_def)
  qed (simp add: allocate_result_def allocated_def)
qed (simp_all add: allocate_result_def allocated_def split: option.splits)

lemma ok_of_updates: "updates a v c c' \<Longrightarrow> cm_ok ok c \<Longrightarrow> cm_ok ok c'"
  using frame_ok updates_frame by blast

lemma ok_of_calm: "calm c c' \<Longrightarrow> cm_ok ok c \<Longrightarrow> cm_ok ok c'"
  using frame_ok calm_frame by blast

section \<open>Every operation refines its specification\<close>

text \<open>The operations that do not call the replacement policy.\<close>

lemma run_op_no_policy:
  assumes inv: "cm_inv c" and en: "enabled op c"
    and op: "case op of OpTryAccess _ _ _ \<Rightarrow> False | OpTestAccess _ _ _ \<Rightarrow> False | OpAllocate _ _ _ \<Rightarrow> False
      | OpDeallocate _ _ \<Rightarrow> False | OpProbe _ _ \<Rightarrow> False | OpSetMRU _ _ \<Rightarrow> False
      | OpSetMRUOcc _ _ _ \<Rightarrow> False | _ \<Rightarrow> True"
  shows "\<exists>c'. run_op P f op c = Inr c' \<and> frame c c' \<and> abs_step f (line_bits c) op (blocks c) (blocks c')"
proof (cases op)
  case (OpLookup now a)
  then have a: "is_line c a" using en by simp
  obtain p c1 where l: "cm_lookup now a c = Inr (p, c1)" "cm_inv c1"
    "blocks c1 = (blocks c)(a := map_option (expire_entry now) (blocks c a))"
    using cm_lookup_spec [OF inv a, of now] .
  have "frame c c1"
  proof (cases "blocks c a")
    case None
    then show ?thesis using l cm_lookup_None [OF inv a None, of now] calm_frame [OF calm_refl [OF inv]] by simp
  next
    case (Some x)
    obtain loc d c2 where "cm_lookup now a c = Inr (Some loc, d)" "updates a (Some (expire_entry now x)) c d"
      by (rule lookup_mod [OF inv a Some, of id now]) simp_all
    then show ?thesis using l(1) updates_frame by auto
  qed
  then show ?thesis using OpLookup l by simp
next
  case (OpSetLocked now a ctx)
  then obtain x where "is_line c a" "blocks c a = Some x" using en by auto
  then show ?thesis
    using OpSetLocked cm_setLocked_spec [OF inv, of a x now ctx] by (auto simp: updates_def)
next
  case (OpClearLocked now a)
  then obtain x where "is_line c a" "blocks c a = Some x" using en by auto
  then show ?thesis
    using OpClearLocked cm_clearLocked_spec [OF inv, of a x now] by (auto simp: updates_def)
next
  case (OpIsLocked now a ctx)
  then obtain x where "is_line c a" "blocks c a = Some x" using en by auto
  then show ?thesis
    using OpIsLocked cm_isLocked_spec [OF inv, of a x now ctx] by (auto simp: updates_def)
next
  case (OpClearLockedAll ctx)
  then show ?thesis using clearLockedAll_spec [OF inv, of ctx] by simp
next
  case (OpRecord now t a)
  then have a: "is_line c a" using en by simp
  obtain s where s: "addressToCacheSet c a = Inr s" using addressToCacheSet_inv [OF inv a] .
  obtain c' where c': "recordRequestType now t a c = Inr c'" "frame c c'"
    "\<And>b. b \<noteq> a \<Longrightarrow> blocks c' b = blocks c b"
    "\<And>x loc. blocks c a = Some x \<Longrightarrow> present_loc c a = Some loc \<Longrightarrow>
      blocks c' a = Some (recorded now t (limit_at c s) (limit_at c (fst loc)) x)"
    by (rule recordRequestType_spec [OF inv a s, of now t]) (rule that)
  have "\<exists>tl ol. blocks c' a = Some (recorded now t tl ol x)" if x: "blocks c a = Some x" for x
  proof -
    obtain loc where "present_loc c a = Some loc" using present_loc_None [of c a] x by auto
    then show ?thesis using c'(4) [OF x] by blast
  qed
  then show ?thesis using OpRecord c' by simp
next
  case (OpCheck now r a)
  then obtain b c' where "checkResourceAvailable now r a c = Inr (b, c')" "calm c c'"
    using checkResourceAvailable_spec [OF inv, of r a now] en by auto
  then show ?thesis using OpCheck by (simp add: calm_def)
next
  case (OpLatency now t a)
  then obtain l c' where "getRetentionLatency now t a c = Inr (l, c')" "calm c c'"
    using getRetentionLatency_spec [OF inv, of a now t] en by auto
  then show ?thesis using OpLatency by (simp add: calm_def)
next
  case OpHtmAbort
  then show ?thesis using htmAbort_spec [OF inv, of f] by simp
next
  case OpHtmCommit
  then show ?thesis using htmCommit_spec [OF inv] by simp
next
  case (OpChangePermission a p)
  then show ?thesis
    using change_permission_spec [OF inv, of a p] en by (auto simp: updates_def)
qed (use op in simp_all)

lemma run_op_enabled:
  assumes inv: "cm_inv c" and r: "run_op P f op c = Inr c'" and al: "\<And>now a e. op \<noteq> OpAllocate now a e"
  shows "enabled op c"
proof (cases op)
  case (OpCheck now rs a)
  then show ?thesis
    using r addressToCacheSet_Inr(1) [OF cm_inv_dims(3) [OF inv], of a]
    by (cases rs) (auto simp: res_iffs checkResourceAvailable_def)
next
  case (OpProbe now a)
  then show ?thesis
    using r needs_line(4) [OF inv] cacheProbe_needs_full by (auto simp: res_iffs)
qed (use r al in \<open>auto simp: res_iffs tryCacheAccess_def testCacheAccess_def
      dest: needs_line [OF inv] needs_block [OF inv]\<close>)

context replacement_policy
begin

lemma run_op_policy:
  assumes okc: "cm_ok ok c" and en: "enabled op c"
  shows "\<exists>c'. run_op P f op c = Inr c' \<and> cm_ok ok c' \<and> abs_step f (line_bits c) op (blocks c) (blocks c')"
proof -
  have inv: "cm_inv c" using okc by (simp add: cm_ok_def)
  have rest: ?thesis if "case op of OpTryAccess _ _ _ \<Rightarrow> False | OpTestAccess _ _ _ \<Rightarrow> False | OpAllocate _ _ _ \<Rightarrow> False
      | OpDeallocate _ _ \<Rightarrow> False | OpProbe _ _ \<Rightarrow> False | OpSetMRU _ _ \<Rightarrow> False
      | OpSetMRUOcc _ _ _ \<Rightarrow> False | _ \<Rightarrow> True"
    using run_op_no_policy [OF inv en that, of P f] frame_ok [OF _ okc] by blast
  show ?thesis
  proof (cases op)
    case (OpTryAccess now a t)
    then show ?thesis
      using tryCacheAccess_spec [OF okc, of a now t] en by (fastforce split: option.splits if_splits)
  next
    case (OpTestAccess now a t)
    then show ?thesis using testCacheAccess_spec [OF okc, of a now t] en by fastforce
  next
    case (OpAllocate now a e)
    then have a: "is_line c a" "cacheAvail a c = Inr True" using en by simp_all
    obtain loc c' where c': "allocate P now a e c = Inr (loc, c')" "cm_ok ok c'"
      "blocks c' = (blocks c)(a \<mapsto> allocate_result now a e loc c)" "present_loc c' a = Some loc"
      by (rule allocate_spec [OF okc a, of now e]) (rule that)
    have "loc = decode_loc i" if i: "m_tag_index c a = Some i" for i
    proof -
      obtain s where "addressToCacheSet c a = Inr s" using addressToCacheSet_inv [OF inv a(1)] .
      then have "allocate_reuse P now a (decode_loc i) c = Inr (loc, c')"
        using c'(1) i findTagInSetIgnorePermissions_inv [OF inv a(1)] by (simp add: allocate_def)
      then show ?thesis by (auto simp: allocate_reuse_def Let_def res_iffs)
    qed
    note al = allocate_result_fields [OF inv this, where now = now and entry = e]
    show ?thesis using OpAllocate c' al by auto
  next
    case (OpDeallocate now a)
    then have a: "is_line c a" using en by simp
    obtain c' where "deallocate P now a c = Inr c'" "cm_ok ok c'" "blocks c' = (blocks c)(a := None)"
      by (rule deallocate_spec [OF okc a, of now]) (rule that)
    then show ?thesis using OpDeallocate by simp
  next
    case (OpProbe now a)
    then have a: "is_line c a" "cacheAvail a c = Inr False" using en by simp_all
    obtain s where s: "addressToCacheSet c a = Inr s" using addressToCacheSet_inv [OF inv a(1)] .
    obtain v c' where "cacheProbe P now a c = Inr (v, c')" "cm_ok ok c'" "\<exists>rd g. c' = with_policy rd g c"
      by (rule cacheProbe_spec [OF okc a s, of now]) (rule that)
    then show ?thesis using OpProbe by auto
  next
    case (OpSetMRU now a)
    then show ?thesis using setMRU_spec [OF okc, of now a] by (simp add: touched_def [abs_def])
  next
    case (OpSetMRUOcc now a occ)
    then show ?thesis using setMRU_occ_spec [OF okc, of now a occ] by simp
  qed (use rest in simp_all)
qed

lemma run_op_iff:
  assumes okc: "cm_ok ok c"
  shows "(\<exists>c'. run_op P f op c = Inr c') \<longleftrightarrow> enabled op c"
proof
  have inv: "cm_inv c" using okc by (simp add: cm_ok_def)
  assume "\<exists>c'. run_op P f op c = Inr c'"
  then obtain c' where r: "run_op P f op c = Inr c'" by blast
  show "enabled op c"
  proof (cases "\<exists>now a e. op = OpAllocate now a e")
    case True
    then obtain now a e where op: "op = OpAllocate now a e" by blast
    then have a: "is_line c a" using r needs_line(2) [OF inv] by (auto simp: res_iffs)
    obtain b where b: "cacheAvail a c = Inr b" using cacheAvail_total [OF inv a] .
    have b
    proof (rule ccontr)
      assume "\<not> b"
      then have "allocate P now a e c = Inl (Panic ''Set is full. No expired or invalid blocks to evict.'')"
        using allocate_full [OF okc a, of now e] b by simp
      then show False using r op by simp
    qed
    then show ?thesis using op a b by simp
  next
    case False
    then show ?thesis using run_op_enabled [OF inv r] by blast
  qed
qed (use run_op_policy [OF okc] in blast)

lemma run_op_ok: "cm_ok ok c \<Longrightarrow> run_op P f op c = Inr c' \<Longrightarrow> cm_ok ok c'"
  using run_op_iff [of c f op] run_op_policy [of c op f] by auto

end

section \<open>Reachable states\<close>

inductive reachable ::
  "('d, 'g) repl_policy \<Rightarrow> ('e \<Rightarrow> 'e) \<Rightarrow> ('d, 'g, 'e) cache_memory \<Rightarrow>
   ('d, 'g, 'e) cache_memory \<Rightarrow> bool"
  for P f c0
  where
    start: "reachable P f c0 c0"
  | step: "reachable P f c0 c \<Longrightarrow> run_op P f op c = Inr c' \<Longrightarrow> reachable P f c0 c'"

context replacement_policy
begin

lemma reachable_ok: "reachable P f c0 c \<Longrightarrow> cm_ok ok c0 \<Longrightarrow> cm_ok ok c"
  by (induction rule: reachable.induct) (auto intro: run_op_ok)

end

end
