(* ===== verification/Cache_Boot.thy ===== *)
theory Cache_Boot
  imports Cache_Machine
begin

text \<open>
  Construction of a cache: the constructor, \<^verbatim>\<open>init\<close> and \<^verbatim>\<open>regStats\<close> in the order the simulator
  runs them.  A cache built from well-formed parameters satisfies the invariant and is empty.
\<close>

definition cm_boot ::
  "('d, 'g) repl_policy \<Rightarrow> 'g \<Rightarrow> cache_params \<Rightarrow> Tick \<Rightarrow> nat \<Rightarrow> ('d, 'g, 'e) cache_memory res" where
  "cm_boot P g p clk blk =
     bindE (cm_new P g p) (\<lambda>c.
     bindE (cm_init P c clk blk) (\<lambda>c1. Inr (cm_regStats c1)))"

definition num_sets_of :: "cache_params \<Rightarrow> nat \<Rightarrow> nat" where
  "num_sets_of p blk = unat (p_size p) div p_assoc p div blk"

definition params_ok :: "cache_params \<Rightarrow> Tick \<Rightarrow> nat \<Rightarrow> bool" where
  "params_ok p clk blk \<longleftrightarrow>
     0 < clk \<and> 0 < blk \<and> blk < 2 ^ 31 \<and>
     0 < p_assoc p \<and> p_assoc p \<le> 2 ^ 16 \<and> unat (p_size p) < 2 ^ 31 \<and>
     4 \<le> num_sets_of p blk \<and> num_sets_of p blk \<le> 2 ^ 16 \<and>
     p_start_index_bit p < 64 \<and>
     0 < p_dataArrayBanks p \<and> p_dataArrayBanks p < 2 ^ 32 \<and>
     0 < p_tagArrayBanks p \<and> p_tagArrayBanks p < 2 ^ 32 \<and>
     1 \<le> p_num_of_retention_zones p \<and> p_num_of_retention_zones p \<le> 4 \<and>
     (p_lazy_redirection_scheme p \<longrightarrow> p_is_sttram p)"

text \<open>
  A policy whose entries can be instantiated for \<open>n\<close> sets of \<open>k\<close> ways, starting from the
  policy object \<open>g0\<close>.
\<close>

locale fresh_policy = replacement_policy P ok
  for P :: "('d, 'g) repl_policy" and ok :: "'g \<Rightarrow> 'd list list \<Rightarrow> bool" +
  fixes g0 :: 'g and n k :: nat
  assumes fresh: "\<exists>rd g. instantiate_all P n k g0 = Inr (rd, g) \<and> dims n k rd \<and> ok g rd"

section \<open>Pieces of the construction\<close>

lemma narrow_size:
  assumes "unat (x :: 64 word) < 2 ^ 31"
  shows "sint (ucast x :: 32 word) = int (unat x)"
proof -
  have "unat (ucast x :: 32 word) = take_bit LENGTH(32) (unat x)" by (rule unsigned_ucast_eq)
  also have "\<dots> = unat x" using assms by (intro take_bit_nat_eq_self) simp
  finally have "uint (ucast x :: 32 word) = int (unat x)" by (simp only: uint_nat)
  moreover have "signed_take_bit 31 (int m) = int m" if "m < 2 ^ 31" for m :: nat
    using that by (intro signed_take_bit_int_eq_self) simp_all
  then have "signed_take_bit 31 (int (unat x)) = int (unat x)" using assms by blast
  ultimately show ?thesis by (simp only: sint_uint) simp
qed

lemma threshold_loop_eq:
  "threshold_loop t s z = map (\<lambda>i. s + i * t) [0..<z]"
proof (induction z arbitrary: s)
  case (Suc z)
  have "map (\<lambda>i. s + i * t) [0..<Suc z] = s # map (\<lambda>i. s + t + i * t) [0..<z]"
    by (simp add: map_upt_Suc del: upt_Suc)
  then show ?case using Suc by simp
qed simp

lemma thresholds_init: "threshold_loop t t z = map (\<lambda>i. (i + 1) * t) [0..<z]"
  by (simp add: threshold_loop_eq algebra_simps)

lemma alu_setBlockSize_total:
  assumes "0 < blk" and "blk < 2 ^ 31"
  obtains a' where "alu_setBlockSize blk a = Inr a'" and "alu_block_size_bits a' < 64"
proof -
  have u: "unat (of_nat blk :: 64 word) = blk" using assms(2) by (intro unat_of_nat64) simp
  have nz: "(of_nat blk :: 64 word) \<noteq> 0" using assms(1) u by (metis less_numeral_extra(3) unat_0)
  obtain y where y: "floorLog2 4 (of_nat blk) = Inr y" "2 ^ y \<le> blk"
    using floorLog2_bounds [of "of_nat blk" 4] nz assms(2) unfolding u by auto
  then have "(2 :: nat) ^ y < 2 ^ 31" using assms(2) by linarith
  then have "y < 31" by (rule power_less_imp_less_exp [rotated]) simp
  then show thesis using that y(1) by (simp add: alu_setBlockSize_def)
qed

lemma num_set_bits:
  assumes "4 \<le> n" and "n \<le> 2 ^ 16"
  obtains b where "floorLog2 4 (of_nat n) = Inr b" and "2 ^ b \<le> n" and "n < 2 ^ (b + 1)" and "0 < b"
proof -
  have u: "unat (of_nat n :: 64 word) = n" using assms(2) by (intro unat_of_nat64) simp
  have nz: "(of_nat n :: 64 word) \<noteq> 0"
  proof
    assume "(of_nat n :: 64 word) = 0"
    then have "n = 0" using u by simp
    then show False using assms(1) by simp
  qed
  obtain b where b: "floorLog2 4 (of_nat n) = Inr b" "2 ^ b \<le> n" "n < 2 ^ (b + 1)"
    using floorLog2_bounds [of "of_nat n" 4] nz assms(2) unfolding u by auto
  have "0 < b"
  proof (rule gr0I)
    assume "b = 0"
    then show False using b(3) assms(1) by simp
  qed
  then show thesis using that b by blast
qed

lemma init_num_sets_eq:
  "0 < k \<Longrightarrow> init_num_sets (int m) k blk = Inr (int (m div k div blk))"
  by (simp add: init_num_sets_def zdiv_int)

lemma retention_table_length:
  "1 \<le> z \<Longrightarrow> z \<le> 4 \<Longrightarrow> length (retention_table_of z p) = nat z"
  by (auto simp: retention_table_of_def)

section \<open>A constructed cache\<close>

context fresh_policy
begin

lemma boot_ok:
  assumes pok: "params_ok p clk blk" and n: "n = num_sets_of p blk" and k: "k = p_assoc p"
  shows "\<exists>c :: ('d, 'g, 'e) cache_memory. cm_boot P g0 p clk blk = Inr c \<and> cm_ok ok c \<and> blocks c = Map.empty \<and>
    m_cache_num_sets c = n \<and> m_cache_assoc c = k"
proof -
  note pk = pok [unfolded params_ok_def]
  obtain dA where dA: "ba_new (p_dataArrayBanks p) (p_start_index_bit p) = Inr dA" "ba_wf dA"
    using ba_new_wf pk by blast
  obtain tA where tA: "ba_new (p_tagArrayBanks p) (p_start_index_bit p) = Inr tA" "ba_wf tA"
    using ba_new_wf pk by blast
  have "\<exists>c :: ('d, 'g, 'e) cache_memory. cm_new P g0 p = Inr c \<and> m_cache_size c = int (unat (p_size p)) \<and> m_cache_assoc c = k \<and>
      m_num_of_retention_zones c = nat (p_num_of_retention_zones p) \<and> repl_state c = g0 \<and>
      m_thresholds c = [] \<and> dataArray c = dA \<and> tagArray c = tA \<and> m_start_index_bit c = p_start_index_bit p \<and>
      m_retention_table c = retention_table_of (p_num_of_retention_zones p) p \<and>
      m_chunk_counters c = Map.empty \<and> m_chunk_redirection_table c = Map.empty \<and> m_tag_index c = Map.empty"
    using dA(1) tA(1) pk narrow_size [of "p_size p"] by (simp add: cm_new_def k)
  then obtain c0 :: "('d, 'g, 'e) cache_memory" where c0: "cm_new P g0 p = Inr c0" "m_cache_size c0 = int (unat (p_size p))"
    "m_cache_assoc c0 = k" "m_num_of_retention_zones c0 = nat (p_num_of_retention_zones p)"
    "repl_state c0 = g0" "m_thresholds c0 = []" "dataArray c0 = dA" "tagArray c0 = tA"
    "m_start_index_bit c0 = p_start_index_bit p"
    "m_retention_table c0 = retention_table_of (p_num_of_retention_zones p) p"
    "m_chunk_counters c0 = Map.empty" "m_chunk_redirection_table c0 = Map.empty" "m_tag_index c0 = Map.empty"
    by blast
  obtain alu where alu: "alu_setBlockSize blk (alu_setClockPeriod clk (atomicALUArray c0)) = Inr alu"
    "alu_block_size_bits alu < 64" using alu_setBlockSize_total [of blk] pk by auto
  have nb: "4 \<le> n" "n \<le> 2 ^ 16" using pk n by simp_all
  obtain b where b: "floorLog2 4 (of_nat n) = Inr b" "2 ^ b \<le> n" "n < 2 ^ (b + 1)" "0 < b"
    using num_set_bits [OF nb] .
  have sets: "init_num_sets (m_cache_size c0) (m_cache_assoc c0) blk = Inr (int n)"
    using init_num_sets_eq [of k "unat (p_size p)" blk] c0 pk n k by (simp add: num_sets_of_def)
  obtain rd g where rd: "instantiate_all P n k g0 = Inr (rd, g)" "dims n k rd" "ok g rd"
    using fresh by blast
  let ?z = "nat (p_num_of_retention_zones p)"
  let ?c1 = "c0\<lparr>dataArray := ba_setClockPeriod clk dA, tagArray := ba_setClockPeriod clk tA,
      atomicALUArray := alu, m_block_size := blk, m_cache_num_sets := n,
      m_thresholds := threshold_loop (n div ?z) (n div ?z) ?z, m_cache_num_set_bits := b,
      m_cache := replicate n (replicate k None), replacement_data := rd, repl_state := g,
      m_chunk := replicate (n div 4) \<lparr>reads = 0, writes = 0\<rparr>, ruby_clockPeriod := clk\<rparr>"
  have init: "cm_init P c0 clk blk = Inr ?c1"
    using alu(1) sets b nb pk c0 rd(1) by (simp add: cm_init_def Let_def)
  have boot: "cm_boot P g0 p clk blk = Inr (cm_regStats ?c1)"
    using c0(1) init by (simp add: cm_boot_def)
  let ?c = "cm_regStats ?c1"
  have "1 \<le> ?z" "?z \<le> 4" using pk by linarith+
  then have "cm_config ?c"
    using pk c0 n k b nb retention_table_length [of "p_num_of_retention_zones p" p]
    by (simp add: cm_config_def cm_regStats_def Let_def thresholds_init)
  moreover have "page_wf ?c" using c0 by (simp add: page_wf_def cm_regStats_def Let_def)
  moreover have "shape ?c" using c0 rd(2) by (simp add: shape_def cm_regStats_def Let_def dims_replicate)
  moreover have "timing_ok ?c"
    using dA(2) tA(2) alu(2) pk
    by (simp add: timing_ok_def cm_regStats_def Let_def ba_setClockPeriod_def ba_wf_def)
  moreover have "index_ok ?c" using c0 by (simp add: index_ok_def cm_regStats_def Let_def)
  ultimately have "cm_ok ok ?c" using rd(3) by (simp add: cm_ok_def cm_inv_def cm_regStats_def Let_def)
  moreover have "blocks ?c = Map.empty" using c0 by (simp add: blocks_def cm_regStats_def Let_def fun_eq_iff)
  moreover have "m_cache_num_sets ?c = n" "m_cache_assoc ?c = k"
    using c0(3) by (simp_all add: cm_regStats_def Let_def)
  ultimately show ?thesis using boot by blast
qed

end

section \<open>Instantiating the entries of a policy\<close>

lemma instantiate_row_const:
  assumes "\<And>g. rp_instantiateEntry P g = Inr (d, g)"
  shows "instantiate_row P k g = Inr (replicate k d, g)"
  by (induction k arbitrary: g) (simp_all add: assms)

lemma instantiate_all_const:
  assumes "\<And>g. rp_instantiateEntry P g = Inr (d, g)"
  shows "instantiate_all P n k g = Inr (replicate n (replicate k d), g)"
  by (induction n arbitrary: g) (simp_all add: instantiate_row_const [of P d] assms)

end
