(* ===== verification/Random_Source.thy ===== *)
theory Random_Source
  imports Ruby_Prelude
begin

text \<open>
  Random draws (\<^verbatim>\<open>src/gem5/src/base/random.hh\<close>).  The generator is \<^verbatim>\<open>std::mt19937_64\<close>; its outputs are an
  arbitrary stream \<open>gen\<close>, and the state is the position in that stream, so that what is proved
  holds for every seed.
\<close>

record rng =
  gen :: "nat \<Rightarrow> 64 word"
  pos :: nat

definition random_range :: "nat \<Rightarrow> nat \<Rightarrow> rng \<Rightarrow> (nat \<times> rng) res" where
  "random_range lo hi r =
     bindE (assertE (lo \<le> hi) ''min <= max'') (\<lambda>_.
     Inr (unat (gen r (pos r)) mod (hi - lo + 1) + lo, r\<lparr>pos := Suc (pos r)\<rparr>))"

lemma random_range_Inr:
  "lo \<le> hi \<Longrightarrow> \<exists>n r'. random_range lo hi r = Inr (n, r') \<and> lo \<le> n \<and> n \<le> hi"
proof -
  assume "lo \<le> hi"
  moreover have "unat (gen r (pos r)) mod (hi - lo + 1) < hi - lo + 1"
    by (rule mod_less_divisor) simp
  ultimately have "unat (gen r (pos r)) mod (hi - lo + 1) + lo \<le> hi" by linarith
  with \<open>lo \<le> hi\<close> show ?thesis by (simp add: random_range_def)
qed

end
