(* ===== verification/Stamp_Policies.thy ===== *)
theory Stamp_Policies
  imports Replacement_Base Random_Source "HOL-Library.Product_Lexorder"
begin

text \<open>
  The replacement policies that order candidates by a stamp or a count:
  \<^verbatim>\<open>LRU\<close>, \<^verbatim>\<open>MRU\<close>, \<^verbatim>\<open>FIFO\<close>, \<^verbatim>\<open>LFU\<close>, \<^verbatim>\<open>BIP\<close>, \<^verbatim>\<open>Random\<close> and \<^verbatim>\<open>WeightedLRU\<close> of
  \<^verbatim>\<open>src/gem5/src/mem/cache/replacement_policies/\<close>.  Each has its element of replacement data as a
  record, one definition per method, and its dispatch record (\<open>lru_policy\<close>, \<open>fifo_policy\<close>,
  ...), on which the contract \<open>replacement_policy\<close> is interpreted.

  The random policies draw from the generator of \<open>Random_Source\<close>.
\<close>

section \<open>LRU\<close>

record lru_data =
  lastTouchTick :: Tick

definition lru_invalidate :: "'z lru_data_scheme \<Rightarrow> 'z lru_data_scheme" where
  "lru_invalidate d = d\<lparr>lastTouchTick := 0\<rparr>"

definition lru_touch :: "Tick \<Rightarrow> 'z lru_data_scheme \<Rightarrow> 'z lru_data_scheme" where
  "lru_touch now d = d\<lparr>lastTouchTick := now\<rparr>"

definition lru_reset :: "Tick \<Rightarrow> 'z lru_data_scheme \<Rightarrow> 'z lru_data_scheme" where
  "lru_reset now d = d\<lparr>lastTouchTick := now\<rparr>"

definition lru_getVictim :: "'z lru_data_scheme list \<Rightarrow> nat res" where
  "lru_getVictim ds =
     bindE (assertE (0 < length ds) ''candidates.size() > 0'') (\<lambda>_.
     Inr (scan_victim (\<lambda>c v. lastTouchTick c < lastTouchTick v) ds))"

definition lru_instantiateEntry :: lru_data where
  "lru_instantiateEntry = \<lparr>lastTouchTick = 0\<rparr>"

definition lru_policy :: "(lru_data, unit) repl_policy" where
  "lru_policy =
     \<lparr>rp_invalidate = (\<lambda>now g d. Inr (lru_invalidate d, g)),
      rp_touch = (\<lambda>now g d. Inr (lru_touch now d, g)),
      rp_touch_occ = (\<lambda>now occ g d. Inr (lru_touch now d, g)),
      rp_use_occupancy = False,
      rp_reset = (\<lambda>now g d. Inr (lru_reset now d, g)),
      rp_getVictim = (\<lambda>g ds. bindE (lru_getVictim ds) (\<lambda>v. Inr (v, ds, g))),
      rp_instantiateEntry = (\<lambda>g. Inr (lru_instantiateEntry, g))\<rparr>"

section \<open>MRU\<close>

record mru_data =
  mru_lastTouchTick :: Tick

definition mru_invalidate :: "mru_data \<Rightarrow> mru_data" where
  "mru_invalidate d = d\<lparr>mru_lastTouchTick := 0\<rparr>"

definition mru_touch :: "Tick \<Rightarrow> mru_data \<Rightarrow> mru_data" where
  "mru_touch now d = d\<lparr>mru_lastTouchTick := now\<rparr>"

definition mru_reset :: "Tick \<Rightarrow> mru_data \<Rightarrow> mru_data" where
  "mru_reset now d = d\<lparr>mru_lastTouchTick := now\<rparr>"

text \<open>The scan stops at the first candidate that was never touched.\<close>

fun mru_scan :: "mru_data list \<Rightarrow> nat \<Rightarrow> nat list \<Rightarrow> nat" where
  "mru_scan ds v [] = v"
| "mru_scan ds v (i # is) =
     (if mru_lastTouchTick (ds ! i) = 0 then i
      else if mru_lastTouchTick (ds ! v) < mru_lastTouchTick (ds ! i) then mru_scan ds i is
      else mru_scan ds v is)"

definition mru_getVictim :: "mru_data list \<Rightarrow> nat res" where
  "mru_getVictim ds =
     bindE (assertE (0 < length ds) ''candidates.size() > 0'') (\<lambda>_.
     Inr (mru_scan ds 0 [0..<length ds]))"

definition mru_instantiateEntry :: mru_data where
  "mru_instantiateEntry = \<lparr>mru_lastTouchTick = 0\<rparr>"

definition mru_policy :: "(mru_data, unit) repl_policy" where
  "mru_policy =
     \<lparr>rp_invalidate = (\<lambda>now g d. Inr (mru_invalidate d, g)),
      rp_touch = (\<lambda>now g d. Inr (mru_touch now d, g)),
      rp_touch_occ = (\<lambda>now occ g d. Inr (mru_touch now d, g)),
      rp_use_occupancy = False,
      rp_reset = (\<lambda>now g d. Inr (mru_reset now d, g)),
      rp_getVictim = (\<lambda>g ds. bindE (mru_getVictim ds) (\<lambda>v. Inr (v, ds, g))),
      rp_instantiateEntry = (\<lambda>g. Inr (mru_instantiateEntry, g))\<rparr>"

section \<open>FIFO\<close>

text \<open>The policy object's counter \<^verbatim>\<open>timeTicks\<close> is the shared state; \<open>++timeTicks\<close> wraps.\<close>

record fifo_data =
  tickInserted :: Tick

definition fifo_invalidate :: "Tick \<Rightarrow> 'z fifo_data_scheme \<Rightarrow> 'z fifo_data_scheme \<times> Tick" where
  "fifo_invalidate timeTicks d = (let t = timeTicks + 1 in (d\<lparr>tickInserted := t\<rparr>, t))"

definition fifo_touch :: "Tick \<Rightarrow> 'z fifo_data_scheme \<Rightarrow> 'z fifo_data_scheme \<times> Tick" where
  "fifo_touch timeTicks d = (d, timeTicks)"

definition fifo_reset :: "Tick \<Rightarrow> 'z fifo_data_scheme \<Rightarrow> 'z fifo_data_scheme \<times> Tick" where
  "fifo_reset timeTicks d = (let t = timeTicks + 1 in (d\<lparr>tickInserted := t\<rparr>, t))"

definition fifo_getVictim :: "'z fifo_data_scheme list \<Rightarrow> nat res" where
  "fifo_getVictim ds =
     bindE (assertE (0 < length ds) ''candidates.size() > 0'') (\<lambda>_.
     Inr (scan_victim (\<lambda>c v. tickInserted c < tickInserted v) ds))"

definition fifo_instantiateEntry :: fifo_data where
  "fifo_instantiateEntry = \<lparr>tickInserted = 0\<rparr>"

definition fifo_policy :: "(fifo_data, Tick) repl_policy" where
  "fifo_policy =
     \<lparr>rp_invalidate = (\<lambda>now g d. Inr (fifo_invalidate g d)),
      rp_touch = (\<lambda>now g d. Inr (fifo_touch g d)),
      rp_touch_occ = (\<lambda>now occ g d. Inr (fifo_touch g d)),
      rp_use_occupancy = False,
      rp_reset = (\<lambda>now g d. Inr (fifo_reset g d)),
      rp_getVictim = (\<lambda>g ds. bindE (fifo_getVictim ds) (\<lambda>v. Inr (v, ds, g))),
      rp_instantiateEntry = (\<lambda>g. Inr (fifo_instantiateEntry, g))\<rparr>"

section \<open>LFU\<close>

record lfu_data =
  refCount :: "32 word"

definition lfu_invalidate :: "lfu_data \<Rightarrow> lfu_data" where
  "lfu_invalidate d = d\<lparr>refCount := 0\<rparr>"

definition lfu_touch :: "lfu_data \<Rightarrow> lfu_data" where
  "lfu_touch d = d\<lparr>refCount := refCount d + 1\<rparr>"

definition lfu_reset :: "lfu_data \<Rightarrow> lfu_data" where
  "lfu_reset d = d\<lparr>refCount := 1\<rparr>"

definition lfu_getVictim :: "lfu_data list \<Rightarrow> nat res" where
  "lfu_getVictim ds =
     bindE (assertE (0 < length ds) ''candidates.size() > 0'') (\<lambda>_.
     Inr (scan_victim (\<lambda>c v. refCount c < refCount v) ds))"

definition lfu_instantiateEntry :: lfu_data where
  "lfu_instantiateEntry = \<lparr>refCount = 0\<rparr>"

definition lfu_policy :: "(lfu_data, unit) repl_policy" where
  "lfu_policy =
     \<lparr>rp_invalidate = (\<lambda>now g d. Inr (lfu_invalidate d, g)),
      rp_touch = (\<lambda>now g d. Inr (lfu_touch d, g)),
      rp_touch_occ = (\<lambda>now occ g d. Inr (lfu_touch d, g)),
      rp_use_occupancy = False,
      rp_reset = (\<lambda>now g d. Inr (lfu_reset d, g)),
      rp_getVictim = (\<lambda>g ds. bindE (lfu_getVictim ds) (\<lambda>v. Inr (v, ds, g))),
      rp_instantiateEntry = (\<lambda>g. Inr (lfu_instantiateEntry, g))\<rparr>"

section \<open>BIP and Random\<close>

definition bip_reset ::
  "nat \<Rightarrow> Tick \<Rightarrow> rng \<Rightarrow> lru_data \<Rightarrow> (lru_data \<times> rng) res" where
  "bip_reset btp now r d =
     bindE (random_range 1 100 r) (\<lambda>(n, r').
     Inr (d\<lparr>lastTouchTick := (if n \<le> btp then now else 1)\<rparr>, r'))"

definition bip_policy :: "nat \<Rightarrow> (lru_data, rng) repl_policy" where
  "bip_policy btp =
     \<lparr>rp_invalidate = (\<lambda>now g d. Inr (lru_invalidate d, g)),
      rp_touch = (\<lambda>now g d. Inr (lru_touch now d, g)),
      rp_touch_occ = (\<lambda>now occ g d. Inr (lru_touch now d, g)),
      rp_use_occupancy = False,
      rp_reset = bip_reset btp,
      rp_getVictim = (\<lambda>g ds. bindE (lru_getVictim ds) (\<lambda>v. Inr (v, ds, g))),
      rp_instantiateEntry = (\<lambda>g. Inr (lru_instantiateEntry, g))\<rparr>"

record random_data =
  rnd_valid :: bool

definition random_invalidate :: "random_data \<Rightarrow> random_data" where
  "random_invalidate d = d\<lparr>rnd_valid := False\<rparr>"

definition random_touch :: "random_data \<Rightarrow> random_data" where
  "random_touch d = d"

definition random_reset :: "random_data \<Rightarrow> random_data" where
  "random_reset d = d\<lparr>rnd_valid := True\<rparr>"

definition random_getVictim :: "rng \<Rightarrow> random_data list \<Rightarrow> (nat \<times> rng) res" where
  "random_getVictim r ds =
     bindE (assertE (0 < length ds) ''candidates.size() > 0'') (\<lambda>_.
     bindE (random_range 0 (length ds - 1) r) (\<lambda>(v, r').
     case find_idx (\<lambda>i. \<not> rnd_valid (ds ! i)) (length ds) of
       Some i \<Rightarrow> Inr (i, r')
     | None \<Rightarrow> Inr (v, r')))"

definition random_instantiateEntry :: random_data where
  "random_instantiateEntry = \<lparr>rnd_valid = False\<rparr>"

definition random_policy :: "(random_data, rng) repl_policy" where
  "random_policy =
     \<lparr>rp_invalidate = (\<lambda>now g d. Inr (random_invalidate d, g)),
      rp_touch = (\<lambda>now g d. Inr (random_touch d, g)),
      rp_touch_occ = (\<lambda>now occ g d. Inr (random_touch d, g)),
      rp_use_occupancy = False,
      rp_reset = (\<lambda>now g d. Inr (random_reset d, g)),
      rp_getVictim = (\<lambda>g ds. bindE (random_getVictim g ds) (\<lambda>(v, g'). Inr (v, ds, g'))),
      rp_instantiateEntry = (\<lambda>g. Inr (random_instantiateEntry, g))\<rparr>"

section \<open>WeightedLRU\<close>

record wlru_data = lru_data +
  last_occ_ptr :: int

definition wlru_touch_occ :: "Tick \<Rightarrow> int \<Rightarrow> wlru_data \<Rightarrow> wlru_data" where
  "wlru_touch_occ now occupancy d = (lru_touch now d)\<lparr>last_occ_ptr := occupancy\<rparr>"

definition wlru_beats :: "wlru_data \<Rightarrow> wlru_data \<Rightarrow> bool" where
  "wlru_beats c v \<longleftrightarrow>
     (if last_occ_ptr c < last_occ_ptr v then True
      else if last_occ_ptr c = last_occ_ptr v then lastTouchTick c < lastTouchTick v
      else False)"

definition wlru_getVictim :: "wlru_data list \<Rightarrow> nat res" where
  "wlru_getVictim ds =
     bindE (assertE (0 < length ds) ''candidates.size() > 0'') (\<lambda>_.
     Inr (scan_victim wlru_beats ds))"

definition wlru_instantiateEntry :: wlru_data where
  "wlru_instantiateEntry = \<lparr>lastTouchTick = 0, last_occ_ptr = 0\<rparr>"

definition wlru_policy :: "(wlru_data, unit) repl_policy" where
  "wlru_policy =
     \<lparr>rp_invalidate = (\<lambda>now g d. Inr (lru_invalidate d, g)),
      rp_touch = (\<lambda>now g d. Inr (lru_touch now d, g)),
      rp_touch_occ = (\<lambda>now occ g d. Inr (wlru_touch_occ now occ d, g)),
      rp_use_occupancy = True,
      rp_reset = (\<lambda>now g d. Inr (lru_reset now d, g)),
      rp_getVictim = (\<lambda>g ds. bindE (wlru_getVictim ds) (\<lambda>v. Inr (v, ds, g))),
      rp_instantiateEntry = (\<lambda>g. Inr (wlru_instantiateEntry, g))\<rparr>"

section \<open>The contract of the interface\<close>

lemmas stamp_policy_defs =
  lru_policy_def mru_policy_def fifo_policy_def lfu_policy_def bip_policy_def
  random_policy_def wlru_policy_def

lemma lru_getVictim_eq: "ds \<noteq> [] \<Longrightarrow>
    lru_getVictim ds = Inr (scan_victim (\<lambda>c v. lastTouchTick c < lastTouchTick v) ds)"
  by (simp add: lru_getVictim_def)

lemma fifo_getVictim_eq: "ds \<noteq> [] \<Longrightarrow>
    fifo_getVictim ds = Inr (scan_victim (\<lambda>c v. tickInserted c < tickInserted v) ds)"
  by (simp add: fifo_getVictim_def)

lemma mru_scan_range:
  "v < n \<Longrightarrow> \<forall>i \<in> set is. i < n \<Longrightarrow> mru_scan ds v is < n"
  by (induction "is" arbitrary: v) auto

interpretation lru_rp: replacement_policy lru_policy "\<lambda>_ _. True"
  by unfold_locales
    (auto simp: stamp_policy_defs lru_getVictim_eq scan_victim_range)

interpretation mru_rp: replacement_policy mru_policy "\<lambda>_ _. True"
  by unfold_locales
    (auto simp: stamp_policy_defs mru_getVictim_def intro: mru_scan_range)

interpretation fifo_rp: replacement_policy fifo_policy "\<lambda>_ _. True"
  by unfold_locales
    (auto simp: stamp_policy_defs fifo_getVictim_eq scan_victim_range fifo_invalidate_def
      fifo_touch_def fifo_reset_def Let_def)

interpretation lfu_rp: replacement_policy lfu_policy "\<lambda>_ _. True"
  by unfold_locales
    (auto simp: stamp_policy_defs lfu_getVictim_def scan_victim_range)

interpretation bip_rp: replacement_policy "bip_policy btp" "\<lambda>_ _. True" for btp
  by unfold_locales
    (auto simp: stamp_policy_defs lru_getVictim_eq scan_victim_range bip_reset_def
      random_range_def)

interpretation wlru_rp: replacement_policy wlru_policy "\<lambda>_ _. True"
  by unfold_locales
    (auto simp: stamp_policy_defs wlru_getVictim_def scan_victim_range)

lemma random_getVictim_range:
  assumes "ds \<noteq> []"
  shows "\<exists>v r'. random_getVictim r ds = Inr (v, r') \<and> v < length ds"
proof -
  have ne: "0 < length ds" using assms by simp
  obtain n r' where "random_range 0 (length ds - 1) r = Inr (n, r')" and "n \<le> length ds - 1"
    using random_range_Inr [of 0 "length ds - 1" r] by auto
  moreover from this(2) ne have "n < length ds" by linarith
  ultimately show ?thesis using ne
    by (auto simp: random_getVictim_def split: option.splits dest!: find_idx_Some)
qed

interpretation random_rp: replacement_policy random_policy "\<lambda>_ _. True"
proof unfold_locales
  fix g :: rng and rd :: "random_data list list" and s
  assume "rd ! s \<noteq> []"
  then obtain v g' where "random_getVictim g (rd ! s) = Inr (v, g')" "v < length (rd ! s)"
    using random_getVictim_range by blast
  then show "\<exists>v ds' g'. rp_getVictim random_policy g (rd ! s) = Inr (v, ds', g') \<and>
      v < length (rd ! s) \<and> length ds' = length (rd ! s) \<and> True"
    by (simp add: random_policy_def)
qed (simp_all add: random_policy_def)

section \<open>What the policies choose\<close>

text \<open>A sequence of touches of the ways of one set, each with its tick.\<close>

definition lru_touches :: "(Tick \<times> nat) list \<Rightarrow> lru_data list \<Rightarrow> lru_data list" where
  "lru_touches ts ds = foldl (\<lambda>xs (t, w). xs[w := lru_touch t (xs ! w)]) ds ts"

lemma lru_touches_snoc:
  "lru_touches (ts @ [(t, w)]) ds =
     (lru_touches ts ds)[w := lru_touch t (lru_touches ts ds ! w)]"
  by (simp add: lru_touches_def)

lemma lru_touches_length [simp]: "length (lru_touches ts ds) = length ds"
  unfolding lru_touches_def by (induction ts arbitrary: ds) auto

lemma lru_touches_before:
  assumes "\<And>i. i < length ds \<Longrightarrow> lastTouchTick (ds ! i) < t" and "\<forall>(t', w) \<in> set ts. t' < t" and "i < length ds"
  shows "lastTouchTick (lru_touches ts ds ! i) < t"
  using assms(2)
proof (induction ts rule: rev_induct)
  case Nil
  then show ?case using assms(1,3) by (simp add: lru_touches_def)
next
  case (snoc x xs)
  obtain t' w where x: "x = (t', w)" by (cases x)
  then show ?case
    using snoc assms(3) by (cases "i = w") (simp_all add: lru_touches_snoc lru_touch_def)
qed

text \<open>If \<open>v\<close> is no younger than \<open>w\<close> although it was touched, then \<open>w\<close> was touched after it.\<close>

lemma lru_order:
  assumes "sorted_wrt (<) (map fst ts)" and "\<forall>(t, w) \<in> set ts. w < length ds"
    and "\<And>i t w. i < length ds \<Longrightarrow> (t, w) \<in> set ts \<Longrightarrow> lastTouchTick (ds ! i) < t"
    and "v \<in> set (map snd ts)" and "w < length ds" and "w \<noteq> v"
    and "lastTouchTick (lru_touches ts ds ! v) \<le> lastTouchTick (lru_touches ts ds ! w)"
  shows "w \<in> set (takeWhile (\<lambda>x. x \<noteq> v) (rev (map snd ts)))"
  using assms
proof (induction ts rule: rev_induct)
  case (snoc x ts)
  obtain t u where x: "x = (t, u)" by (cases x)
  have lt: "lastTouchTick (lru_touches ts ds ! i) < t" if "i < length ds" for i
    by (rule lru_touches_before [OF _ _ that])
      (use snoc.prems(1,3) x in \<open>auto simp: sorted_wrt_append\<close>)
  have u: "u < length ds" using snoc.prems(2) x by simp
  have vu: "v \<noteq> u"
  proof
    assume "v = u"
    then have "t \<le> lastTouchTick (lru_touches ts ds ! w)"
      using snoc.prems(6,7) x u by (simp add: lru_touches_snoc lru_touch_def)
    then show False using lt [OF snoc.prems(5)] by simp
  qed
  show ?case
  proof (cases "w = u")
    case False
    have "w \<in> set (takeWhile (\<lambda>x. x \<noteq> v) (rev (map snd ts)))"
    proof (rule snoc.IH)
      show "lastTouchTick (lru_touches ts ds ! v) \<le> lastTouchTick (lru_touches ts ds ! w)"
        using snoc.prems(7) x vu False by (simp add: lru_touches_snoc)
    qed (use snoc.prems x vu in \<open>auto simp: sorted_wrt_append\<close>)
    then show ?thesis using x vu by simp
  qed (use x vu in simp)
qed simp

text \<open>
  C27. LRU: after any sequence of touches at increasing ticks, the victim of the set is a way that was
  not touched in the sequence, or the way whose last touch lies before the last touch of every
  other way.
\<close>

theorem lru_evicts_least_recent:
  assumes "ds \<noteq> []" and "sorted_wrt (<) (map fst ts)" and "\<forall>(t, w) \<in> set ts. w < length ds"
    and "\<forall>i < length ds. \<forall>(t, w) \<in> set ts. lastTouchTick (ds ! i) < t"
  shows "\<exists>v. lru_getVictim (lru_touches ts ds) = Inr v \<and> v < length ds \<and>
    (v \<in> set (map snd ts) \<longrightarrow>
       (\<forall>w < length ds. w \<noteq> v \<longrightarrow> w \<in> set (takeWhile (\<lambda>x. x \<noteq> v) (rev (map snd ts)))))"
proof -
  let ?xs = "lru_touches ts ds" let ?v = "scan_victim (\<lambda>c v. lastTouchTick c < lastTouchTick v) ?xs"
  have ne: "?xs \<noteq> []" using assms(1) by (metis length_0_conv lru_touches_length)
  have least: "lastTouchTick (?xs ! ?v) \<le> lastTouchTick (?xs ! w)" if "w < length ds" for w
    by (rule scan_victim_least [where key = lastTouchTick]) (simp_all add: that)
  have "w \<in> set (takeWhile (\<lambda>x. x \<noteq> ?v) (rev (map snd ts)))"
    if "?v \<in> set (map snd ts)" "w < length ds" "w \<noteq> ?v" for w
    by (rule lru_order [OF assms(2,3) _ that least [OF that(2)]]) (use assms(4) in fastforce)
  then show ?thesis using lru_getVictim_eq [OF ne] scan_victim_range [OF ne] by auto
qed

theorem lru_evicts_least_recent_witness:
  "\<exists>v. lru_getVictim (lru_touches [(5, 1), (6, 0), (7, 1)] (replicate 2 lru_instantiateEntry)) = Inr v \<and>
     (v \<in> {0, 1} \<longrightarrow> (\<forall>w < 2. w \<noteq> v \<longrightarrow> w \<in> set (takeWhile (\<lambda>x. x \<noteq> v) [1, 0, 1])))"
  using lru_evicts_least_recent [of "replicate 2 lru_instantiateEntry" "[(5, 1), (6, 0), (7, 1)]"]
  by (auto simp: lru_instantiateEntry_def)

text \<open>
  FIFO does not prefer what was just invalidated: invalidation stamps the entry with a new
  insertion tick, so in a set of two or more ways the next victim is another way, as long as the
  insertion counter does not wrap.
\<close>

theorem fifo_invalidated_is_last:
  fixes ds :: "fifo_data list"
  assumes "2 \<le> length ds" and "w < length ds" and "\<forall>d \<in> set ds. tickInserted d \<le> g"
    and "unat g + 1 < 2 ^ 64" and "fifo_invalidate g (ds ! w) = (d', g')"
  shows "\<exists>v. fifo_getVictim (ds[w := d']) = Inr v \<and> v < length ds \<and> v \<noteq> w"
proof -
  let ?xs = "ds[w := d']" let ?v = "scan_victim (\<lambda>c v. tickInserted c < tickInserted v) ?xs"
  have ne: "?xs \<noteq> []" using assms(1) by auto
  have d': "tickInserted d' = g + 1" using assms(5) by (auto simp: fifo_invalidate_def Let_def)
  obtain j where j: "j < length ds" "j \<noteq> w"
    using assms(1) that [of 0] that [of 1] by fastforce
  have "g < g + 1" using unat_add_small [of g 1] assms(4) by (simp add: word_less_nat_alt)
  then have "tickInserted (?xs ! j) < g + 1" using assms(3) j by (metis le_less_trans nth_list_update_neq nth_mem)
  moreover have "tickInserted (?xs ! ?v) \<le> tickInserted (?xs ! j)"
    by (rule scan_victim_least [where key = tickInserted]) (simp_all add: j)
  ultimately have "?v \<noteq> w" using d' assms(2) by auto
  then show ?thesis using fifo_getVictim_eq [OF ne] scan_victim_range [OF ne] by auto
qed

theorem fifo_invalidated_is_last_witness:
  "\<exists>d' g' v. fifo_invalidate 2 ([\<lparr>tickInserted = 1\<rparr>, \<lparr>tickInserted = 2\<rparr>] ! 0) = (d', g') \<and>
     fifo_getVictim ([\<lparr>tickInserted = 1\<rparr>, \<lparr>tickInserted = 2\<rparr>][0 := d']) = Inr v \<and> v \<noteq> 0"
proof -
  let ?ds = "[\<lparr>tickInserted = 1\<rparr>, \<lparr>tickInserted = 2\<rparr>] :: fifo_data list"
  obtain d' g' where d': "fifo_invalidate 2 (?ds ! 0) = (d', g')" by fastforce
  from fifo_invalidated_is_last [OF _ _ _ _ d'] show ?thesis using d' by auto
qed

end
