(* ===== verification/Tree_PLRU.thy ===== *)
theory Tree_PLRU
  imports Replacement_Base
begin

text \<open>
  The Tree-PLRU replacement policy
  (\<^verbatim>\<open>src/gem5/src/mem/cache/replacement_policies/tree_plru_rp.cc\<close>), which
  \<^verbatim>\<open>src/gem5/src/mem/ruby/structures/RubyCache.py\<close> gives every Ruby cache by default.

  A PLRU tree is a vector of \<open>numLeaves - 1\<close> bits in breadth-first order, shared by the
  \<open>numLeaves\<close> entries of a set; an entry holds its index in the (virtual) full tree and a
  pointer to the tree.  The policy object's state \<open>plru_state\<close> holds the trees that
  \<^verbatim>\<open>instantiateEntry\<close> has allocated, in order, so that a pointer is a position in \<open>trees\<close>.
  Updating a tree walks from a leaf to the root with \<^verbatim>\<open>vector::at\<close>, whose exception on a bad
  index is \<open>OutOfRange\<close>.
\<close>

definition parentIndex :: "nat \<Rightarrow> nat" where
  "parentIndex index = (if index = 0 then 2 ^ 63 else (index - 1) div 2)"

definition leftSubtreeIndex :: "nat \<Rightarrow> nat" where
  "leftSubtreeIndex index = 2 * index + 1"

definition rightSubtreeIndex :: "nat \<Rightarrow> nat" where
  "rightSubtreeIndex index = 2 * index + 2"

definition isRightSubtree :: "nat \<Rightarrow> bool" where
  "isRightSubtree index \<longleftrightarrow> index mod 2 = 0"

record plru_data =
  plru_index :: nat
  plru_tree :: nat

record plru_state =
  numLeaves :: nat
  plru_count :: nat
  trees :: "bool list list"

definition plru_new :: "nat \<Rightarrow> plru_state res" where
  "plru_new num_leaves =
     bindE (guardE (\<not> num_leaves < 1) (Fatal ''numLeaves should never be 0'')) (\<lambda>_.
     Inr \<lparr>numLeaves = num_leaves, plru_count = 0, trees = []\<rparr>)"

text \<open>
  The \<^verbatim>\<open>do ... while (tree_index != 0)\<close> walk of \<^verbatim>\<open>invalidate\<close> and \<^verbatim>\<open>touch\<close>: they differ in the bit
  they store, \<open>right\<close> or its negation.
\<close>

function plru_walk :: "(bool \<Rightarrow> bool) \<Rightarrow> nat \<Rightarrow> bool list \<Rightarrow> bool list res" where
  "plru_walk f tree_index tree =
     (let right = isRightSubtree tree_index;
          p = parentIndex tree_index
      in bindE (updE tree p (f right)) (\<lambda>tree'.
         if p \<noteq> 0 then plru_walk f p tree' else Inr tree'))"
  by pat_completeness auto
termination
  by (relation "measure (\<lambda>(f, i, t). if i = 0 then 2 ^ 63 + 1 else i)")
    (auto simp: parentIndex_def split: if_splits)

declare plru_walk.simps [simp del]

definition plru_update ::
  "(bool \<Rightarrow> bool) \<Rightarrow> plru_state \<Rightarrow> plru_data \<Rightarrow> (plru_data \<times> plru_state) res" where
  "plru_update f g d =
     bindE (nthE (trees g) (plru_tree d)) (\<lambda>tree.
     bindE (plru_walk f (plru_index d) tree) (\<lambda>tree'.
     Inr (d, g\<lparr>trees := (trees g)[plru_tree d := tree']\<rparr>)))"

definition plru_invalidate ::
  "plru_state \<Rightarrow> plru_data \<Rightarrow> (plru_data \<times> plru_state) res" where
  "plru_invalidate g d = plru_update (\<lambda>right. right) g d"

definition plru_touch :: "plru_state \<Rightarrow> plru_data \<Rightarrow> (plru_data \<times> plru_state) res" where
  "plru_touch g d = plru_update (\<lambda>right. \<not> right) g d"

definition plru_reset :: "plru_state \<Rightarrow> plru_data \<Rightarrow> (plru_data \<times> plru_state) res" where
  "plru_reset g d = plru_touch g d"

function plru_descend :: "bool list \<Rightarrow> nat \<Rightarrow> nat" where
  "plru_descend tree tree_index =
     (if tree_index < length tree then
        plru_descend tree
          (if tree ! tree_index then rightSubtreeIndex tree_index
           else leftSubtreeIndex tree_index)
      else tree_index)"
  by pat_completeness auto
termination
  by (relation "measure (\<lambda>(t, i). length t - i)")
    (auto simp: rightSubtreeIndex_def leftSubtreeIndex_def)

declare plru_descend.simps [simp del]

definition plru_getVictim :: "plru_state \<Rightarrow> plru_data list \<Rightarrow> nat res" where
  "plru_getVictim g ds =
     bindE (assertE (0 < length ds) ''candidates.size() > 0'') (\<lambda>_.
     bindE (nthE ds 0) (\<lambda>d.
     bindE (nthE (trees g) (plru_tree d)) (\<lambda>tree.
     let i = plru_descend tree 0 - (numLeaves g - 1)
     in bindE (guardE (i < length ds) OutOfRange) (\<lambda>_. Inr i))))"

definition plru_instantiateEntry :: "plru_state \<Rightarrow> plru_data \<times> plru_state" where
  "plru_instantiateEntry g =
     (let g1 = (if plru_count g mod numLeaves g = 0
                then g\<lparr>trees := trees g @ [replicate (numLeaves g - 1) False]\<rparr> else g);
          d = \<lparr>plru_index = plru_count g mod numLeaves g + numLeaves g - 1,
               plru_tree = length (trees g1) - 1\<rparr>
      in (d, g1\<lparr>plru_count := plru_count g + 1\<rparr>))"

definition plru_policy :: "(plru_data, plru_state) repl_policy" where
  "plru_policy =
     \<lparr>rp_invalidate = (\<lambda>now g d. plru_invalidate g d),
      rp_touch = (\<lambda>now g d. plru_touch g d),
      rp_touch_occ = (\<lambda>now occ g d. plru_touch g d),
      rp_use_occupancy = False,
      rp_reset = (\<lambda>now g d. plru_reset g d),
      rp_getVictim = (\<lambda>g ds. bindE (plru_getVictim g ds) (\<lambda>v. Inr (v, ds, g))),
      rp_instantiateEntry = (\<lambda>g. Inr (plru_instantiateEntry g))\<rparr>"

section \<open>The walk to the root\<close>

lemma child_of_parent:
  "i \<noteq> 0 \<Longrightarrow>
     (if isRightSubtree i then rightSubtreeIndex (parentIndex i)
      else leftSubtreeIndex (parentIndex i)) = i"
  by (auto simp: isRightSubtree_def rightSubtreeIndex_def leftSubtreeIndex_def parentIndex_def)
    presburger+

lemma parentIndex_less: "i \<noteq> 0 \<Longrightarrow> parentIndex i < i"
  by (auto simp: parentIndex_def)

lemma plru_walk_total:
  assumes "0 < i" and "parentIndex i < length t"
  shows "\<exists>t'. plru_walk f i t = Inr t' \<and> length t' = length t \<and>
    (\<forall>j. i \<le> j \<longrightarrow> t' ! j = t ! j)"
  using assms
proof (induction i arbitrary: t rule: less_induct)
  case (less i)
  let ?p = "parentIndex i"
  let ?t = "t[?p := f (isRightSubtree i)]"
  have p: "?p < i" using less.prems by (simp add: parentIndex_less)
  have unf: "plru_walk f i t = (if ?p \<noteq> 0 then plru_walk f ?p ?t else Inr ?t)"
    using less.prems by (subst plru_walk.simps) (simp add: Let_def updE_in_range)
  show ?case
  proof (cases "?p = 0")
    case True
    then show ?thesis using unf p by auto
  next
    case False
    have "parentIndex ?p < length ?t"
      using parentIndex_less [of ?p] False less.prems by simp
    then show ?thesis
      using less.IH [of ?p ?t] p False unf by (auto simp: nth_list_update)
  qed
qed

lemma plru_walk_unfold:
  assumes "0 < i" and "parentIndex i < length t"
  shows "plru_walk f i t =
    (let t1 = t[parentIndex i := f (isRightSubtree i)]
     in if parentIndex i \<noteq> 0 then plru_walk f (parentIndex i) t1 else Inr t1)"
  using assms by (subst plru_walk.simps) (simp add: Let_def updE_in_range)

text \<open>The walk decides the bit of the first parent, and only ancestors of it afterwards.\<close>

lemma plru_walk_parent_bit:
  assumes "0 < i" and "parentIndex i < length t" and "plru_walk f i t = Inr t'"
  shows "t' ! parentIndex i = f (isRightSubtree i) \<and> length t' = length t"
proof (cases "parentIndex i = 0")
  case True
  then show ?thesis using assms by (auto simp: plru_walk_unfold Let_def)
next
  case False
  let ?t1 = "t[parentIndex i := f (isRightSubtree i)]"
  have w: "plru_walk f (parentIndex i) ?t1 = Inr t'"
    using assms False by (simp add: plru_walk_unfold Let_def)
  have "parentIndex (parentIndex i) < length ?t1"
    using parentIndex_less [OF False] assms(2) by simp
  from plru_walk_total [of "parentIndex i" ?t1 f, OF _ this] w False assms(2)
  show ?thesis by auto
qed

section \<open>The descent from the root\<close>

lemma plru_descend_leaf: "length t \<le> i \<Longrightarrow> plru_descend t i = i"
  by (subst plru_descend.simps) simp

lemma plru_descend_step:
  "i < length t \<Longrightarrow> plru_descend t i =
     plru_descend t (if t ! i then rightSubtreeIndex i else leftSubtreeIndex i)"
  by (subst plru_descend.simps) simp

lemma plru_descend_bounds:
  "i \<le> 2 * length t \<Longrightarrow>
     length t \<le> plru_descend t i \<and> plru_descend t i \<le> 2 * length t"
proof (induction t i rule: plru_descend.induct)
  case (1 t i)
  show ?case
  proof (cases "i < length t")
    case True
    then have "(if t ! i then rightSubtreeIndex i else leftSubtreeIndex i) \<le> 2 * length t"
      by (auto simp: rightSubtreeIndex_def leftSubtreeIndex_def)
    with "1.IH" True show ?thesis by (subst (1 2) plru_descend.simps) simp
  next
    case False
    with "1.prems" show ?thesis by (simp add: plru_descend_leaf)
  qed
qed

text \<open>Invalidating a leaf makes the descent from the root follow the path to that leaf.\<close>

lemma plru_descend_invalidated:
  assumes "0 < i" and "parentIndex i < length t" and "plru_walk (\<lambda>r. r) i t = Inr t'"
  shows "plru_descend t' 0 = plru_descend t' i"
  using assms
proof (induction i arbitrary: t rule: less_induct)
  case (less i)
  let ?p = "parentIndex i"
  let ?t = "t[?p := isRightSubtree i]"
  note bit = plru_walk_parent_bit [OF less.prems]
  have "plru_descend t' ?p = plru_descend t' i"
    using bit less.prems child_of_parent [of i] by (subst plru_descend_step) auto
  moreover have "plru_descend t' 0 = plru_descend t' ?p"
  proof (cases "?p = 0")
    case False
    have "parentIndex ?p < length ?t"
      using parentIndex_less [OF False] less.prems by simp
    then show ?thesis
      using less.IH [of ?p ?t] less.prems False parentIndex_less [of i]
      by (auto simp: plru_walk_unfold Let_def)
  qed simp
  ultimately show ?case by simp
qed

section \<open>Ancestors\<close>

definition up :: "nat \<Rightarrow> nat" where
  "up i = (i - 1) div 2"

lemma up_child: "up (rightSubtreeIndex i) = i" "up (leftSubtreeIndex i) = i"
  by (simp_all add: up_def rightSubtreeIndex_def leftSubtreeIndex_def)

lemma up_0 [simp]: "(up ^^ k) 0 = 0"
  by (induction k) (simp_all add: up_def)

lemma plru_descend_ancestor: "\<exists>k. (up ^^ k) (plru_descend t i) = i"
proof (induction t i rule: plru_descend.induct)
  case (1 t i)
  show ?case
  proof (cases "i < length t")
    case True
    let ?c = "if t ! i then rightSubtreeIndex i else leftSubtreeIndex i"
    obtain k where "(up ^^ k) (plru_descend t ?c) = ?c" using "1.IH" [OF True] by blast
    then have "(up ^^ Suc k) (plru_descend t ?c) = i" by (auto simp: up_child)
    then show ?thesis using True by (metis plru_descend_step)
  next
    case False
    then show ?thesis by (intro exI [of _ 0]) (simp add: plru_descend_leaf)
  qed
qed

text \<open>The root bit after a walk is set by the child of the root above the starting leaf.\<close>

lemma plru_walk_root_bit:
  assumes "0 < i" and "parentIndex i < length t" and "plru_walk f i t = Inr t'"
  shows "\<exists>k. (up ^^ k) i \<in> {1, 2} \<and> t' ! 0 = f (isRightSubtree ((up ^^ k) i))"
  using assms
proof (induction i arbitrary: t rule: less_induct)
  case (less i)
  let ?p = "parentIndex i"
  have up: "up i = ?p" using less.prems by (simp add: up_def parentIndex_def)
  show ?case
  proof (cases "?p = 0")
    case True
    then have "i \<in> {1, 2}" using less.prems(1) by (auto simp: parentIndex_def)
    then show ?thesis
      using plru_walk_parent_bit [OF less.prems] True by (intro exI [of _ 0]) auto
  next
    case False
    let ?t = "t[?p := f (isRightSubtree i)]"
    have w: "plru_walk f ?p ?t = Inr t'"
      using less.prems False by (simp add: plru_walk_unfold Let_def)
    have "parentIndex ?p < length ?t"
      using parentIndex_less [OF False] less.prems by simp
    then obtain k where "(up ^^ k) ?p \<in> {1, 2}" "t' ! 0 = f (isRightSubtree ((up ^^ k) ?p))"
      using less.IH [of ?p ?t] parentIndex_less [of i] w False less.prems(1) by blast
    then show ?thesis using up by (intro exI [of _ "Suc k"]) (simp add: funpow_swap1)
  qed
qed

lemma root_children_apart:
  assumes "(up ^^ a) i = c" and "(up ^^ b) i = c'" and "c \<in> {1, 2}" and "c' \<in> {1, 2}"
  shows "c = c'"
proof -
  have chain: "(up ^^ b) i = c" if "(up ^^ a) i = c" "(up ^^ b) i = c'" "a \<le> b"
    "c \<in> {1, 2}" "c' \<in> {1, 2}" for a b c c'
  proof -
    obtain k where b: "b = k + a" using \<open>a \<le> b\<close> by (metis add.commute le_Suc_ex)
    have e: "(up ^^ k) c = c'" using that b by (simp add: funpow_add)
    have "up c = 0" using that by (auto simp: up_def)
    then have "k = 0" using e that by (cases k) (auto simp: funpow_Suc_right simp del: funpow.simps)
    then show ?thesis using that b by simp
  qed
  show ?thesis
    using chain [of a c b c'] chain [of b c' a c] assms by (metis nat_le_linear)
qed

text \<open>Touching a leaf makes the descent end elsewhere.\<close>

lemma plru_descend_touched:
  assumes "0 < i" and "parentIndex i < length t" and "length t \<le> i"
    and "plru_walk (\<lambda>r. \<not> r) i t = Inr t'"
  shows "plru_descend t' 0 \<noteq> i"
proof
  assume eq: "plru_descend t' 0 = i"
  obtain k where k: "(up ^^ k) i \<in> {1, 2}" "t' ! 0 = (\<not> isRightSubtree ((up ^^ k) i))"
    using plru_walk_root_bit [OF assms(1,2,4)] by blast
  let ?c = "if t' ! 0 then rightSubtreeIndex 0 else leftSubtreeIndex 0"
  have len: "length t' = length t" using plru_walk_parent_bit [OF assms(1,2,4)] by simp
  have "plru_descend t' 0 = plru_descend t' ?c"
    using assms(2) len by (subst plru_descend_step) auto
  then obtain m where "(up ^^ m) i = ?c"
    using plru_descend_ancestor [of t' ?c] eq by auto
  moreover have "?c \<in> {1, 2}" by (simp add: rightSubtreeIndex_def leftSubtreeIndex_def)
  ultimately have "(up ^^ k) i = ?c" using root_children_apart k(1) by blast
  then show False
    using k by (auto simp: isRightSubtree_def rightSubtreeIndex_def leftSubtreeIndex_def
        split: if_splits)
qed

section \<open>The contract of the interface\<close>

text \<open>
  Every row of the cache's replacement data holds the \<open>numLeaves\<close> leaves of one tree, in
  order, and there are at least two of them.
\<close>

definition plru_row :: "plru_state \<Rightarrow> plru_data list \<Rightarrow> bool" where
  "plru_row g ds \<longleftrightarrow> (\<exists>tid < length (trees g).
     length (trees g ! tid) = numLeaves g - 1 \<and>
     ds = map (\<lambda>w. \<lparr>plru_index = numLeaves g - 1 + w, plru_tree = tid\<rparr>) [0..<numLeaves g])"

definition plru_ok :: "plru_state \<Rightarrow> plru_data list list \<Rightarrow> bool" where
  "plru_ok g rd \<longleftrightarrow> 2 \<le> numLeaves g \<and> (\<forall>ds \<in> set rd. plru_row g ds)"

lemma plru_rowE:
  assumes "plru_row g ds" and "w < length ds"
  obtains tid where "tid < length (trees g)" "length (trees g ! tid) = numLeaves g - 1"
    "ds ! w = \<lparr>plru_index = numLeaves g - 1 + w, plru_tree = tid\<rparr>" "length ds = numLeaves g"
  using assms by (auto simp: plru_row_def)

lemma leaf_parent:
  "2 \<le> n \<Longrightarrow> w < n \<Longrightarrow> 0 < n - 1 + w \<and> parentIndex (n - 1 + w) < n - 1"
  by (auto simp: parentIndex_def)

lemma plru_update_row:
  assumes "2 \<le> numLeaves g" and "plru_row g ds" and "w < length ds"
  shows "\<exists>t'. plru_walk f (plru_index (ds ! w)) (trees g ! plru_tree (ds ! w)) = Inr t' \<and>
    length t' = numLeaves g - 1 \<and> plru_tree (ds ! w) < length (trees g) \<and>
    plru_update f g (ds ! w) = Inr (ds ! w, g\<lparr>trees := (trees g)[plru_tree (ds ! w) := t']\<rparr>)"
proof -
  obtain tid where tid: "tid < length (trees g)" "length (trees g ! tid) = numLeaves g - 1"
    "ds ! w = \<lparr>plru_index = numLeaves g - 1 + w, plru_tree = tid\<rparr>" "length ds = numLeaves g"
    using plru_rowE [OF assms(2,3)] by metis
  from leaf_parent [of "numLeaves g" w] assms tid
  obtain t' where "plru_walk f (numLeaves g - 1 + w) (trees g ! tid) = Inr t'"
    "length t' = numLeaves g - 1"
    using plru_walk_total [of "numLeaves g - 1 + w" "trees g ! tid" f] by auto
  with tid show ?thesis by (auto simp: plru_update_def nthE_in_range)
qed

lemma plru_row_trees_update:
  assumes "plru_row g ds" and "length t' = numLeaves g - 1" and "n < length (trees g)"
  shows "plru_row (g\<lparr>trees := (trees g)[n := t']\<rparr>) ds"
  using assms by (force simp: plru_row_def nth_list_update)

lemma upd2_same: "upd2 xss i j (xss ! i ! j) = xss"
  by (simp add: upd2_def list_update_id)

lemma plru_update_ok:
  assumes "plru_ok g rd" and "s < length rd" and "w < length (rd ! s)"
  shows "\<exists>d' g'. plru_update f g (rd ! s ! w) = Inr (d', g') \<and> plru_ok g' (upd2 rd s w d')"
proof -
  have row: "plru_row g (rd ! s)" and n: "2 \<le> numLeaves g"
    using assms by (auto simp: plru_ok_def)
  from plru_update_row [OF n row assms(3), of f] obtain t' where
    t': "length t' = numLeaves g - 1" "plru_tree (rd ! s ! w) < length (trees g)"
      "plru_update f g (rd ! s ! w) =
        Inr (rd ! s ! w, g\<lparr>trees := (trees g)[plru_tree (rd ! s ! w) := t']\<rparr>)" by blast
  have "plru_ok (g\<lparr>trees := (trees g)[plru_tree (rd ! s ! w) := t']\<rparr>) rd"
    using assms(1) t' plru_row_trees_update by (auto simp: plru_ok_def)
  with t' show ?thesis by (simp add: upd2_same)
qed

lemma plru_getVictim_row:
  assumes "plru_row g ds" and "ds \<noteq> []"
  shows "\<exists>v. plru_getVictim g ds = Inr v \<and> v < length ds \<and>
    v = plru_descend (trees g ! plru_tree (ds ! 0)) 0 - (numLeaves g - 1)"
proof -
  have ne: "0 < length ds" using assms(2) by simp
  obtain tid where tid: "tid < length (trees g)" "length (trees g ! tid) = numLeaves g - 1"
    "ds ! 0 = \<lparr>plru_index = numLeaves g - 1 + 0, plru_tree = tid\<rparr>" "length ds = numLeaves g"
    using plru_rowE [OF assms(1) ne] by metis
  define i where "i = plru_descend (trees g ! tid) 0 - (numLeaves g - 1)"
  have "i < length ds"
    using plru_descend_bounds [of 0 "trees g ! tid"] tid ne by (auto simp: i_def)
  moreover have
    "plru_getVictim g ds = bindE (guardE (i < length ds) OutOfRange) (\<lambda>_. Inr i)"
    using tid ne by (simp add: plru_getVictim_def nthE_in_range Let_def i_def)
  ultimately have "plru_getVictim g ds = Inr i \<and> i < length ds" by simp
  moreover have "plru_tree (ds ! 0) = tid" using tid by simp
  ultimately show ?thesis unfolding i_def by metis
qed

interpretation plru_rp: replacement_policy plru_policy plru_ok
proof unfold_locales
  fix g :: plru_state and rd :: "plru_data list list" and s
  assume "plru_ok g rd" "s < length rd" "rd ! s \<noteq> []"
  then show "\<exists>v ds' g'. rp_getVictim plru_policy g (rd ! s) = Inr (v, ds', g') \<and>
      v < length (rd ! s) \<and> length ds' = length (rd ! s) \<and> plru_ok g' (rd[s := ds'])"
    using plru_getVictim_row [of g "rd ! s"]
    by (auto simp: plru_policy_def plru_ok_def)
qed (auto simp: plru_policy_def plru_touch_def plru_reset_def plru_invalidate_def
    intro: plru_update_ok)

section \<open>Filling a cache with fresh entries\<close>

fun plru_instantiateRow :: "nat \<Rightarrow> plru_state \<Rightarrow> plru_data list \<times> plru_state" where
  "plru_instantiateRow 0 g = ([], g)"
| "plru_instantiateRow (Suc n) g =
     (let (ds, g1) = plru_instantiateRow n g; (d, g2) = plru_instantiateEntry g1
      in (ds @ [d], g2))"

lemma plru_instantiateRow_fill:
  assumes "plru_count g mod numLeaves g = 0" and "0 < k" and "k \<le> numLeaves g"
  shows "plru_instantiateRow k g =
    (map (\<lambda>w. \<lparr>plru_index = numLeaves g - 1 + w, plru_tree = length (trees g)\<rparr>) [0..<k],
     g\<lparr>trees := trees g @ [replicate (numLeaves g - 1) False],
       plru_count := plru_count g + k\<rparr>)"
  using assms(2,3)
proof (induction k)
  case (Suc k)
  show ?case
  proof (cases "k = 0")
    case True
    then show ?thesis
      using assms(1) by (simp add: plru_instantiateEntry_def Let_def)
  next
    case False
    have "(plru_count g + k) mod numLeaves g = k"
      using assms(1) Suc.prems by (metis Suc_le_lessD add_0 mod_add_left_eq mod_less)
    then show ?thesis
      using Suc False by (simp add: plru_instantiateEntry_def Let_def)
  qed
qed simp

section \<open>The victim after an access\<close>

lemma plru_victim_after:
  assumes two: "2 \<le> numLeaves g" and row: "plru_row g ds" and w: "w < length ds"
    and u: "plru_update f g (ds ! w) = Inr (d', g')"
  obtains t t' where "plru_walk f (numLeaves g - 1 + w) t = Inr t'"
    and "length t = numLeaves g - 1" and "length t' = numLeaves g - 1"
    and "plru_getVictim g' ds = Inr (plru_descend t' 0 - (numLeaves g - 1))"
    and "plru_descend t' 0 - (numLeaves g - 1) < length ds"
proof -
  obtain tid where tid: "tid < length (trees g)" "length (trees g ! tid) = numLeaves g - 1"
    "ds = map (\<lambda>w. \<lparr>plru_index = numLeaves g - 1 + w, plru_tree = tid\<rparr>) [0..<numLeaves g]"
    using row by (auto simp: plru_row_def)
  then have dsw: "ds ! w = \<lparr>plru_index = numLeaves g - 1 + w, plru_tree = tid\<rparr>"
    and ds0: "plru_tree (ds ! 0) = tid" and len: "length ds = numLeaves g"
    using w two by simp_all
  obtain t' where t': "plru_walk f (numLeaves g - 1 + w) (trees g ! tid) = Inr t'"
    "length t' = numLeaves g - 1" "g' = g\<lparr>trees := (trees g)[tid := t']\<rparr>"
    using plru_update_row [OF two row w, of f] u dsw by auto
  have "plru_row g' ds" using plru_row_trees_update [OF row t'(2) tid(1)] t'(3) by simp
  moreover have "ds \<noteq> []" using len two by auto
  ultimately obtain v where v: "plru_getVictim g' ds = Inr v" "v < length ds"
    "v = plru_descend (trees g' ! plru_tree (ds ! 0)) 0 - (numLeaves g' - 1)"
    using plru_getVictim_row by blast
  moreover have "trees g' ! tid = t'" "numLeaves g' = numLeaves g" using t'(3) tid(1) by simp_all
  ultimately show thesis using that [OF t'(1) tid(2) t'(2)] ds0 by simp
qed

text \<open>
  C25. Tree-PLRU never evicts what was just used: after a touch of one way of a set (of at least two
  ways), the victim of that set exists and is another way.
\<close>

theorem plru_touch_protects:
  assumes "2 \<le> numLeaves g" and "plru_row g ds" and "w < length ds"
    and "plru_touch g (ds ! w) = Inr (d', g')"
  shows "\<exists>v. plru_getVictim g' ds = Inr v \<and> v < length ds \<and> v \<noteq> w"
proof -
  obtain t t' where t: "plru_walk (\<lambda>r. \<not> r) (numLeaves g - 1 + w) t = Inr t'"
    "length t = numLeaves g - 1" "length t' = numLeaves g - 1"
    and v: "plru_getVictim g' ds = Inr (plru_descend t' 0 - (numLeaves g - 1))"
    "plru_descend t' 0 - (numLeaves g - 1) < length ds"
    by (rule plru_victim_after [OF assms(1-3) assms(4) [unfolded plru_touch_def]]) (rule that)
  have len: "length ds = numLeaves g" using plru_rowE [OF assms(2,3)] by blast
  have i: "0 < numLeaves g - 1 + w" "parentIndex (numLeaves g - 1 + w) < length t"
    using leaf_parent [of "numLeaves g" w] assms(1,3) len t(2) by simp_all
  have "plru_descend t' 0 \<noteq> numLeaves g - 1 + w"
    by (rule plru_descend_touched [OF i _ t(1)]) (simp add: t(2))
  moreover have "numLeaves g - 1 \<le> plru_descend t' 0"
    using plru_descend_bounds [of 0 t'] t(3) by simp
  ultimately have "plru_descend t' 0 - (numLeaves g - 1) \<noteq> w" by linarith
  then show ?thesis using v by blast
qed

definition plru_example :: "plru_data list \<times> plru_state" where
  "plru_example = plru_instantiateRow 4 \<lparr>numLeaves = 4, plru_count = 0, trees = []\<rparr>"

lemma plru_example_row:
  "plru_row (snd plru_example) (fst plru_example)" "numLeaves (snd plru_example) = 4"
  "length (fst plru_example) = 4"
  by (simp_all add: plru_example_def plru_instantiateRow_fill plru_row_def)

theorem plru_touch_protects_witness:
  "\<exists>d' g' v. plru_touch (snd plru_example) (fst plru_example ! 0) = Inr (d', g') \<and>
     plru_getVictim g' (fst plru_example) = Inr v \<and> v \<noteq> 0"
proof -
  obtain d' g' where u: "plru_touch (snd plru_example) (fst plru_example ! 0) = Inr (d', g')"
    using plru_update_row [OF _ plru_example_row(1), of 0 "\<lambda>r. \<not> r"] plru_example_row
    by (auto simp: plru_touch_def)
  show ?thesis
    using plru_touch_protects [OF _ plru_example_row(1) _ u] u plru_example_row by auto
qed

text \<open>
  C26. Tree-PLRU evicts what was just invalidated: after the invalidation of one way of a set, that way
  is the victim.
\<close>

theorem plru_invalidate_selects:
  assumes "2 \<le> numLeaves g" and "plru_row g ds" and "w < length ds"
    and "plru_invalidate g (ds ! w) = Inr (d', g')"
  shows "plru_getVictim g' ds = Inr w"
proof -
  obtain t t' where t: "plru_walk (\<lambda>r. r) (numLeaves g - 1 + w) t = Inr t'"
    "length t = numLeaves g - 1" "length t' = numLeaves g - 1"
    and v: "plru_getVictim g' ds = Inr (plru_descend t' 0 - (numLeaves g - 1))"
    by (rule plru_victim_after [OF assms(1-3) assms(4) [unfolded plru_invalidate_def]]) (rule that)
  have len: "length ds = numLeaves g" using plru_rowE [OF assms(2,3)] by blast
  have i: "0 < numLeaves g - 1 + w" "parentIndex (numLeaves g - 1 + w) < length t"
    using leaf_parent [of "numLeaves g" w] assms(1,3) len t(2) by simp_all
  have "plru_descend t' 0 = numLeaves g - 1 + w"
    using plru_descend_invalidated [OF i t(1)] plru_descend_leaf [of t'] t(3) by simp
  then show ?thesis using v by simp
qed

theorem plru_invalidate_selects_witness:
  "\<exists>d' g'. plru_invalidate (snd plru_example) (fst plru_example ! 2) = Inr (d', g') \<and>
     plru_getVictim g' (fst plru_example) = Inr 2"
proof -
  obtain d' g' where u: "plru_invalidate (snd plru_example) (fst plru_example ! 2) = Inr (d', g')"
    using plru_update_row [OF _ plru_example_row(1), of 2 "\<lambda>r. r"] plru_example_row
    by (auto simp: plru_invalidate_def)
  show ?thesis
    using plru_invalidate_selects [OF _ plru_example_row(1) _ u] u plru_example_row by auto
qed

end
