(* ===== verification/Policy_Instances.thy ===== *)
theory Policy_Instances
  imports Cache_Boot Stamp_Policies Tree_PLRU
begin

text \<open>
  The policies as providers of fresh replacement data: every policy fills the array of a cache
  of any size, and Tree-PLRU that of a cache whose associativity is its number of leaves (at
  least two).  With these interpretations the facts about the cache hold for each policy.
\<close>

lemma const_fresh:
  assumes "\<And>g. rp_instantiateEntry P g = Inr (d, g)"
  shows "\<exists>rd g. instantiate_all P n k g0 = Inr (rd, g) \<and> dims n k rd \<and> True"
  using instantiate_all_const [OF assms, of n k g0] dims_replicate [of n k d] by blast

interpretation lru_fresh: fresh_policy lru_policy "\<lambda>_ _. True" "()" n k for n k
  by unfold_locales (rule const_fresh [where d = lru_instantiateEntry], simp add: lru_policy_def)

interpretation mru_fresh: fresh_policy mru_policy "\<lambda>_ _. True" g n k for g n k
  by unfold_locales (rule const_fresh [where d = mru_instantiateEntry], simp add: mru_policy_def)

interpretation fifo_fresh: fresh_policy fifo_policy "\<lambda>_ _. True" g n k for g n k
  by unfold_locales (rule const_fresh [where d = fifo_instantiateEntry], simp add: fifo_policy_def)

interpretation lfu_fresh: fresh_policy lfu_policy "\<lambda>_ _. True" g n k for g n k
  by unfold_locales (rule const_fresh [where d = lfu_instantiateEntry], simp add: lfu_policy_def)

interpretation wlru_fresh: fresh_policy wlru_policy "\<lambda>_ _. True" g n k for g n k
  by unfold_locales (rule const_fresh [where d = wlru_instantiateEntry], simp add: wlru_policy_def)

interpretation random_fresh: fresh_policy random_policy "\<lambda>_ _. True" g n k for g n k
  by unfold_locales (rule const_fresh [where d = random_instantiateEntry], simp add: random_policy_def)

interpretation bip_fresh: fresh_policy "bip_policy btp" "\<lambda>_ _. True" g n k for btp g n k
  by unfold_locales (rule const_fresh [where d = lru_instantiateEntry], simp add: bip_policy_def)

section \<open>Tree-PLRU\<close>

lemma instantiate_row_snoc:
  "instantiate_row P (Suc k) g =
     bindE (instantiate_row P k g) (\<lambda>(ds, g1).
     bindE (rp_instantiateEntry P g1) (\<lambda>(d, g2). Inr (ds @ [d], g2)))"
proof (induction k arbitrary: g)
  case (Suc k)
  show ?case
    by (subst instantiate_row.simps(2), subst Suc)
      (auto simp: bindE_def split: sum.splits)
qed (auto simp: bindE_def split: sum.splits)

lemma plru_row_instantiated: "instantiate_row plru_policy k g = Inr (plru_instantiateRow k g)"
proof (induction k)
  case (Suc k)
  have "rp_instantiateEntry plru_policy h = Inr (plru_instantiateEntry h)" for h
    by (simp add: plru_policy_def)
  then show ?case
    by (subst instantiate_row_snoc) (simp add: Suc split_def Let_def)
qed simp

lemma plru_row_extend:
  "plru_row g ds \<Longrightarrow> numLeaves g' = numLeaves g \<Longrightarrow> trees g' = trees g @ ts \<Longrightarrow> plru_row g' ds"
  by (auto simp: plru_row_def nth_append intro: trans_less_add1)

lemma plru_all_instantiated:
  assumes "plru_count g mod numLeaves g = 0" and "2 \<le> numLeaves g"
  shows "\<exists>rd g'. instantiate_all plru_policy n (numLeaves g) g = Inr (rd, g') \<and>
    dims n (numLeaves g) rd \<and> numLeaves g' = numLeaves g \<and>
    (\<exists>ts. trees g' = trees g @ ts) \<and> (\<forall>ds \<in> set rd. plru_row g' ds)"
  using assms
proof (induction n arbitrary: g)
  case (Suc n)
  let ?L = "numLeaves g"
  define ds where "ds = map (\<lambda>w. \<lparr>plru_index = ?L - 1 + w, plru_tree = length (trees g)\<rparr>) [0..<?L]"
  define g1 where "g1 = g\<lparr>trees := trees g @ [replicate (?L - 1) False], plru_count := plru_count g + ?L\<rparr>"
  have row: "instantiate_row plru_policy ?L g = Inr (ds, g1)"
    using plru_instantiateRow_fill [OF Suc.prems(1), of ?L] Suc.prems(2)
    by (simp add: plru_row_instantiated ds_def g1_def)
  have g1: "numLeaves g1 = ?L" "plru_count g1 mod numLeaves g1 = 0" "2 \<le> numLeaves g1"
    using Suc.prems by (simp_all add: g1_def)
  obtain rd g' ts where rd: "instantiate_all plru_policy n ?L g1 = Inr (rd, g')"
    "dims n ?L rd" "numLeaves g' = ?L" "trees g' = trees g1 @ ts" "\<forall>ds \<in> set rd. plru_row g' ds"
    using Suc.IH [OF g1(2,3)] g1(1) by auto
  have "plru_row g1 ds"
    unfolding plru_row_def by (rule exI [of _ "length (trees g)"]) (simp add: g1_def ds_def)
  then have "plru_row g' ds" using plru_row_extend rd(3,4) g1(1) by simp
  moreover have "dims (Suc n) ?L (ds # rd)" using rd(2) by (simp add: dims_def ds_def)
  moreover have "\<exists>ts. trees g' = trees g @ ts" using rd(4) by (simp add: g1_def)
  ultimately show ?case using row rd by auto
qed (simp add: dims_def)

interpretation plru_fresh:
  fresh_policy plru_policy plru_ok "\<lparr>numLeaves = k + 2, plru_count = 0, trees = []\<rparr>" n "k + 2" for n k
proof unfold_locales
  let ?g = "\<lparr>numLeaves = k + 2, plru_count = 0, trees = []\<rparr>"
  show "\<exists>rd g. instantiate_all plru_policy n (k + 2) ?g = Inr (rd, g) \<and> dims n (k + 2) rd \<and> plru_ok g rd"
    using plru_all_instantiated [of ?g n] by (auto simp: plru_ok_def)
qed

end
