(* ===== verification/Cache_Scenario.thy ===== *)
theory Cache_Scenario
  imports Policy_Instances
begin

text \<open>
  Runs of a cache: sequences of operations, the states a constructed cache can be in, and one
  concrete configuration (a 1 KiB, two-way, four-zone STT-RAM cache with lazy redirection under
  LRU, 64-byte blocks, clock period 500) on which statements about runs are evaluated.
\<close>

section \<open>Sequences of operations\<close>

fun run_ops ::
  "('d, 'g) repl_policy \<Rightarrow> ('e \<Rightarrow> 'e) \<Rightarrow> 'e cache_op list \<Rightarrow> ('d, 'g, 'e) cache_memory \<Rightarrow>
   ('d, 'g, 'e) cache_memory res" where
  "run_ops P f [] c = Inr c"
| "run_ops P f (op # ops) c = bindE (run_op P f op c) (run_ops P f ops)"

lemma run_ops_append:
  "run_ops P f (xs @ ys) c = bindE (run_ops P f xs c) (run_ops P f ys)"
  by (induction xs arbitrary: c) (auto simp: bindE_def split: sum.splits)

lemma run_ops_reachable: "run_ops P f ops c = Inr c' \<Longrightarrow> reachable P f c0 c \<Longrightarrow> reachable P f c0 c'"
  by (induction ops arbitrary: c) (auto simp: bindE_eq_Inr intro: reachable.step)

text \<open>A state of a cache that was built from its parameters and has run some operations.\<close>

definition running ::
  "('d, 'g) repl_policy \<Rightarrow> ('e \<Rightarrow> 'e) \<Rightarrow> 'g \<Rightarrow> cache_params \<Rightarrow> Tick \<Rightarrow> nat \<Rightarrow>
   ('d, 'g, 'e) cache_memory \<Rightarrow> bool" where
  "running P f g p clk blk c \<longleftrightarrow> (\<exists>c0. cm_boot P g p clk blk = Inr c0 \<and> reachable P f c0 c)"

lemma running_run_ops:
  "running P f g p clk blk c \<Longrightarrow> run_ops P f ops c = Inr c' \<Longrightarrow> running P f g p clk blk c'"
  by (auto simp: running_def intro: run_ops_reachable)

lemma running_ok:
  fixes c :: "('d, 'g, 'e) cache_memory"
  assumes "fresh_policy P ok g (num_sets_of p blk) (p_assoc p)" and "params_ok p clk blk"
    and "running P f g p clk blk c"
  shows "replacement_policy P ok" and "cm_ok ok c" and "cm_inv c"
proof -
  show P: "replacement_policy P ok" using assms(1) by (simp add: fresh_policy_def)
  obtain c0 where c0: "cm_boot P g p clk blk = Inr c0" "reachable P f c0 c"
    using assms(3) by (auto simp: running_def)
  obtain c1 :: "('d, 'g, 'e) cache_memory" where "cm_boot P g p clk blk = Inr c1" "cm_ok ok c1"
    using fresh_policy.boot_ok [OF assms(1,2) refl refl] by blast
  then have "cm_ok ok c0" using c0(1) by simp
  then show "cm_ok ok c" using replacement_policy.reachable_ok [OF P c0(2)] by blast
  then show "cm_inv c" by (simp add: cm_ok_def)
qed

section \<open>A concrete cache\<close>

definition demo_zone :: "Cycles \<Rightarrow> Tick \<Rightarrow> latency_type" where
  "demo_zone l t =
     \<lparr>lt_data = \<lparr>read_latency = l, write_latency = 2 * l\<rparr>,
      lt_tag = \<lparr>read_latency = 1, write_latency = 2\<rparr>, lt_time = t\<rparr>"

definition demo_params :: cache_params where
  "demo_params =
     \<lparr>p_size = 1024, p_assoc = 2, p_start_index_bit = 6, p_is_icache = False, p_block_size = 0,
      p_atomicLatency = 1, p_atomicALUs = 4, p_dataArrayBanks = 2, p_tagArrayBanks = 2,
      p_resourceStalls = True, p_num_of_retention_zones = 4, p_is_sttram = True,
      p_lazy_redirection_scheme = True,
      p_low_retention = demo_zone 1 1000, p_mediumlow_retention = demo_zone 2 10000,
      p_mediumhigh_retention = demo_zone 3 100000, p_high_retention = demo_zone 4 1000000\<rparr>"

lemma demo_params_ok: "params_ok demo_params 500 64"
  by (simp add: params_ok_def demo_params_def num_sets_of_def)

definition demo_state :: "unit cache_op list \<Rightarrow> (lru_data, unit, unit) cache_memory res" where
  "demo_state ops = bindE (cm_boot lru_policy () demo_params 500 64) (run_ops lru_policy id ops)"

definition okE :: "'a res \<Rightarrow> bool" where
  "okE r = (case r of Inr _ \<Rightarrow> True | Inl _ \<Rightarrow> False)"

lemma okE_D: "okE r \<Longrightarrow> \<exists>x. r = Inr x"
  by (auto simp: okE_def split: sum.splits)

lemma demo_running: "demo_state ops = Inr c \<Longrightarrow> running lru_policy id () demo_params 500 64 c"
  by (auto simp: demo_state_def running_def bindE_eq_Inr intro: run_ops_reachable reachable.start)

lemmas demo_hyps = lru_fresh.fresh_policy_axioms demo_params_ok

text \<open>A fact about the state after a run, read off an evaluation.\<close>

lemma demo_eval:
  assumes "bindE (demo_state ops) (\<lambda>c. Inr (Q c)) = Inr True"
  obtains c where "demo_state ops = Inr c" and "Q c"
  using assms by (auto simp: bindE_eq_Inr)

text \<open>The entry a controller hands to \<^verbatim>\<open>allocate\<close>, and the run that fills set 0.\<close>

abbreviation demo_entry :: "unit cache_entry_scheme" where
  "demo_entry \<equiv> entry_new 0 0 0 ()"

definition fill_set0 :: "unit cache_op list" where
  "fill_set0 =
     [OpAllocate 10 0 demo_entry, OpChangePermission 0 Read_Write,
      OpAllocate 20 512 demo_entry, OpChangePermission 512 Read_Only]"

lemma fill_set0_full:
  "bindE (demo_state fill_set0) (\<lambda>c. Inr (enabled (OpProbe 30 1024) c)) = Inr True"
  by code_simp

end
