(* ===== verification/Cache_Pages.thy ===== *)
theory Cache_Pages
  imports Cache_Scenario
begin

text \<open>
  Hot pages.  The lazy redirection scheme counts the data writes to the present blocks of a page in
  a 4-bit saturating counter; the write that saturates it redirects the page.  Nothing but a data
  write to a present block of a page changes the counter or the redirection of that page.
\<close>

definition pages ::
  "('d, 'g, 'e) cache_memory \<Rightarrow> (Addr \<rightharpoonup> SatCounter8) \<times> (Addr \<rightharpoonup> nat)" where
  "pages c = (m_chunk_counters c, m_chunk_redirection_table c)"

section \<open>What leaves the pages alone\<close>

lemma pages_frame [simp]:
  "pages (upd_stats f c) = pages c"
  "pages (c\<lparr>dataArray := x1\<rparr>) = pages c"
  "pages (c\<lparr>tagArray := x2\<rparr>) = pages c"
  "pages (c\<lparr>m_chunk := x3\<rparr>) = pages c"
  "pages (count_walk a c) = pages c"
  "pages (set_entry loc e c) = pages c"
  by (simp_all add: pages_def upd_stats_def count_walk_def set_entry_def split: option.splits)

lemma reserve_data_pages: "reserve_data now a z t c = Inr c' \<Longrightarrow> pages c' = pages c"
  by (auto simp: reserve_data_def res_iffs split: if_splits)

lemma bump_chunk_writes_pages: "bump_chunk_writes k c = Inr c' \<Longrightarrow> pages c' = pages c"
  by (auto simp: bump_chunk_writes_def Let_def res_iffs)

lemma mod_entry_pages: "mod_entry f loc c = Inr c' \<Longrightarrow> pages c' = pages c"
  by (auto simp: mod_entry_def res_iffs)

lemma record_preamble_pages: "record_preamble now a c = Inr (z, k, p, c') \<Longrightarrow> pages c' = pages c"
  by (auto simp: record_preamble_def Let_def res_iffs on_entry_def split: option.splits
      dest!: mod_entry_pages)

lemma counted_pages: "pages c' = pages c \<Longrightarrow> cfg c' = cfg c \<Longrightarrow> pages (counted a c') = pages (counted a c)"
  by (simp add: counted_def Let_def pages_def cfg_def page_counter_def upd_stats_def)

section \<open>A data write to a present block\<close>

lemma data_write_pages:
  assumes inv: "cm_inv c" and x: "blocks c a = Some x" and r: "recordRequestType now DataArrayWrite a c = Inr c'"
  shows "pages c' = pages (counted a c)"
proof -
  obtain e where e: "m_tag_index c a = Some e" "is_line c a" using blocks_Some [OF inv x] by blast
  obtain s where s: "addressToCacheSet c a = Inr s" using addressToCacheSet_inv [OF inv e(2)] .
  obtain c1 where c1: "record_preamble now a c =
      Inr (zone_of c s, s div 4, map_option decode_loc (m_tag_index c a), c1)"
    "updates a (map_option (entry_setLastAccess now) (blocks c a)) c c1"
    by (rule record_preamble_spec [OF inv e(2) s, of now]) (rule that)
  obtain l c2 c3 where c2: "mod_entry (refresh_entry now l) (decode_loc e) c1 = Inr c2"
    "count_write a c2 = Inr c3" and t: "record_data_write now a (zone_of c s) (s div 4) None c3 = Inr c'"
    using r c1(1) e(1) by (auto simp: recordRequestType_def record_data_write_Some res_iffs)
  have ix: "m_tag_index c1 a = Some e" "cm_inv c1" using updatesD [OF c1(2)] e(1) by simp_all
  have "cm_inv c2" "cfg c2 = cfg c1"
    using mod_entry_updates [OF ix(2,1) refresh_same_place(1) [of _ now l]] c2(1)
    by (auto simp: updates_def frame_def)
  moreover have "cfg c1 = cfg c" using c1(2) by (simp add: updates_def frame_def)
  ultimately have "c3 = counted a c2" "cfg c2 = cfg c" using count_write_eq [of c2 a] c2(2) by simp_all
  moreover have "pages c2 = pages c" using mod_entry_pages [OF c2(1)] record_preamble_pages [OF c1(1)] by simp
  ultimately have "pages c3 = pages (counted a c)" using counted_pages by blast
  then show ?thesis
    using t by (auto simp: record_data_write_def on_entry_def res_iffs dest!: reserve_data_pages bump_chunk_writes_pages)
qed

text \<open>The writes the counter of a page has seen, capped at 15, and whether the page is redirected.\<close>

lemma counted_page:
  assumes pw: "page_wf c" and lazy: "m_lazy_redirection_scheme c"
    and free: "m_chunk_redirection_table c (chunk_ID a) = None"
  shows "m_chunk_redirection_table (counted a c) =
      (if 14 \<le> sc_value (page_counter c (chunk_ID a))
       then (m_chunk_redirection_table c)(chunk_ID a \<mapsto> unat (chunk_ID a) mod zone_size_of c)
       else m_chunk_redirection_table c)"
    and "sc_value (page_counter (counted a c) (chunk_ID a)) = min 15 (sc_value (page_counter c (chunk_ID a)) + 1)"
proof -
  note w = page_counter_wf [OF pw, of "chunk_ID a"]
  have v: "sc_value (sc_inc (page_counter c (chunk_ID a))) = min 15 (sc_value (page_counter c (chunk_ID a)) + 1)"
    using sc_inc_value w by fastforce
  have "sc_isSaturated (sc_inc (page_counter c (chunk_ID a))) \<longleftrightarrow>
    sc_value (sc_inc (page_counter c (chunk_ID a))) = 15"
    using sc_isSaturated_value [OF sc_inc_wf, of "page_counter c (chunk_ID a)"] w by simp
  then have s: "sc_isSaturated (sc_inc (page_counter c (chunk_ID a))) \<longleftrightarrow> 14 \<le> sc_value (page_counter c (chunk_ID a))"
    using v by linarith
  show "m_chunk_redirection_table (counted a c) =
      (if 14 \<le> sc_value (page_counter c (chunk_ID a))
       then (m_chunk_redirection_table c)(chunk_ID a \<mapsto> unat (chunk_ID a) mod zone_size_of c)
       else m_chunk_redirection_table c)"
    using lazy free s by (simp add: counted_def Let_def upd_stats_def)
  show "sc_value (page_counter (counted a c) (chunk_ID a)) = min 15 (sc_value (page_counter c (chunk_ID a)) + 1)"
    using lazy free v by (simp add: counted_def Let_def upd_stats_def page_counter_def)
qed

lemma counted_redirected:
  assumes "m_lazy_redirection_scheme c" and "m_chunk_redirection_table c (chunk_ID a) \<noteq> None"
  shows "m_chunk_redirection_table (counted a c) = m_chunk_redirection_table c"
  using assms by (simp add: counted_def Let_def)

section \<open>A run of data writes to one page\<close>

text \<open>
  Where a line is found after a request: a tag write makes an entry that was not present found
  again, where the index says it is; every other line stays as it was.
\<close>

lemma record_step:
  assumes inv: "cm_inv c" and r: "recordRequestType now t a c = Inr c'"
  shows "frame c c'" and "\<And>b. b \<noteq> a \<Longrightarrow> blocks c' b = blocks c b"
    and "present_loc c' b =
      (if b = a \<and> t = TagArrayWrite then map_option decode_loc (m_tag_index c b) else present_loc c b)"
proof -
  have a: "is_line c a" by (rule needs_line(5) [OF inv r])
  obtain s where s: "addressToCacheSet c a = Inr s" using addressToCacheSet_inv [OF inv a] .
  obtain c1 where c1: "recordRequestType now t a c = Inr c1" "frame c c1"
    "\<And>b. b \<noteq> a \<Longrightarrow> blocks c1 b = blocks c b"
    "blocks c1 a = None \<longleftrightarrow> (if t = TagArrayWrite then m_tag_index c a = None else blocks c a = None)"
    by (rule recordRequestType_spec [OF inv a s, of now t]) (rule that)
  have [simp]: "c1 = c'" using c1(1) r by simp
  show "frame c c'" "\<And>b. b \<noteq> a \<Longrightarrow> blocks c' b = blocks c b" using c1 by simp_all
  show "present_loc c' b =
      (if b = a \<and> t = TagArrayWrite then map_option decode_loc (m_tag_index c b) else present_loc c b)"
    using c1(3) [of b] c1(4) frameD(2) [OF c1(2)]
    by (cases "b = a") (auto simp: present_loc_def simp del: not_None_eq)
qed

lemma record_step_present:
  assumes "cm_inv c" and "recordRequestType now t a c = Inr c'" and "blocks c a \<noteq> None"
  shows "present_loc c' b = present_loc c b"
  using record_step(3) [OF assms(1,2), of b] assms(3)
  by (cases "b = a") (simp_all add: present_loc_def del: not_None_eq)

lemma record_step_blocks:
  assumes "cm_inv c" and "recordRequestType now t a c = Inr c'" and "blocks c a \<noteq> None"
  shows "blocks c' b = None \<longleftrightarrow> blocks c b = None"
  using record_step_present [OF assms, of b] present_loc_None [of c b] present_loc_None [of c' b] by auto

lemma redirected_writes:
  assumes "run_ops P f (map (\<lambda>(t, a). OpRecord t DataArrayWrite a) ws) c = Inr c'"
    and "cm_inv c" and "m_lazy_redirection_scheme c" and "m_chunk_redirection_table c ch \<noteq> None"
    and "\<forall>(t, a) \<in> set ws. chunk_ID a = ch \<and> blocks c a \<noteq> None"
  shows "m_chunk_redirection_table c' = m_chunk_redirection_table c"
  using assms
proof (induction ws arbitrary: c)
  case (Cons w ws)
  obtain t a where w: "w = (t, a)" by (cases w)
  obtain c1 where r: "recordRequestType t DataArrayWrite a c = Inr c1"
    and run: "run_ops P f (map (\<lambda>(t, a). OpRecord t DataArrayWrite a) ws) c1 = Inr c'"
    using Cons.prems(1) w by (auto simp: bindE_eq_Inr)
  obtain x where x: "blocks c a = Some x" and ch: "chunk_ID a = ch" using Cons.prems(5) w by auto
  note f = frameD [OF record_step(1) [OF Cons.prems(2) r]]
  have t: "m_chunk_redirection_table c1 = m_chunk_redirection_table c"
    using data_write_pages [OF Cons.prems(2) x r] counted_redirected [of c a] Cons.prems(3,4) ch
    by (simp add: pages_def)
  have "\<forall>(t, a) \<in> set ws. chunk_ID a = ch \<and> blocks c1 a \<noteq> None"
    using Cons.prems(5) record_step_blocks [OF Cons.prems(2) r] x w by auto
  then have "m_chunk_redirection_table c' = m_chunk_redirection_table c1"
    using Cons.IH [OF run f(1)] f(9) Cons.prems(3,4) t by simp
  then show ?case using t by simp
qed simp

lemma page_writes:
  assumes "run_ops P f (map (\<lambda>(t, a). OpRecord t DataArrayWrite a) ws) c = Inr c'"
    and "cm_inv c" and "m_lazy_redirection_scheme c" and "m_chunk_redirection_table c ch = None"
    and "sc_value (page_counter c ch) < 15"
    and "\<forall>(t, a) \<in> set ws. chunk_ID a = ch \<and> blocks c a \<noteq> None"
  shows "m_chunk_redirection_table c' =
    (if sc_value (page_counter c ch) + length ws < 15 then m_chunk_redirection_table c
     else (m_chunk_redirection_table c)(ch \<mapsto> unat ch mod zone_size_of c))"
  using assms
proof (induction ws arbitrary: c)
  case (Cons w ws)
  obtain t a where w: "w = (t, a)" by (cases w)
  obtain c1 where r: "recordRequestType t DataArrayWrite a c = Inr c1"
    and run: "run_ops P f (map (\<lambda>(t, a). OpRecord t DataArrayWrite a) ws) c1 = Inr c'"
    using Cons.prems(1) w by (auto simp: bindE_eq_Inr)
  obtain x where x: "blocks c a = Some x" and ch: "chunk_ID a = ch" using Cons.prems(6) w by auto
  note f = frameD [OF record_step(1) [OF Cons.prems(2) r]]
  have p: "pages c1 = pages (counted a c)" by (rule data_write_pages [OF Cons.prems(2) x r])
  have pw: "page_wf c" using Cons.prems(2) by (simp add: cm_inv_def)
  note cp = counted_page [OF pw Cons.prems(3), of a, unfolded ch, OF Cons.prems(4)]
  have t: "m_chunk_redirection_table c1 = (if 14 \<le> sc_value (page_counter c ch)
      then (m_chunk_redirection_table c)(ch \<mapsto> unat ch mod zone_size_of c) else m_chunk_redirection_table c)"
    using p cp(1) by (simp add: pages_def)
  have v: "sc_value (page_counter c1 ch) = min 15 (sc_value (page_counter c ch) + 1)"
    using p cp(2) by (simp add: pages_def page_counter_def)
  have pres: "\<forall>(t, a) \<in> set ws. chunk_ID a = ch \<and> blocks c1 a \<noteq> None"
    using Cons.prems(6) record_step_blocks [OF Cons.prems(2) r] x w by auto
  have lz: "m_lazy_redirection_scheme c1" using f(9) Cons.prems(3) by simp
  show ?case
  proof (cases "14 \<le> sc_value (page_counter c ch)")
    case True
    then have "m_chunk_redirection_table c' = m_chunk_redirection_table c1"
      using redirected_writes [OF run f(1) lz _ pres] t by simp
    then show ?thesis using True t Cons.prems(5) by simp
  next
    case False
    then show ?thesis using Cons.IH [OF run f(1) lz _ _ pres] t v Cons.prems(4) f(4,5) by simp
  qed
qed simp

end
