(* ===== verification/Second_Chance.thy ===== *)
theory Second_Chance
  imports Stamp_Policies
begin

text \<open>
  \<^verbatim>\<open>SecondChance\<close> (\<^verbatim>\<open>src/gem5/src/mem/cache/replacement_policies/second_chance_rp.cc\<close>): FIFO in
  which a touched entry is re-inserted once instead of being evicted.

  Its victim search is a loop that terminates because every round uses up one second chance.
  The main lemma, \<open>chance_search_spec\<close>, says what it finds: the entry that FIFO would choose
  among those that have no second chance.
\<close>

record chance_data = fifo_data +
  hasSecondChance :: bool

definition useSecondChance :: "Tick \<Rightarrow> chance_data \<Rightarrow> chance_data \<times> Tick" where
  "useSecondChance timeTicks d =
     (let (d1, t1) = fifo_reset timeTicks d in (d1\<lparr>hasSecondChance := False\<rparr>, t1))"

definition chance_invalidate :: "Tick \<Rightarrow> chance_data \<Rightarrow> chance_data \<times> Tick" where
  "chance_invalidate timeTicks d =
     (let (d1, t1) = fifo_invalidate timeTicks d in (d1\<lparr>hasSecondChance := False\<rparr>, t1))"

definition chance_touch :: "Tick \<Rightarrow> chance_data \<Rightarrow> chance_data \<times> Tick" where
  "chance_touch timeTicks d =
     (let (d1, t1) = fifo_touch timeTicks d in (d1\<lparr>hasSecondChance := True\<rparr>, t1))"

definition chance_reset :: "Tick \<Rightarrow> chance_data \<Rightarrow> chance_data \<times> Tick" where
  "chance_reset timeTicks d =
     (let (d1, t1) = fifo_reset timeTicks d in (d1\<lparr>hasSecondChance := False\<rparr>, t1))"

text \<open>One FIFO search; \<open>oldest\<close> is the index it returns on a list that is not empty.\<close>

abbreviation oldest :: "chance_data list \<Rightarrow> nat" where
  "oldest ds \<equiv> scan_victim (\<lambda>c v. tickInserted c < tickInserted v) ds"

abbreviation chances :: "chance_data list \<Rightarrow> nat" where
  "chances ds \<equiv> length (filter hasSecondChance ds)"

lemma chances_update:
  assumes "i < length ds" and "hasSecondChance (ds ! i)" and "\<not> hasSecondChance d"
  shows "chances (ds[i := d]) < chances ds"
proof -
  have e: "take i ds @ ds ! i # drop (Suc i) ds = ds" using assms(1) by (rule id_take_nth_drop [symmetric])
  have "chances (take i ds @ d # drop (Suc i) ds) < chances (take i ds @ ds ! i # drop (Suc i) ds)"
    using assms(2,3) by simp
  then show ?thesis unfolding e by (simp only: upd_conv_take_nth_drop [OF assms(1)])
qed

function chance_search :: "Tick \<Rightarrow> chance_data list \<Rightarrow> (nat \<times> chance_data list \<times> Tick) res" where
  "chance_search timeTicks ds =
     bindE (fifo_getVictim ds) (\<lambda>v.
     if hasSecondChance (ds ! v) then
       let (d, t) = useSecondChance timeTicks (ds ! v) in chance_search t (ds[v := d])
     else Inr (v, ds, timeTicks))"
  by pat_completeness auto
termination
proof (relation "measure (\<lambda>(t, ds). chances ds)")
  fix t and ds :: "chance_data list" and v xa d t'
  assume "fifo_getVictim ds = Inr v" "hasSecondChance (ds ! v)" "xa = useSecondChance t (ds ! v)" "(d, t') = xa"
  then have "v < length ds" "\<not> hasSecondChance d"
    using scan_victim_range [of ds]
    by (auto simp: fifo_getVictim_def res_iffs useSecondChance_def Let_def split_def)
  then show "((t', ds[v := d]), (t, ds)) \<in> measure (\<lambda>(t, ds). chances ds)"
    using chances_update [of v ds d] \<open>hasSecondChance (ds ! v)\<close> by simp
qed simp

declare chance_search.simps [simp del]

definition chance_getVictim :: "Tick \<Rightarrow> chance_data list \<Rightarrow> (nat \<times> chance_data list \<times> Tick) res" where
  "chance_getVictim timeTicks ds =
     bindE (assertE (0 < length ds) ''candidates.size() > 0'') (\<lambda>_.
     case find_idx (\<lambda>i. tickInserted (ds ! i) = 0 \<and> \<not> hasSecondChance (ds ! i)) (length ds) of
       Some i \<Rightarrow> Inr (i, ds, timeTicks)
     | None \<Rightarrow> chance_search timeTicks ds)"

definition chance_instantiateEntry :: chance_data where
  "chance_instantiateEntry = \<lparr>tickInserted = 0, hasSecondChance = False\<rparr>"

definition chance_policy :: "(chance_data, Tick) repl_policy" where
  "chance_policy =
     \<lparr>rp_invalidate = (\<lambda>now g d. Inr (chance_invalidate g d)),
      rp_touch = (\<lambda>now g d. Inr (chance_touch g d)),
      rp_touch_occ = (\<lambda>now occ g d. Inr (chance_touch g d)),
      rp_use_occupancy = False,
      rp_reset = (\<lambda>now g d. Inr (chance_reset g d)),
      rp_getVictim = chance_getVictim,
      rp_instantiateEntry = (\<lambda>g. Inr (chance_instantiateEntry, g))\<rparr>"

section \<open>The search returns\<close>

lemma chance_search_step:
  "ds \<noteq> [] \<Longrightarrow> chance_search t ds =
     (if hasSecondChance (ds ! oldest ds)
      then chance_search (t + 1) (ds[oldest ds := \<lparr>tickInserted = t + 1, hasSecondChance = False\<rparr>])
      else Inr (oldest ds, ds, t))"
  by (subst chance_search.simps)
    (cases "ds ! oldest ds", simp add: fifo_getVictim_eq useSecondChance_def fifo_reset_def Let_def)

lemma oldest_range: "ds \<noteq> [] \<Longrightarrow> oldest ds < length ds"
  by (rule scan_victim_range)

lemma chance_search_total:
  "ds \<noteq> [] \<Longrightarrow> \<exists>v ds' t'. chance_search t ds = Inr (v, ds', t') \<and> v < length ds \<and> length ds' = length ds"
proof (induction "chances ds" arbitrary: t ds rule: less_induct)
  case less
  let ?d = "\<lparr>tickInserted = t + 1, hasSecondChance = False\<rparr>"
  show ?case
  proof (cases "hasSecondChance (ds ! oldest ds)")
    case True
    then have "chances (ds[oldest ds := ?d]) < chances ds"
      using oldest_range [OF less.prems] by (intro chances_update) simp_all
    then show ?thesis
      using less.hyps [of "ds[oldest ds := ?d]" "t + 1"] less.prems True by (simp add: chance_search_step)
  qed (use less.prems oldest_range in \<open>simp add: chance_search_step\<close>)
qed

lemma chance_getVictim_total:
  assumes "ds \<noteq> []"
  shows "\<exists>v ds' t'. chance_getVictim t ds = Inr (v, ds', t') \<and> v < length ds \<and> length ds' = length ds"
  using assms chance_search_total [OF assms, of t]
  by (auto simp: chance_getVictim_def dest: find_idx_Some split: option.splits)

interpretation chance_rp: replacement_policy chance_policy "\<lambda>_ _. True"
  by unfold_locales
    (use chance_getVictim_total in \<open>fastforce simp: chance_policy_def chance_touch_def chance_reset_def
       chance_invalidate_def Let_def split_def\<close>)+

section \<open>What the search finds\<close>

text \<open>
  The clock has not wrapped: no entry is younger than \<open>timeTicks\<close>, and the search can stamp every
  entry once more.
\<close>

definition chance_clock :: "Tick \<Rightarrow> chance_data list \<Rightarrow> bool" where
  "chance_clock t ds \<longleftrightarrow> (\<forall>d \<in> set ds. tickInserted d \<le> t) \<and> unat t + chances ds < 2 ^ 64"

lemma chance_clock_step:
  assumes c: "chance_clock t ds" and i: "i < length ds" "hasSecondChance (ds ! i)"
  shows "chance_clock (t + 1) (ds[i := \<lparr>tickInserted = t + 1, hasSecondChance = False\<rparr>])"
    and "\<And>d. d \<in> set ds \<Longrightarrow> tickInserted d < t + 1"
proof -
  let ?d = "\<lparr>tickInserted = t + 1, hasSecondChance = False\<rparr>"
  have m: "chances (ds[i := ?d]) < chances ds" using i by (intro chances_update) simp_all
  then have n: "unat t + 1 < 2 ^ 64" using c by (simp add: chance_clock_def)
  then have u: "unat (t + 1) = unat t + 1" using unat_add_small [of t 1] by simp
  then have lt: "t < t + 1" by (simp add: word_less_nat_alt)
  show "tickInserted d < t + 1" if "d \<in> set ds" for d
    using c that lt by (auto simp: chance_clock_def intro: le_less_trans)
  then have "\<forall>d \<in> set (ds[i := ?d]). tickInserted d \<le> t + 1"
    by (auto dest!: set_update_subset_insert [THEN subsetD] intro: less_imp_le)
  then show "chance_clock (t + 1) (ds[i := ?d])" using c m u by (auto simp: chance_clock_def)
qed

lemma oldest_least: "i < length ds \<Longrightarrow> tickInserted (ds ! oldest ds) \<le> tickInserted (ds ! i)"
  by (rule scan_victim_least [where key = tickInserted]) simp_all

lemma chance_search_spec:
  assumes "\<exists>i < length ds. \<not> hasSecondChance (ds ! i)" and "chance_clock t ds"
    and "chance_search t ds = Inr (v, ds', t')"
  shows "v < length ds \<and> \<not> hasSecondChance (ds ! v) \<and>
    (\<forall>j < length ds. \<not> hasSecondChance (ds ! j) \<longrightarrow> tickInserted (ds ! v) \<le> tickInserted (ds ! j))"
  using assms
proof (induction "chances ds" arbitrary: t ds rule: less_induct)
  case less
  have ne: "ds \<noteq> []" using less.prems(1) by auto
  let ?o = "oldest ds" and ?d = "\<lparr>tickInserted = t + 1, hasSecondChance = False\<rparr>"
  note o = oldest_range [OF ne]
  show ?case
  proof (cases "hasSecondChance (ds ! ?o)")
    case True
    let ?ds = "ds[?o := ?d]"
    obtain i where i: "i < length ds" "\<not> hasSecondChance (ds ! i)" using less.prems(1) by blast
    then have io: "i \<noteq> ?o" using True by auto
    note ck = chance_clock_step [OF less.prems(2) o True]
    have "chances ?ds < chances ds" using o True by (intro chances_update) simp_all
    moreover have "\<exists>i < length ?ds. \<not> hasSecondChance (?ds ! i)" using i io by (intro exI [of _ i]) simp
    moreover have "chance_search (t + 1) ?ds = Inr (v, ds', t')"
      using less.prems(3) True by (simp add: chance_search_step [OF ne])
    ultimately have v: "v < length ds" "\<not> hasSecondChance (?ds ! v)"
      "\<And>j. j < length ds \<Longrightarrow> \<not> hasSecondChance (?ds ! j) \<Longrightarrow> tickInserted (?ds ! v) \<le> tickInserted (?ds ! j)"
      using less.hyps [OF _ _ ck(1)] by simp_all
    have "tickInserted (?ds ! v) \<le> tickInserted (ds ! i)" using v(3) [OF i(1)] i io by simp
    also have "\<dots> < t + 1" using ck(2) i(1) by simp
    finally have vo: "v \<noteq> ?o" using o by (auto simp: nth_list_update)
    have "tickInserted (ds ! v) \<le> tickInserted (ds ! j)" if j: "j < length ds" "\<not> hasSecondChance (ds ! j)" for j
      using v(3) [OF j(1)] j True vo by (cases "j = ?o") simp_all
    then show ?thesis using v vo by simp
  next
    case False
    then have "v = ?o" using less.prems(3) by (auto simp: chance_search_step [OF ne])
    then show ?thesis using False o oldest_least by simp
  qed
qed

lemma chance_search_all:
  assumes ne: "ds \<noteq> []" and all: "\<forall>i < length ds. hasSecondChance (ds ! i)" and ck: "chance_clock t ds"
    and r: "chance_search t ds = Inr (v, ds', t')"
  shows "v = oldest ds"
proof -
  note o = oldest_range [OF ne]
  let ?ds = "ds[oldest ds := \<lparr>tickInserted = t + 1, hasSecondChance = False\<rparr>]"
  have h: "hasSecondChance (ds ! oldest ds)" using all o by simp
  have "\<exists>i < length ?ds. \<not> hasSecondChance (?ds ! i)" using o by (intro exI [of _ "oldest ds"]) simp
  moreover have "chance_search (t + 1) ?ds = Inr (v, ds', t')" using r h by (simp add: chance_search_step [OF ne])
  ultimately have "v < length ds \<and> \<not> hasSecondChance (?ds ! v)"
    using chance_search_spec [OF _ chance_clock_step(1) [OF ck o h]] by simp
  then show ?thesis using all by (cases "v = oldest ds") auto
qed

text \<open>
  C28. Second chance: while the insertion clock does not wrap, the victim search returns, and it
  returns the oldest entry among those that were not touched since their insertion; when every
  entry was touched it returns the oldest of all.
\<close>

theorem chance_victim:
  assumes "ds \<noteq> []" and "chance_clock t ds"
  shows "\<exists>v ds' t'. chance_getVictim t ds = Inr (v, ds', t') \<and> v < length ds \<and>
    (if \<exists>i < length ds. \<not> hasSecondChance (ds ! i)
     then \<not> hasSecondChance (ds ! v) \<and>
       (\<forall>j < length ds. \<not> hasSecondChance (ds ! j) \<longrightarrow> tickInserted (ds ! v) \<le> tickInserted (ds ! j))
     else \<forall>j < length ds. tickInserted (ds ! v) \<le> tickInserted (ds ! j))"
proof (cases "find_idx (\<lambda>i. tickInserted (ds ! i) = 0 \<and> \<not> hasSecondChance (ds ! i)) (length ds)")
  case None
  obtain v ds' t' where v: "chance_search t ds = Inr (v, ds', t')" "v < length ds"
    using chance_search_total [OF assms(1)] by blast
  then show ?thesis
    using None chance_search_spec [OF _ assms(2) v(1)] chance_search_all [OF assms(1) _ assms(2) v(1)]
      oldest_least [of _ ds] assms(1)
    by (auto simp: chance_getVictim_def)
next
  case (Some i)
  then have "i < length ds" "tickInserted (ds ! i) = 0" "\<not> hasSecondChance (ds ! i)"
    using find_idx_Some [OF Some] by auto
  then show ?thesis using Some assms(1) by (auto simp: chance_getVictim_def)
qed

theorem chance_victim_witness:
  "\<exists>v ds' t'. chance_getVictim 3 [\<lparr>tickInserted = 1, hasSecondChance = True\<rparr>,
       \<lparr>tickInserted = 3, hasSecondChance = False\<rparr>, \<lparr>tickInserted = 2, hasSecondChance = False\<rparr>] =
     Inr (v, ds', t') \<and> v \<noteq> 0"
proof -
  let ?ds = "[\<lparr>tickInserted = 1, hasSecondChance = True\<rparr>,
       \<lparr>tickInserted = 3, hasSecondChance = False\<rparr>, \<lparr>tickInserted = 2, hasSecondChance = False\<rparr>]"
  have ck: "chance_clock 3 ?ds" by (simp add: chance_clock_def)
  have ex: "\<exists>i < length ?ds. \<not> hasSecondChance (?ds ! i)" by (intro exI [of _ 1]) simp
  from chance_victim [OF _ ck] ex
  obtain v ds' t' where "chance_getVictim 3 ?ds = Inr (v, ds', t')" "\<not> hasSecondChance (?ds ! v)" by auto
  moreover from this(2) have "v \<noteq> 0" by (cases v) simp_all
  ultimately show ?thesis by blast
qed

end
