(* ===== verification/RRIP_Policies.thy ===== *)
theory RRIP_Policies
  imports Stamp_Policies Sat_Counter
begin

text \<open>
  Re-reference interval prediction: \<^verbatim>\<open>BRRIP\<close> and the signature-based hit predictor \<^verbatim>\<open>SHiP\<close> on top of
  it (\<^verbatim>\<open>src/gem5/src/mem/cache/replacement_policies/brrip_rp.cc\<close> and \<^verbatim>\<open>ship_rp.cc\<close>).

  An entry carries an 8-bit saturating counter, its predicted re-reference interval; the victim
  is the first invalid entry or else the first with the largest interval, and all intervals are
  then aged until the victim's is saturated.  \<^verbatim>\<open>SHiP\<close> compares a quotient of two counters with a
  threshold in floating point: the rounding of the division is the parameter \<open>rnd\<close>.
\<close>

section \<open>BRRIP\<close>

record brrip_data =
  rrpv :: SatCounter8
  brrip_valid :: bool

record brrip_params =
  numRRPVBits :: nat
  hitPriority :: bool
  btp :: nat

definition brrip_new :: "nat \<Rightarrow> bool \<Rightarrow> nat \<Rightarrow> brrip_params res" where
  "brrip_new num_bits hit_priority bt =
     bindE (guardE (\<not> num_bits \<le> 0) (Fatal ''There should be at least one bit per RRPV.'')) (\<lambda>_.
     Inr \<lparr>numRRPVBits = num_bits, hitPriority = hit_priority, btp = bt\<rparr>)"

definition brrip_invalidate :: "'z brrip_data_scheme \<Rightarrow> 'z brrip_data_scheme" where
  "brrip_invalidate d = d\<lparr>brrip_valid := False\<rparr>"

definition brrip_touch :: "brrip_params \<Rightarrow> 'z brrip_data_scheme \<Rightarrow> 'z brrip_data_scheme" where
  "brrip_touch p d =
     (if hitPriority p then d\<lparr>rrpv := sc_reset (rrpv d)\<rparr>
      else d\<lparr>rrpv := snd (sc_post_dec (rrpv d))\<rparr>)"

definition brrip_reset ::
  "brrip_params \<Rightarrow> rng \<Rightarrow> 'z brrip_data_scheme \<Rightarrow> ('z brrip_data_scheme \<times> rng) res" where
  "brrip_reset p r d =
     (let d1 = d\<lparr>rrpv := snd (sc_saturate (rrpv d))\<rparr> in
      bindE (random_range 1 100 r) (\<lambda>(n, r').
      let d2 = (if n \<le> btp p then d1\<lparr>rrpv := snd (sc_post_dec (rrpv d1))\<rparr> else d1)
      in Inr (d2\<lparr>brrip_valid := True\<rparr>, r')))"

text \<open>The scan: \<open>Inl i\<close> is the early return at an invalid candidate, \<open>Inr v\<close> the victim so far.\<close>

fun brrip_scan :: "'z brrip_data_scheme list \<Rightarrow> nat \<Rightarrow> nat list \<Rightarrow> nat + nat" where
  "brrip_scan ds v [] = Inr v"
| "brrip_scan ds v (i # is) =
     (if \<not> brrip_valid (ds ! i) then Inl i
      else if sc_value (rrpv (ds ! v)) < sc_value (rrpv (ds ! i)) then brrip_scan ds i is
      else brrip_scan ds v is)"

definition brrip_age :: "'z brrip_data_scheme list \<Rightarrow> nat \<Rightarrow> 'z brrip_data_scheme list res" where
  "brrip_age ds v =
     (let (diff, s) = sc_saturate (rrpv (ds ! v));
          ds1 = ds[v := (ds ! v)\<lparr>rrpv := s\<rparr>]
      in if 0 < diff
         then mapE (\<lambda>d. bindE (sc_add (ucast diff) (rrpv d)) (\<lambda>r. Inr (d\<lparr>rrpv := r\<rparr>))) ds1
         else Inr ds1)"

definition brrip_getVictim ::
  "'z brrip_data_scheme list \<Rightarrow> (nat \<times> 'z brrip_data_scheme list) res" where
  "brrip_getVictim ds =
     bindE (assertE (0 < length ds) ''candidates.size() > 0'') (\<lambda>_.
     case brrip_scan ds 0 [0..<length ds] of
       Inl i \<Rightarrow> Inr (i, ds)
     | Inr v \<Rightarrow> bindE (brrip_age ds v) (\<lambda>ds'. Inr (v, ds')))"

definition brrip_instantiateEntry :: "brrip_params \<Rightarrow> brrip_data res" where
  "brrip_instantiateEntry p =
     bindE (sc_new (numRRPVBits p) 0) (\<lambda>c. Inr \<lparr>rrpv = c, brrip_valid = False\<rparr>)"

definition brrip_policy :: "brrip_params \<Rightarrow> (brrip_data, rng) repl_policy" where
  "brrip_policy p =
     \<lparr>rp_invalidate = (\<lambda>now g d. Inr (brrip_invalidate d, g)),
      rp_touch = (\<lambda>now g d. Inr (brrip_touch p d, g)),
      rp_touch_occ = (\<lambda>now occ g d. Inr (brrip_touch p d, g)),
      rp_use_occupancy = False,
      rp_reset = (\<lambda>now g d. brrip_reset p g d),
      rp_getVictim = (\<lambda>g ds. bindE (brrip_getVictim ds) (\<lambda>(v, ds'). Inr (v, ds', g))),
      rp_instantiateEntry = (\<lambda>g. bindE (brrip_instantiateEntry p) (\<lambda>d. Inr (d, g)))\<rparr>"

subsection \<open>The victim of BRRIP\<close>

abbreviation rrpv_value :: "'z brrip_data_scheme \<Rightarrow> nat" where
  "rrpv_value d \<equiv> sc_value (rrpv d)"

definition brrip_wf :: "8 word \<Rightarrow> 'z brrip_data_scheme \<Rightarrow> bool" where
  "brrip_wf m d \<longleftrightarrow> sc_wf (rrpv d) \<and> maxVal (rrpv d) = m"

lemma brrip_wf_ops:
  assumes "brrip_wf m d"
  shows "brrip_wf m (brrip_invalidate d)" and "brrip_wf m (brrip_touch p d)"
    and "brrip_reset p r d = Inr (d', r') \<Longrightarrow> brrip_wf m d'"
  using assms
  by (auto simp: brrip_wf_def brrip_invalidate_def brrip_touch_def brrip_reset_def Let_def split_def
      sc_post_dec_def sc_reset_wf sc_dec_wf sc_saturate_wf res_iffs split: if_splits)

lemma brrip_scan_range:
  "v < n \<Longrightarrow> \<forall>i \<in> set is. i < n \<Longrightarrow>
     (case brrip_scan ds v is of Inl i \<Rightarrow> i < n | Inr i \<Rightarrow> i < n)"
  by (induction "is" arbitrary: v) (auto split: sum.splits)

lemma brrip_scan_spec:
  assumes "v < m" and "n \<le> m" and "\<forall>j < n. brrip_valid (ds ! j) \<and> rrpv_value (ds ! j) \<le> rrpv_value (ds ! v)"
    and "\<forall>j < v. rrpv_value (ds ! j) < rrpv_value (ds ! v)"
  shows "case brrip_scan ds v [n..<m] of
      Inl i \<Rightarrow> i < m \<and> \<not> brrip_valid (ds ! i) \<and> (\<forall>j < i. brrip_valid (ds ! j))
    | Inr i \<Rightarrow> i < m \<and> (\<forall>j < m. brrip_valid (ds ! j) \<and> rrpv_value (ds ! j) \<le> rrpv_value (ds ! i)) \<and>
        (\<forall>j < i. rrpv_value (ds ! j) < rrpv_value (ds ! i))"
  using assms
proof (induction "m - n" arbitrary: n v)
  case (Suc k)
  then have nm: "n < m" and up: "[n..<m] = n # [Suc n..<m]" by (simp_all add: upt_conv_Cons)
  show ?case
  proof (cases "brrip_valid (ds ! n)")
    case True
    show ?thesis
    proof (cases "rrpv_value (ds ! v) < rrpv_value (ds ! n)")
      case beats: True
      have "\<forall>j < Suc n. brrip_valid (ds ! j) \<and> rrpv_value (ds ! j) \<le> rrpv_value (ds ! n)"
        using Suc.prems(3) True beats by (metis less_Suc_eq less_imp_le order_trans le_refl)
      moreover have "\<forall>j < n. rrpv_value (ds ! j) < rrpv_value (ds ! n)"
        using Suc.prems(3) beats le_less_trans by blast
      ultimately show ?thesis using Suc.hyps(1) [of "Suc n" n] Suc.hyps(2) nm up True beats by simp
    next
      case False
      have "\<forall>j < Suc n. brrip_valid (ds ! j) \<and> rrpv_value (ds ! j) \<le> rrpv_value (ds ! v)"
        using Suc.prems(3) True False by (metis less_Suc_eq leI)
      then show ?thesis using Suc.hyps(1) [of "Suc n" v] Suc.hyps(2) Suc.prems nm up True False by simp
    qed
  qed (use Suc.prems nm up in auto)
qed simp

text \<open>The ageing never negates its operand, so it is a map over the candidates.\<close>

definition brrip_aged :: "'z brrip_data_scheme list \<Rightarrow> nat \<Rightarrow> 'z brrip_data_scheme list" where
  "brrip_aged ds v =
     (let (diff, s) = sc_saturate (rrpv (ds ! v));
          ds1 = ds[v := (ds ! v)\<lparr>rrpv := s\<rparr>]
      in if 0 < diff then map (\<lambda>d. d\<lparr>rrpv := sc_add_nonneg (uint diff) (rrpv d)\<rparr>) ds1 else ds1)"

lemma brrip_age_eq: "brrip_age ds v = Inr (brrip_aged ds v)"
  by (simp add: brrip_age_def brrip_aged_def Let_def split_def sc_add_byte mapE_all_Inr)

lemma brrip_aged_spec:
  assumes wf: "\<forall>d \<in> set ds. brrip_wf m d" and v: "v < length ds"
    and max: "\<forall>j < length ds. rrpv_value (ds ! j) \<le> rrpv_value (ds ! v)" and j: "j < length ds"
  shows "length (brrip_aged ds v) = length ds"
    and "rrpv_value (brrip_aged ds v ! j) = rrpv_value (ds ! j) + (unat m - rrpv_value (ds ! v))"
    and "brrip_valid (brrip_aged ds v ! j) = brrip_valid (ds ! j)"
    and "brrip_wf m (brrip_aged ds v ! j)"
proof -
  define diff where "diff = m - counter (rrpv (ds ! v))"
  define ds1 where "ds1 = ds[v := (ds ! v)\<lparr>rrpv := (rrpv (ds ! v))\<lparr>counter := m\<rparr>\<rparr>]"
  have wv: "brrip_wf m (ds ! v)" using wf v by simp
  then have sat: "sc_saturate (rrpv (ds ! v)) = (diff, (rrpv (ds ! v))\<lparr>counter := m\<rparr>)"
    by (simp add: sc_saturate_def brrip_wf_def diff_def)
  have age: "brrip_aged ds v = (if 0 < diff then map (\<lambda>d. d\<lparr>rrpv := sc_add_nonneg (uint diff) (rrpv d)\<rparr>) ds1 else ds1)"
    by (simp add: brrip_aged_def sat ds1_def)
  have le: "counter (rrpv (ds ! v)) \<le> m" using wv by (auto simp: brrip_wf_def sc_wf_def)
  then have du: "unat diff = unat m - rrpv_value (ds ! v)"
    by (simp add: diff_def sc_value_def unat_sub)
  have wj: "brrip_wf m (ds ! j)" using wf j by simp
  have w1: "brrip_wf m (ds1 ! j)"
  proof (cases "j = v")
    case True
    then show ?thesis using wv j by (auto simp: ds1_def brrip_wf_def sc_wf_def)
  qed (use wj in \<open>simp add: ds1_def\<close>)
  have val1: "rrpv_value (ds1 ! j) = (if j = v then unat m else rrpv_value (ds ! j))"
    using j v by (simp add: ds1_def sc_value_def)
  have vm: "rrpv_value (ds ! v) \<le> unat m" using le by (simp add: sc_value_def word_le_nat_alt)
  have jm: "rrpv_value (ds ! j) \<le> rrpv_value (ds ! v)" using max j by blast
  have l1: "length ds1 = length ds" by (simp add: ds1_def)
  show "length (brrip_aged ds v) = length ds" by (simp add: age l1)
  have add: "rrpv_value (d\<lparr>rrpv := sc_add_nonneg (uint diff) (rrpv d)\<rparr>) = min (unat m) (rrpv_value d + unat diff)"
    if d: "brrip_wf m d" for d :: "'a brrip_data_scheme"
  proof -
    have "uint (counter (sc_add_nonneg (uint diff) (rrpv d))) = min (uint m) (uint (counter (rrpv d)) + uint diff)"
      using sc_add_nonneg_value [of "rrpv d" "uint diff"] d by (simp add: brrip_wf_def)
    then have "int (unat (counter (sc_add_nonneg (uint diff) (rrpv d)))) =
        min (int (unat m)) (int (unat (counter (rrpv d))) + int (unat diff))"
      by (simp only: uint_nat)
    then have "unat (counter (sc_add_nonneg (uint diff) (rrpv d))) = min (unat m) (unat (counter (rrpv d)) + unat diff)"
      by linarith
    then show ?thesis by (simp add: sc_value_def)
  qed
  show "rrpv_value (brrip_aged ds v ! j) = rrpv_value (ds ! j) + (unat m - rrpv_value (ds ! v))"
  proof (cases "0 < diff")
    case True
    then have "rrpv_value (brrip_aged ds v ! j) = min (unat m) (rrpv_value (ds1 ! j) + unat diff)"
      using add [OF w1] j l1 by (simp add: age)
    then show ?thesis using val1 du vm jm by (auto split: if_splits)
  next
    case False
    then have "diff = 0" by (simp add: word_gt_0)
    then have "unat m - rrpv_value (ds ! v) = 0" using du by simp
    then show ?thesis using False val1 vm by (auto simp: age)
  qed
  show "brrip_valid (brrip_aged ds v ! j) = brrip_valid (ds ! j)"
    using j l1 v by (cases "j = v") (simp_all add: age ds1_def)
  show "brrip_wf m (brrip_aged ds v ! j)"
    using w1 j l1 by (simp add: age brrip_wf_def sc_nonneg_wf)
qed

lemma brrip_getVictim_total:
  assumes "ds \<noteq> []"
  shows "\<exists>v ds'. brrip_getVictim ds = Inr (v, ds') \<and> v < length ds \<and> length ds' = length ds"
  using assms brrip_scan_range [of 0 "length ds" "[0..<length ds]" ds]
  by (cases "brrip_scan ds 0 [0..<length ds]")
    (simp_all add: brrip_getVictim_def brrip_age_eq brrip_aged_def split_def Let_def)

interpretation brrip_rp: replacement_policy "brrip_policy p" "\<lambda>_ _. True" for p
proof unfold_locales
  fix g and rd :: "brrip_data list list" and s
  assume "s < length rd" "rd ! s \<noteq> []"
  then show "\<exists>v ds' g'. rp_getVictim (brrip_policy p) g (rd ! s) = Inr (v, ds', g') \<and> v < length (rd ! s) \<and>
      length ds' = length (rd ! s) \<and> True"
    using brrip_getVictim_total [of "rd ! s"] by (auto simp: brrip_policy_def)
next
  fix g now and rd :: "brrip_data list list" and s w
  obtain n r' where "random_range 1 100 g = Inr (n, r')" using random_range_Inr [of 1 100 g] by auto
  then show "\<exists>d' g'. rp_reset (brrip_policy p) now g (rd ! s ! w) = Inr (d', g') \<and> True"
    by (simp add: brrip_policy_def brrip_reset_def Let_def)
qed (simp_all add: brrip_policy_def)

text \<open>
  C29. BRRIP: the victim is the first invalid candidate, and the candidates are then left alone; when
  all are valid it is the first one with the largest predicted interval, and every interval is
  raised by the same amount, the one that makes the victim's the largest representable: the order
  of the candidates is kept and nothing saturates.
\<close>

theorem brrip_victim:
  assumes "ds \<noteq> []" and "\<forall>d \<in> set ds. brrip_wf m d"
  shows "\<exists>v ds'. brrip_getVictim ds = Inr (v, ds') \<and> v < length ds \<and> length ds' = length ds \<and>
    (if \<exists>i < length ds. \<not> brrip_valid (ds ! i)
     then \<not> brrip_valid (ds ! v) \<and> (\<forall>j < v. brrip_valid (ds ! j)) \<and> ds' = ds
     else (\<forall>j < length ds. rrpv_value (ds ! j) \<le> rrpv_value (ds ! v)) \<and>
       (\<forall>j < v. rrpv_value (ds ! j) < rrpv_value (ds ! v)) \<and>
       (\<forall>j < length ds. rrpv_value (ds' ! j) = rrpv_value (ds ! j) + (unat m - rrpv_value (ds ! v)) \<and>
          brrip_valid (ds' ! j)))"
proof -
  have s: "case brrip_scan ds 0 [0..<length ds] of
      Inl i \<Rightarrow> i < length ds \<and> \<not> brrip_valid (ds ! i) \<and> (\<forall>j < i. brrip_valid (ds ! j))
    | Inr i \<Rightarrow> i < length ds \<and>
        (\<forall>j < length ds. brrip_valid (ds ! j) \<and> rrpv_value (ds ! j) \<le> rrpv_value (ds ! i)) \<and>
        (\<forall>j < i. rrpv_value (ds ! j) < rrpv_value (ds ! i))"
    using brrip_scan_spec [of 0 "length ds" 0 ds] assms(1) by simp
  show ?thesis
  proof (cases "brrip_scan ds 0 [0..<length ds]")
    case (Inl i)
    then have "i < length ds" "\<not> brrip_valid (ds ! i)" "\<forall>j < i. brrip_valid (ds ! j)" using s by simp_all
    then show ?thesis
      using Inl assms(1) by (intro exI [of _ i] exI [of _ ds]) (auto simp: brrip_getVictim_def)
  next
    case (Inr i)
    then have i: "i < length ds" "\<forall>j < length ds. brrip_valid (ds ! j) \<and> rrpv_value (ds ! j) \<le> rrpv_value (ds ! i)"
      "\<forall>j < i. rrpv_value (ds ! j) < rrpv_value (ds ! i)" using s by simp_all
    then have "\<forall>j < length ds. rrpv_value (ds ! j) \<le> rrpv_value (ds ! i)" by blast
    note age = brrip_aged_spec [OF assms(2) i(1) this]
    have "brrip_getVictim ds = Inr (i, brrip_aged ds i)"
      using Inr assms(1) by (simp add: brrip_getVictim_def brrip_age_eq)
    then show ?thesis
      using i age(1) [OF i(1)] age(2,3)
      by (intro exI [of _ i] exI [of _ "brrip_aged ds i"]) auto
  qed
qed

definition brrip_sample :: "8 word \<Rightarrow> brrip_data" where
  "brrip_sample n = \<lparr>rrpv = \<lparr>initialVal = 0, maxVal = 3, counter = n\<rparr>, brrip_valid = True\<rparr>"

theorem brrip_victim_witness:
  "\<exists>v ds'. brrip_getVictim [brrip_sample 0, brrip_sample 2] = Inr (v, ds') \<and>
     (\<forall>j < 2. rrpv_value ([brrip_sample 0, brrip_sample 2] ! j) \<le> rrpv_value ([brrip_sample 0, brrip_sample 2] ! v))"
proof -
  let ?ds = "[brrip_sample 0, brrip_sample 2]"
  have wf: "\<forall>d \<in> set ?ds. brrip_wf 3 d" by (simp add: brrip_sample_def brrip_wf_def sc_wf_def)
  have nv: "\<not> (\<exists>i < length ?ds. \<not> brrip_valid (?ds ! i))" by (auto simp: nth_Cons' brrip_sample_def)
  have ne: "?ds \<noteq> []" and l: "length ?ds = 2" by simp_all
  from brrip_victim [OF ne wf] obtain v ds' where "brrip_getVictim ?ds = Inr (v, ds')"
    "\<forall>j < length ?ds. rrpv_value (?ds ! j) \<le> rrpv_value (?ds ! v)"
    unfolding if_not_P [OF nv] by blast
  then show ?thesis unfolding l by blast
qed

section \<open>SHiP\<close>

record ship_data = brrip_data +
  signature :: nat
  outcome :: bool

definition ship_data_new :: "nat \<Rightarrow> ship_data res" where
  "ship_data_new num_bits =
     bindE (sc_new num_bits 0) (\<lambda>c.
     Inr \<lparr>rrpv = c, brrip_valid = False, signature = 0, outcome = False\<rparr>)"

definition setSignature :: "nat \<Rightarrow> ship_data \<Rightarrow> ship_data" where
  "setSignature new_signature d = d\<lparr>signature := new_signature, outcome := False\<rparr>"

definition setReReferenced :: "ship_data \<Rightarrow> ship_data" where
  "setReReferenced d = d\<lparr>outcome := True\<rparr>"

text \<open>
  The state of the policy object: the random numbers it inherits from \<^verbatim>\<open>BRRIP\<close> and the signature
  history counters.  The parameters add the threshold to those of \<^verbatim>\<open>BRRIP\<close>; a packet is its
  address and, when its request has one, its program counter.
\<close>

record ship_state =
  ship_rng :: rng
  SHCT :: "SatCounter8 list"

record ship_params = brrip_params +
  insertionThreshold :: rat

record packet =
  pkt_addr :: Addr
  pkt_pc :: "Addr option"

datatype ship_kind = SHiPMem | SHiPPC

definition ship_new :: "ship_params \<Rightarrow> nat \<Rightarrow> rng \<Rightarrow> ship_state res" where
  "ship_new p shct_size r =
     bindE (guardE (\<not> numRRPVBits p \<le> 0) (Fatal ''There should be at least one bit per RRPV.'')) (\<lambda>_.
     bindE (sc_new (numRRPVBits p) 0) (\<lambda>c.
     Inr \<lparr>ship_rng = r, SHCT = replicate shct_size c\<rparr>))"

definition getSignature :: "ship_kind \<Rightarrow> ship_state \<Rightarrow> packet \<Rightarrow> nat res" where
  "getSignature k g pkt =
     bindE (guardE (length (SHCT g) \<noteq> 0) DivByZero) (\<lambda>_.
     Inr ((case k of
             SHiPMem \<Rightarrow> unat (pkt_addr pkt)
           | SHiPPC \<Rightarrow> (case pkt_pc pkt of Some pc \<Rightarrow> unat pc | None \<Rightarrow> 0)) mod length (SHCT g)))"

definition ship_train :: "(SatCounter8 \<Rightarrow> SatCounter8) \<Rightarrow> nat \<Rightarrow> ship_state \<Rightarrow> ship_state res" where
  "ship_train f sig g =
     bindE (nthE (SHCT g) sig) (\<lambda>c. Inr (g\<lparr>SHCT := (SHCT g)[sig := f c]\<rparr>))"

definition ship_invalidate :: "ship_state \<Rightarrow> ship_data \<Rightarrow> (ship_data \<times> ship_state) res" where
  "ship_invalidate g d =
     bindE (if outcome d then ship_train (\<lambda>c. snd (sc_post_dec c)) (signature d) g else Inr g) (\<lambda>g1.
     Inr (brrip_invalidate d, g1))"

definition ship_touch ::
  "ship_kind \<Rightarrow> ship_params \<Rightarrow> packet \<Rightarrow> ship_state \<Rightarrow> ship_data \<Rightarrow> (ship_data \<times> ship_state) res" where
  "ship_touch k p pkt g d =
     bindE (getSignature k g pkt) (\<lambda>sig.
     bindE (ship_train (\<lambda>c. snd (sc_post_inc c)) sig g) (\<lambda>g1.
     Inr (brrip_touch (brrip_params.truncate p) (setReReferenced d), g1)))"

definition ship_reset ::
  "(rat \<Rightarrow> rat) \<Rightarrow> ship_kind \<Rightarrow> ship_params \<Rightarrow> packet \<Rightarrow> ship_state \<Rightarrow> ship_data \<Rightarrow>
   (ship_data \<times> ship_state) res" where
  "ship_reset rnd k p pkt g d =
     bindE (getSignature k g pkt) (\<lambda>sig.
     let d1 = setSignature sig d in
     bindE (brrip_reset (brrip_params.truncate p) (ship_rng g) d1) (\<lambda>(d2, r').
     bindE (nthE (SHCT g) sig) (\<lambda>c.
     let d3 = (if fp_geq (calcSaturation rnd c) (insertionThreshold p)
               then d2\<lparr>rrpv := snd (sc_post_dec (rrpv d2))\<rparr> else d2)
     in Inr (d3, g\<lparr>ship_rng := r'\<rparr>))))"

definition ship_instantiateEntry :: "ship_params \<Rightarrow> ship_data res" where
  "ship_instantiateEntry p = ship_data_new (numRRPVBits p)"

text \<open>
  The dispatch record for callers that have no packet, as the cache of Ruby: the overloads of
  \<^verbatim>\<open>touch\<close> and \<^verbatim>\<open>reset\<close> without a packet panic.
\<close>

definition ship_policy :: "ship_params \<Rightarrow> (ship_data, ship_state) repl_policy" where
  "ship_policy p =
     \<lparr>rp_invalidate = (\<lambda>now g d. ship_invalidate g d),
      rp_touch = (\<lambda>now g d. Inl (Panic ''Cant train SHiP's predictor without access information.'')),
      rp_touch_occ = (\<lambda>now occ g d. Inl (Panic ''Cant train SHiP's predictor without access information.'')),
      rp_use_occupancy = False,
      rp_reset = (\<lambda>now g d. Inl (Panic ''Cant train SHiP's predictor without access information.'')),
      rp_getVictim = (\<lambda>g ds. bindE (brrip_getVictim ds) (\<lambda>(v, ds'). Inr (v, ds', g))),
      rp_instantiateEntry = (\<lambda>g. bindE (ship_instantiateEntry p) (\<lambda>d. Inr (d, g)))\<rparr>"

subsection \<open>The predictor\<close>

definition ship_ok :: "8 word \<Rightarrow> ship_state \<Rightarrow> ship_data \<Rightarrow> bool" where
  "ship_ok m g d \<longleftrightarrow> SHCT g \<noteq> [] \<and> (\<forall>c \<in> set (SHCT g). sc_wf c \<and> maxVal c = m) \<and>
     brrip_wf m d \<and> signature d < length (SHCT g)"

lemma getSignature_range:
  "SHCT g \<noteq> [] \<Longrightarrow> \<exists>sig. getSignature k g pkt = Inr sig \<and> sig < length (SHCT g)"
  by (simp add: getSignature_def)

lemma ship_train_Inr:
  "sig < length (SHCT g) \<Longrightarrow>
     ship_train f sig g = Inr (g\<lparr>SHCT := (SHCT g)[sig := f (SHCT g ! sig)]\<rparr>)"
  by (simp add: ship_train_def nthE_def)

lemma brrip_reset_Inr:
  "\<exists>d' r'. brrip_reset p r d = Inr (d', r') \<and> brrip_valid d' \<and>
     brrip_data.more d' = brrip_data.more d \<and> (brrip_wf m d \<longrightarrow> brrip_wf m d')"
proof -
  obtain n r' where "random_range 1 100 r = Inr (n, r')" using random_range_Inr [of 1 100 r] by auto
  then obtain d' where d': "brrip_reset p r d = Inr (d', r')" "brrip_valid d'"
      "brrip_data.more d' = brrip_data.more d"
    by (simp add: brrip_reset_def Let_def)
  then show ?thesis using brrip_wf_ops(3) by blast
qed

lemma ship_fields:
  "signature d = ship_data.signature d'" "outcome d = outcome d'"
  if "brrip_data.more d = brrip_data.more (d' :: ship_data)" for d :: ship_data
  using that by (cases d; cases d'; simp)+

lemma ship_table_update:
  assumes "ship_ok m g d" and "i < length (SHCT g)"
    and "\<And>c. sc_wf c \<Longrightarrow> sc_wf (f c)" and "\<And>c. maxVal (f c) = maxVal c"
    and "brrip_wf m d'" and "signature d' < length (SHCT g)"
  shows "ship_ok m (g\<lparr>SHCT := (SHCT g)[i := f (SHCT g ! i)]\<rparr>) d'"
proof -
  have "sc_wf c \<and> maxVal c = m" if c: "c \<in> set ((SHCT g)[i := f (SHCT g ! i)])" for c
  proof -
    have "c = f (SHCT g ! i) \<or> c \<in> set (SHCT g)" using c set_update_subset_insert by fastforce
    then show ?thesis using assms(1,3,4) nth_mem [OF assms(2)] by (auto simp: ship_ok_def)
  qed
  then show ?thesis using assms(1,5,6) by (simp add: ship_ok_def)
qed

lemma ship_touch_ok:
  assumes "ship_ok m g d" and "getSignature k g pkt = Inr sig" and "sig < length (SHCT g)"
  shows "\<exists>d' g'. ship_touch k p pkt g d = Inr (d', g') \<and> ship_ok m g' d' \<and> outcome d' \<and>
       SHCT g' = (SHCT g)[sig := sc_inc (SHCT g ! sig)]"
proof -
  let ?d = "brrip_touch (brrip_params.truncate p) (setReReferenced d)"
  have "brrip_wf m ?d"
    by (rule brrip_wf_ops(2)) (use assms(1) in \<open>simp add: ship_ok_def brrip_wf_def setReReferenced_def\<close>)
  moreover have f: "signature ?d = signature d" "outcome ?d" by (simp_all add: brrip_touch_def setReReferenced_def)
  moreover have "signature d < length (SHCT g)" using assms(1) by (simp add: ship_ok_def)
  ultimately have "ship_ok m (g\<lparr>SHCT := (SHCT g)[sig := sc_inc (SHCT g ! sig)]\<rparr>) ?d"
    using ship_table_update [OF assms(1,3), of sc_inc ?d] by (simp add: sc_inc_wf)
  then show ?thesis using assms(2,3) f by (simp add: ship_touch_def ship_train_Inr sc_post_inc_def)
qed

text \<open>What the insertion predicts: BRRIP's interval, one nearer when the signature's counter is high.\<close>

definition ship_predicts ::
  "(rat \<Rightarrow> rat) \<Rightarrow> ship_params \<Rightarrow> ship_state \<Rightarrow> nat \<Rightarrow> ship_data \<Rightarrow> ship_data \<Rightarrow> bool" where
  "ship_predicts rnd p g sig d d' \<longleftrightarrow>
     (case brrip_reset (brrip_params.truncate p) (ship_rng g) (setSignature sig d) of
        Inl _ \<Rightarrow> False
      | Inr (d2, _) \<Rightarrow> rrpv_value d' =
          (if fp_geq (calcSaturation rnd (SHCT g ! sig)) (insertionThreshold p)
           then rrpv_value d2 - 1 else rrpv_value d2))"

lemma sc_dec_value: "sc_value (sc_dec c) = sc_value c - 1"
  by (auto simp: sc_dec_def sc_value_def unat_minus_one word_gt_0)

lemma ship_reset_ok:
  assumes "ship_ok m g d" and "getSignature k g pkt = Inr sig" and "sig < length (SHCT g)"
  shows "\<exists>d' g'. ship_reset rnd k p pkt g d = Inr (d', g') \<and> ship_ok m g' d' \<and> \<not> outcome d' \<and>
       signature d' = sig \<and> SHCT g' = SHCT g \<and> ship_predicts rnd p g sig d d'"
proof -
  have "brrip_wf m (setSignature sig d)" using assms(1) by (simp add: ship_ok_def brrip_wf_def setSignature_def)
  then obtain d2 r' where d2: "brrip_reset (brrip_params.truncate p) (ship_rng g) (setSignature sig d) = Inr (d2, r')"
    "brrip_data.more d2 = brrip_data.more (setSignature sig d)" "brrip_wf m d2"
    using brrip_reset_Inr [of "brrip_params.truncate p" "ship_rng g" "setSignature sig d" m] by blast
  have f2: "signature d2 = sig" "\<not> outcome d2" using ship_fields [OF d2(2)] by (simp_all add: setSignature_def)
  let ?d3 = "if fp_geq (calcSaturation rnd (SHCT g ! sig)) (insertionThreshold p)
    then d2\<lparr>rrpv := snd (sc_post_dec (rrpv d2))\<rparr> else d2"
  have r: "ship_reset rnd k p pkt g d = Inr (?d3, g\<lparr>ship_rng := r'\<rparr>)"
    using assms(2,3) d2(1) by (simp add: ship_reset_def nthE_def Let_def)
  have "brrip_wf m ?d3" using d2(3) by (simp add: brrip_wf_def sc_post_dec_def sc_dec_wf)
  moreover have "signature ?d3 = sig" "\<not> outcome ?d3" using f2 by simp_all
  moreover have "ship_predicts rnd p g sig d ?d3"
    using d2(1) by (simp add: ship_predicts_def sc_post_dec_def sc_dec_value)
  ultimately show ?thesis using r assms(1,3) by (simp add: ship_ok_def)
qed

lemma ship_invalidate_ok:
  assumes "ship_ok m g d"
  shows "\<exists>d' g'. ship_invalidate g d = Inr (d', g') \<and> ship_ok m g' d' \<and> \<not> brrip_valid d' \<and>
       SHCT g' = (if outcome d then (SHCT g)[signature d := sc_dec (SHCT g ! signature d)] else SHCT g)"
proof -
  have sd: "signature d < length (SHCT g)" using assms by (simp add: ship_ok_def)
  have wd: "brrip_wf m (brrip_invalidate d)" by (rule brrip_wf_ops(1)) (use assms in \<open>simp add: ship_ok_def\<close>)
  have f: "signature (brrip_invalidate d) = signature d" "\<not> brrip_valid (brrip_invalidate d)"
    by (simp_all add: brrip_invalidate_def)
  show ?thesis
  proof (cases "outcome d")
    case True
    then show ?thesis
      using ship_table_update [OF assms sd, of sc_dec "brrip_invalidate d"] sd wd f
      by (simp add: ship_invalidate_def ship_train_Inr sc_post_dec_def sc_dec_wf)
  next
    case False
    then show ?thesis using assms wd f by (simp add: ship_invalidate_def ship_ok_def)
  qed
qed

text \<open>
  C38. The predictor of SHiP: with a history table that is not empty, the operations that carry a
  packet and the invalidation never fault.  A hit increments exactly the counter of the packet's
  signature and marks the entry as re-referenced; an insertion stores the packet's signature,
  clears the mark, leaves the table alone and predicts BRRIP's interval, lowered by one when the
  counter of the signature reaches the insertion threshold; an invalidation decrements the counter
  of the stored signature when the entry was re-referenced and leaves the table alone when it was
  not.  The overloads of touch and reset without a packet, which are the ones Ruby's cache calls,
  always panic.
\<close>

theorem ship_predictor:
  assumes "ship_ok m g d"
  shows "\<exists>sig. getSignature k g pkt = Inr sig \<and> sig < length (SHCT g) \<and>
    (\<exists>d' g'. ship_touch k p pkt g d = Inr (d', g') \<and> ship_ok m g' d' \<and> outcome d' \<and>
       SHCT g' = (SHCT g)[sig := sc_inc (SHCT g ! sig)]) \<and>
    (\<exists>d' g'. ship_reset rnd k p pkt g d = Inr (d', g') \<and> ship_ok m g' d' \<and> \<not> outcome d' \<and>
       signature d' = sig \<and> SHCT g' = SHCT g \<and> ship_predicts rnd p g sig d d') \<and>
    (\<exists>d' g'. rp_invalidate (ship_policy p) now g d = Inr (d', g') \<and> ship_ok m g' d' \<and> \<not> brrip_valid d' \<and>
       SHCT g' = (if outcome d then (SHCT g)[signature d := sc_dec (SHCT g ! signature d)] else SHCT g)) \<and>
    (let panic = Panic ''Cant train SHiP's predictor without access information.''
     in rp_touch (ship_policy p) now g d = Inl panic \<and> rp_reset (ship_policy p) now g d = Inl panic)"
proof -
  obtain sig where sig: "getSignature k g pkt = Inr sig" "sig < length (SHCT g)"
    using getSignature_range [of g k pkt] assms by (auto simp: ship_ok_def)
  have policy: "rp_invalidate (ship_policy p) now g d = ship_invalidate g d"
    "let panic = Panic ''Cant train SHiP's predictor without access information.''
     in rp_touch (ship_policy p) now g d = Inl panic \<and> rp_reset (ship_policy p) now g d = Inl panic"
    by (simp_all add: ship_policy_def)
  show ?thesis
    unfolding policy(1)
    using sig ship_touch_ok [OF assms sig, of p] ship_reset_ok [OF assms sig, of rnd p] ship_invalidate_ok [OF assms]
      policy(2)
    by (intro exI [of _ sig] conjI)
qed

theorem ship_predictor_witness:
  "\<exists>g d d' g'. ship_data_new 2 = Inr d \<and>
     ship_new \<lparr>numRRPVBits = 2, hitPriority = True, btp = 0, insertionThreshold = 1 / 2\<rparr> 4
       \<lparr>gen = (\<lambda>_. 0), pos = 0\<rparr> = Inr g \<and>
     ship_touch SHiPMem \<lparr>numRRPVBits = 2, hitPriority = True, btp = 0, insertionThreshold = 1 / 2\<rparr>
       \<lparr>pkt_addr = 64, pkt_pc = None\<rparr> g d = Inr (d', g') \<and> outcome d'"
proof -
  let ?p = "\<lparr>numRRPVBits = 2, hitPriority = True, btp = 0, insertionThreshold = 1 / 2 :: rat\<rparr>"
  let ?c = "\<lparr>initialVal = 0, maxVal = 3, counter = 0\<rparr> :: SatCounter8"
  have c: "sc_new 2 0 = Inr ?c" by (simp add: sc_new_def Let_def)
  let ?d = "\<lparr>rrpv = ?c, brrip_valid = False, signature = 0, outcome = False\<rparr>"
  let ?g = "\<lparr>ship_rng = \<lparr>gen = (\<lambda>_. 0), pos = 0\<rparr>, SHCT = replicate 4 ?c\<rparr>"
  have d: "ship_data_new 2 = Inr ?d" and g: "ship_new ?p 4 \<lparr>gen = (\<lambda>_. 0), pos = 0\<rparr> = Inr ?g"
    using c by (simp_all add: ship_data_new_def ship_new_def)
  have "ship_ok 3 ?g ?d" by (simp add: ship_ok_def brrip_wf_def sc_wf_def)
  from ship_predictor [OF this, of SHiPMem "\<lparr>pkt_addr = 64, pkt_pc = None\<rparr>" ?p id]
  show ?thesis using d g by blast
qed

end
