(* ===== verification/Dueling_Policy.thy ===== *)
theory Dueling_Policy
  imports Replacement_Base Sat_Counter
begin

text \<open>
  Set dueling: \<^verbatim>\<open>Dueler\<close> and \<^verbatim>\<open>DuelingMonitor\<close> (\<^verbatim>\<open>src/gem5/src/mem/cache/tags/dueling.cc\<close>) and the
  replacement policy \<^verbatim>\<open>Dueling\<close> (\<^verbatim>\<open>src/gem5/src/mem/cache/replacement_policies/dueling_rp.cc\<close>) that
  runs two policies side by side and lets the one with fewer sampled misses choose the victims.

  The policy is a function of the dispatch records of its two sub-policies; the locale
  \<open>dueling_pair\<close> derives its contract from theirs.
\<close>

section \<open>Duelers\<close>

text \<open>The number of set bits, as \<^verbatim>\<open>popCount\<close> of \<^verbatim>\<open>src/gem5/src/base/bitfield.hh\<close> returns it.\<close>

definition popCount :: "64 word \<Rightarrow> nat" where
  "popCount val = length (filter (bit val) [0..<64])"

record dueler =
  isSampleMask :: "64 word"
  teamMask :: "64 word"

definition dueler_new :: dueler where
  "dueler_new = \<lparr>isSampleMask = 0, teamMask = 0\<rparr>"

definition setSample :: "64 word \<Rightarrow> bool \<Rightarrow> 'z dueler_scheme \<Rightarrow> 'z dueler_scheme res" where
  "setSample i team d =
     bindE (guardE (popCount i = 1) (Panic ''The id must have a single bit set.'')) (\<lambda>_.
     bindE (guardE (isSampleMask d AND i = 0) (Panic ''This dueler is already a sample'')) (\<lambda>_.
     let d1 = d\<lparr>isSampleMask := isSampleMask d OR i\<rparr>
     in Inr (if team then d1\<lparr>teamMask := teamMask d1 OR i\<rparr> else d1)))"

text \<open>The result and the value of the reference parameter \<^verbatim>\<open>team\<close>.\<close>

definition dueler_isSample :: "64 word \<Rightarrow> 'z dueler_scheme \<Rightarrow> bool \<times> bool" where
  "dueler_isSample i d = (isSampleMask d AND i \<noteq> 0, teamMask d AND i \<noteq> 0)"

section \<open>The monitor\<close>

record dueling_monitor =
  dm_id :: "64 word"
  constituencySize :: nat
  teamSize :: nat
  lowThreshold :: rat
  highThreshold :: rat
  selector :: "32 sat_counter"
  regionCounter :: nat
  winner :: bool

text \<open>
  The mask is computed as an \<^verbatim>\<open>int\<close>: \<^verbatim>\<open>1 << 31\<close> is negative and extends to 33 set bits, and a
  larger shift is undefined.
\<close>

definition dm_mask :: "nat \<Rightarrow> 64 word res" where
  "dm_mask numInstances =
     bindE (guardE (numInstances < 32) UndefShift) (\<lambda>_.
     Inr (scast (push_bit numInstances 1 :: 32 word)))"

definition dm_new ::
  "(rat \<Rightarrow> rat) \<Rightarrow> nat \<Rightarrow> nat \<Rightarrow> nat \<Rightarrow> nat \<Rightarrow> rat \<Rightarrow> rat \<Rightarrow> (dueling_monitor \<times> nat) res" where
  "dm_new rnd numInstances constituency_size team_size num_bits low_threshold high_threshold =
     bindE (dm_mask numInstances) (\<lambda>i.
     bindE (sc_new num_bits 0) (\<lambda>sel.
     bindE (guardE (\<not> constituency_size < 2 * team_size)
       (Fatal ''There must be at least team size entries per team in a constituency'')) (\<lambda>_.
     bindE (guardE (\<not> 63 < numInstances) (Fatal ''Too many Dueling instances'')) (\<lambda>_.
     bindE (guardE (\<not> (low_threshold \<le> 0 \<or> 1 \<le> high_threshold))
       (Fatal ''The low threshold must be within the range ]0.0, 1.0['')) (\<lambda>_.
     bindE (guardE (\<not> (high_threshold \<le> 0 \<or> 1 \<le> high_threshold))
       (Fatal ''The high threshold must be within the range ]0.0, 1.0['')) (\<lambda>_.
     bindE (guardE (\<not> high_threshold < low_threshold)
       (Fatal ''The low threshold must be below the high threshold'')) (\<lambda>_.
     bindE (sc_shr 1 (snd (sc_saturate sel))) (\<lambda>sel1.
     Inr (\<lparr>dm_id = i, constituencySize = constituency_size, teamSize = team_size,
           lowThreshold = low_threshold, highThreshold = high_threshold, selector = sel1,
           regionCounter = 0, winner = \<not> fp_less (calcSaturation rnd sel1) low_threshold\<rparr>,
          numInstances + 1)))))))))"

definition dm_sample :: "(rat \<Rightarrow> rat) \<Rightarrow> 'z dueler_scheme \<Rightarrow> dueling_monitor \<Rightarrow> dueling_monitor" where
  "dm_sample rnd d m =
     (let (sampled, team) = dueler_isSample (dm_id m) d in
      if sampled then
        if team then
          let m1 = m\<lparr>selector := snd (sc_post_inc (selector m))\<rparr> in
          if fp_geq (calcSaturation rnd (selector m1)) (highThreshold m) then m1\<lparr>winner := True\<rparr> else m1
        else
          let m1 = m\<lparr>selector := snd (sc_post_dec (selector m))\<rparr> in
          if fp_less (calcSaturation rnd (selector m1)) (lowThreshold m) then m1\<lparr>winner := False\<rparr> else m1
      else m)"

definition dm_isSample :: "'z dueler_scheme \<Rightarrow> dueling_monitor \<Rightarrow> bool \<times> bool" where
  "dm_isSample d m = dueler_isSample (dm_id m) d"

definition dm_initEntry ::
  "'z dueler_scheme \<Rightarrow> dueling_monitor \<Rightarrow> ('z dueler_scheme \<times> dueling_monitor) res" where
  "dm_initEntry d m =
     bindE (if regionCounter m < teamSize m then setSample (dm_id m) False d
            else if constituencySize m - teamSize m \<le> regionCounter m then setSample (dm_id m) True d
            else Inr d) (\<lambda>d1.
     let r = regionCounter m + 1
     in Inr (d1, m\<lparr>regionCounter := (if constituencySize m \<le> r then 0 else r)\<rparr>))"

section \<open>The policy\<close>

record ('a, 'b) dueling_data = dueler +
  replDataA :: 'a
  replDataB :: 'b

record ('g, 'h) dueling_state =
  duelingMonitor :: dueling_monitor
  stateA :: 'g
  stateB :: 'h
  selectedA :: nat
  selectedB :: nat

text \<open>An operation that both sub-policies perform on their own data, A first.\<close>

definition duel_both ::
  "('g \<Rightarrow> 'a \<Rightarrow> ('a \<times> 'g) res) \<Rightarrow> ('h \<Rightarrow> 'b \<Rightarrow> ('b \<times> 'h) res) \<Rightarrow>
   ('g, 'h) dueling_state \<Rightarrow> ('a, 'b) dueling_data \<Rightarrow>
   (('a, 'b) dueling_data \<times> ('g, 'h) dueling_state) res" where
  "duel_both opA opB g d =
     bindE (opA (stateA g) (replDataA d)) (\<lambda>(a, ga).
     bindE (opB (stateB g) (replDataB d)) (\<lambda>(b, gb).
     Inr (d\<lparr>replDataA := a, replDataB := b\<rparr>, g\<lparr>stateA := ga, stateB := gb\<rparr>)))"

definition duel_invalidate ::
  "('a, 'g) repl_policy \<Rightarrow> ('b, 'h) repl_policy \<Rightarrow> Tick \<Rightarrow> ('g, 'h) dueling_state \<Rightarrow>
   ('a, 'b) dueling_data \<Rightarrow> (('a, 'b) dueling_data \<times> ('g, 'h) dueling_state) res" where
  "duel_invalidate A B now = duel_both (rp_invalidate A now) (rp_invalidate B now)"

definition duel_touch ::
  "('a, 'g) repl_policy \<Rightarrow> ('b, 'h) repl_policy \<Rightarrow> Tick \<Rightarrow> ('g, 'h) dueling_state \<Rightarrow>
   ('a, 'b) dueling_data \<Rightarrow> (('a, 'b) dueling_data \<times> ('g, 'h) dueling_state) res" where
  "duel_touch A B now = duel_both (rp_touch A now) (rp_touch B now)"

definition duel_reset ::
  "(rat \<Rightarrow> rat) \<Rightarrow> ('a, 'g) repl_policy \<Rightarrow> ('b, 'h) repl_policy \<Rightarrow> Tick \<Rightarrow>
   ('g, 'h) dueling_state \<Rightarrow> ('a, 'b) dueling_data \<Rightarrow>
   (('a, 'b) dueling_data \<times> ('g, 'h) dueling_state) res" where
  "duel_reset rnd A B now g d =
     bindE (duel_both (rp_reset A now) (rp_reset B now) g d) (\<lambda>(d1, g1).
     Inr (d1, g1\<lparr>duelingMonitor := dm_sample rnd d1 (duelingMonitor g1)\<rparr>))"

text \<open>
  The choice of the sub-policy: a sampled set uses the policy of its team (A is team "false"), any
  other set the winner.  The monitor's winner is the team with the most misses, hence the
  negation.
\<close>

definition duel_team_a :: "('g, 'h) dueling_state \<Rightarrow> ('a, 'b) dueling_data \<Rightarrow> bool" where
  "duel_team_a g d =
     (let w = \<not> winner (duelingMonitor g);
          (is_sample, team) = dm_isSample d (duelingMonitor g)
      in (is_sample \<and> \<not> team) \<or> (\<not> is_sample \<and> \<not> w))"

definition duel_same_team ::
  "('g, 'h) dueling_state \<Rightarrow> ('a, 'b) dueling_data \<Rightarrow> ('a, 'b) dueling_data \<Rightarrow> bool" where
  "duel_same_team g d0 d \<longleftrightarrow>
     \<not> (fst (dm_isSample d (duelingMonitor g)) \<and>
        snd (dm_isSample d0 (duelingMonitor g)) \<noteq> snd (dm_isSample d (duelingMonitor g)))"

definition duel_getVictim ::
  "('a, 'g) repl_policy \<Rightarrow> ('b, 'h) repl_policy \<Rightarrow> nat \<Rightarrow> ('g, 'h) dueling_state \<Rightarrow>
   ('a, 'b) dueling_data list \<Rightarrow>
   (nat \<times> ('a, 'b) dueling_data list \<times> ('g, 'h) dueling_state) res" where
  "duel_getVictim A B team_size g ds =
     bindE (guardE (length ds = team_size)
       (Panic ''We currently only support team sizes that match the number of replacement candidates'')) (\<lambda>_.
     bindE (nthE ds 0) (\<lambda>d0.
     let team_a = duel_team_a g d0;
         g1 = (if team_a then g\<lparr>selectedA := selectedA g + 1\<rparr> else g\<lparr>selectedB := selectedB g + 1\<rparr>)
     in
     bindE (guardE (list_all (duel_same_team g d0) ds)
       (Panic ''Not all sampled candidates belong to the same team'')) (\<lambda>_.
     if team_a then
       bindE (rp_getVictim A (stateA g1) (map replDataA ds)) (\<lambda>(v, as, ga).
       Inr (v, map2 (\<lambda>d a. d\<lparr>replDataA := a\<rparr>) ds as, g1\<lparr>stateA := ga\<rparr>))
     else
       bindE (rp_getVictim B (stateB g1) (map replDataB ds)) (\<lambda>(v, bs, gb).
       Inr (v, map2 (\<lambda>d b. d\<lparr>replDataB := b\<rparr>) ds bs, g1\<lparr>stateB := gb\<rparr>)))))"

definition duel_instantiateEntry ::
  "('a, 'g) repl_policy \<Rightarrow> ('b, 'h) repl_policy \<Rightarrow> ('g, 'h) dueling_state \<Rightarrow>
   (('a, 'b) dueling_data \<times> ('g, 'h) dueling_state) res" where
  "duel_instantiateEntry A B g =
     bindE (rp_instantiateEntry A (stateA g)) (\<lambda>(a, ga).
     bindE (rp_instantiateEntry B (stateB g)) (\<lambda>(b, gb).
     bindE (dm_initEntry \<lparr>isSampleMask = 0, teamMask = 0, replDataA = a, replDataB = b\<rparr> (duelingMonitor g))
       (\<lambda>(d, m). Inr (d, g\<lparr>duelingMonitor := m, stateA := ga, stateB := gb\<rparr>))))"

definition dueling_policy ::
  "(rat \<Rightarrow> rat) \<Rightarrow> ('a, 'g) repl_policy \<Rightarrow> ('b, 'h) repl_policy \<Rightarrow> nat \<Rightarrow>
   (('a, 'b) dueling_data, ('g, 'h) dueling_state) repl_policy" where
  "dueling_policy rnd A B team_size =
     \<lparr>rp_invalidate = duel_invalidate A B,
      rp_touch = duel_touch A B,
      rp_touch_occ = (\<lambda>now occ. duel_touch A B now),
      rp_use_occupancy = False,
      rp_reset = duel_reset rnd A B,
      rp_getVictim = duel_getVictim A B team_size,
      rp_instantiateEntry = duel_instantiateEntry A B\<rparr>"

section \<open>The contract\<close>

definition duel_ok ::
  "('g \<Rightarrow> 'a list list \<Rightarrow> bool) \<Rightarrow> ('h \<Rightarrow> 'b list list \<Rightarrow> bool) \<Rightarrow> nat \<Rightarrow>
   ('g, 'h) dueling_state \<Rightarrow> ('a, 'b) dueling_data list list \<Rightarrow> bool" where
  "duel_ok okA okB team_size g rd \<longleftrightarrow>
     0 < team_size \<and>
     okA (stateA g) (map (map replDataA) rd) \<and> okB (stateB g) (map (map replDataB) rd) \<and>
     (\<forall>ds \<in> set rd. length ds = team_size \<and> list_all (duel_same_team g (ds ! 0)) ds)"

text \<open>Two entries with the same masks; the team of an entry depends on nothing else.\<close>

definition same_masks :: "('a, 'b) dueling_data \<Rightarrow> ('a, 'b) dueling_data \<Rightarrow> bool" where
  "same_masks d d' \<longleftrightarrow> isSampleMask d' = isSampleMask d \<and> teamMask d' = teamMask d"

lemma same_team_cong:
  assumes "dm_id (duelingMonitor g') = dm_id (duelingMonitor g)" and "same_masks d0 d0'" and "same_masks d d'"
  shows "duel_same_team g' d0' d' = duel_same_team g d0 d"
  using assms by (simp add: duel_same_team_def dm_isSample_def dueler_isSample_def same_masks_def)

lemma dm_sample_id [simp]: "dm_id (dm_sample rnd d m) = dm_id m"
  by (simp add: dm_sample_def Let_def split_def)

lemma map_map_upd2: "map (map f) (upd2 rd s w d) = upd2 (map (map f) rd) s w (f d)"
  if "s < length rd" for rd
  using that by (simp add: upd2_def map_update)

lemma row_teams_update:
  assumes row: "\<forall>ds \<in> set rd. length ds = n \<and> list_all (duel_same_team g (ds ! 0)) ds"
    and m: "dm_id (duelingMonitor g') = dm_id (duelingMonitor g)"
    and s: "s < length rd" and ds': "length ds' = length (rd ! s)"
    and sm: "\<And>i. i < length (rd ! s) \<Longrightarrow> same_masks (rd ! s ! i) (ds' ! i)"
  shows "\<forall>ds \<in> set (rd[s := ds']). length ds = n \<and> list_all (duel_same_team g' (ds ! 0)) ds"
proof -
  have keep: "duel_same_team g' d0 d = duel_same_team g d0 d" for d0 d
    by (rule same_team_cong [OF m]) (simp_all add: same_masks_def)
  have row_s: "length (rd ! s) = n" "\<And>i. i < n \<Longrightarrow> duel_same_team g (rd ! s ! 0) (rd ! s ! i)"
    using row s by (auto simp: list_all_length)
  have "duel_same_team g' (ds' ! 0) (ds' ! i)" if i: "i < n" for i
    using same_team_cong [OF m sm [of 0] sm [of i]] row_s i by simp
  then have new: "length ds' = n \<and> list_all (duel_same_team g' (ds' ! 0)) ds'"
    using ds' row_s(1) by (simp add: list_all_length)
  have "ds = ds' \<or> ds \<in> set rd" if "ds \<in> set (rd[s := ds'])" for ds
    using that set_update_subset_insert by fastforce
  then show ?thesis using new row by (auto simp: keep [abs_def])
qed

text \<open>The law that the contract states for each operation on one entry.\<close>

definition op_keeps :: "('g \<Rightarrow> 'd list list \<Rightarrow> bool) \<Rightarrow> ('g \<Rightarrow> 'd \<Rightarrow> ('d \<times> 'g) res) \<Rightarrow> bool" where
  "op_keeps ok f \<longleftrightarrow> (\<forall>g rd s w. ok g rd \<longrightarrow> s < length rd \<longrightarrow> w < length (rd ! s) \<longrightarrow>
     (\<exists>d' g'. f g (rd ! s ! w) = Inr (d', g') \<and> ok g' (upd2 rd s w d')))"

lemma op_keepsD:
  "op_keeps ok f \<Longrightarrow> ok g rd \<Longrightarrow> s < length rd \<Longrightarrow> w < length (rd ! s) \<Longrightarrow>
     \<exists>d' g'. f g (rd ! s ! w) = Inr (d', g') \<and> ok g' (upd2 rd s w d')"
  by (simp add: op_keeps_def)

locale dueling_pair =
  A: replacement_policy A okA + B: replacement_policy B okB
  for A :: "('a, 'g) repl_policy" and okA and B :: "('b, 'h) repl_policy" and okB +
  fixes rnd :: "rat \<Rightarrow> rat" and team_size :: nat
begin

lemma duel_both_ok:
  assumes ok: "duel_ok okA okB team_size g rd" and s: "s < length rd" and w: "w < length (rd ! s)"
    and a: "op_keeps okA opA" and b: "op_keeps okB opB"
  shows "\<exists>d' g'. duel_both opA opB g (rd ! s ! w) = Inr (d', g') \<and>
    same_masks (rd ! s ! w) d' \<and> duelingMonitor g' = duelingMonitor g \<and>
    (\<forall>m. dm_id m = dm_id (duelingMonitor g) \<longrightarrow>
       duel_ok okA okB team_size (g'\<lparr>duelingMonitor := m\<rparr>) (upd2 rd s w d'))"
proof -
  let ?d = "rd ! s ! w"
  obtain xa ga where xa: "opA (stateA g) (replDataA ?d) = Inr (xa, ga)"
    "okA ga (upd2 (map (map replDataA) rd) s w xa)"
    using op_keepsD [OF a, of "stateA g" "map (map replDataA) rd" s w] ok s w by (auto simp: duel_ok_def)
  obtain xb gb where xb: "opB (stateB g) (replDataB ?d) = Inr (xb, gb)"
    "okB gb (upd2 (map (map replDataB) rd) s w xb)"
    using op_keepsD [OF b, of "stateB g" "map (map replDataB) rd" s w] ok s w by (auto simp: duel_ok_def)
  let ?d' = "?d\<lparr>replDataA := xa, replDataB := xb\<rparr>" and ?g' = "g\<lparr>stateA := ga, stateB := gb\<rparr>"
  have sm: "same_masks ?d ?d'" by (simp add: same_masks_def)
  have "duel_ok okA okB team_size (?g'\<lparr>duelingMonitor := m\<rparr>) (upd2 rd s w ?d')"
    if m: "dm_id m = dm_id (duelingMonitor g)" for m
  proof -
    have smi: "same_masks (rd ! s ! i) ((rd ! s)[w := ?d'] ! i)" if i: "i < length (rd ! s)" for i
      using sm i by (cases "i = w") (simp_all add: same_masks_def)
    have "\<forall>ds \<in> set (rd[s := (rd ! s)[w := ?d']]). length ds = team_size \<and>
        list_all (duel_same_team (?g'\<lparr>duelingMonitor := m\<rparr>) (ds ! 0)) ds"
      by (rule row_teams_update [of rd team_size g, OF _ _ s _ smi]) (use ok m in \<open>simp_all add: duel_ok_def\<close>)
    then show ?thesis
      using ok xa(2) xb(2) s by (simp add: duel_ok_def map_map_upd2) (simp add: upd2_def)
  qed
  then show ?thesis using xa(1) xb(1) sm by (simp add: duel_both_def)
qed

lemma duel_op_ok:
  assumes ok: "duel_ok okA okB team_size g rd" and s: "s < length rd" and w: "w < length (rd ! s)"
    and a: "op_keeps okA opA" and b: "op_keeps okB opB"
  shows "\<exists>d' g'. duel_both opA opB g (rd ! s ! w) = Inr (d', g') \<and> duel_ok okA okB team_size g' (upd2 rd s w d')"
proof -
  obtain d' g' where r: "duel_both opA opB g (rd ! s ! w) = Inr (d', g')" "duelingMonitor g' = duelingMonitor g"
    "\<And>m. dm_id m = dm_id (duelingMonitor g) \<Longrightarrow> duel_ok okA okB team_size (g'\<lparr>duelingMonitor := m\<rparr>) (upd2 rd s w d')"
    using duel_both_ok [OF ok s w a b] by blast
  have "g'\<lparr>duelingMonitor := duelingMonitor g\<rparr> = g'" using r(2) by simp
  then show ?thesis using r(1) r(3) [OF refl] by auto
qed

lemma duel_reset_ok:
  assumes "duel_ok okA okB team_size g rd" and "s < length rd" and "w < length (rd ! s)"
  shows "\<exists>d' g'. duel_reset rnd A B now g (rd ! s ! w) = Inr (d', g') \<and> duel_ok okA okB team_size g' (upd2 rd s w d')"
proof -
  obtain d' g' where r: "duel_both (rp_reset A now) (rp_reset B now) g (rd ! s ! w) = Inr (d', g')"
    "duelingMonitor g' = duelingMonitor g"
    "\<And>m. dm_id m = dm_id (duelingMonitor g) \<Longrightarrow> duel_ok okA okB team_size (g'\<lparr>duelingMonitor := m\<rparr>) (upd2 rd s w d')"
    using duel_both_ok [OF assms, of "rp_reset A now" "rp_reset B now"] A.reset_ok B.reset_ok
    unfolding op_keeps_def by blast
  show ?thesis using r(1) r(3) [of "dm_sample rnd d' (duelingMonitor g')"] r(2) by (simp add: duel_reset_def)
qed

lemma duel_victim_row:
  assumes ok: "duel_ok okA okB team_size g rd" and s: "s < length rd"
    and ds': "length ds' = length (rd ! s)"
    and m: "duelingMonitor g' = duelingMonitor g"
    and sm: "\<And>i. i < length (rd ! s) \<Longrightarrow> same_masks (rd ! s ! i) (ds' ! i)"
    and a: "okA (stateA g') ((map (map replDataA) rd)[s := map replDataA ds'])"
    and b: "okB (stateB g') ((map (map replDataB) rd)[s := map replDataB ds'])"
  shows "duel_ok okA okB team_size g' (rd[s := ds'])"
proof -
  have "\<forall>ds \<in> set (rd[s := ds']). length ds = team_size \<and> list_all (duel_same_team g' (ds ! 0)) ds"
    by (rule row_teams_update [of rd team_size g, OF _ _ s ds' sm]) (use ok m in \<open>simp_all add: duel_ok_def\<close>)
  then show ?thesis using ok a b by (simp add: duel_ok_def map_update)
qed

lemma duel_getVictim_ok:
  assumes ok: "duel_ok okA okB team_size g rd" and s: "s < length rd"
  shows "\<exists>v ds' g'. duel_getVictim A B team_size g (rd ! s) = Inr (v, ds', g') \<and> v < length (rd ! s) \<and>
    length ds' = length (rd ! s) \<and> duel_ok okA okB team_size g' (rd[s := ds'])"
proof -
  let ?ds = "rd ! s" and ?d0 = "rd ! s ! 0"
  have row: "length ?ds = team_size" "list_all (duel_same_team g ?d0) ?ds" and ts: "0 < team_size"
    using ok s by (simp_all add: duel_ok_def)
  have n0: "nthE ?ds 0 = Inr ?d0" and ne: "?ds \<noteq> []" using row(1) ts by (auto simp: nthE_def)
  have okA: "okA (stateA g) (map (map replDataA) rd)" and okB: "okB (stateB g) (map (map replDataB) rd)"
    using ok by (simp_all add: duel_ok_def)
  show ?thesis
  proof (cases "duel_team_a g ?d0")
    case True
    let ?g1 = "g\<lparr>selectedA := selectedA g + 1\<rparr>"
    obtain v as ga where v: "rp_getVictim A (stateA g) (map replDataA ?ds) = Inr (v, as, ga)" "v < length ?ds"
      "length as = length ?ds" "okA ga ((map (map replDataA) rd)[s := as])"
      using A.getVictim_ok [OF okA, of s] s ne by auto
    let ?ds' = "map2 (\<lambda>d a. d\<lparr>replDataA := a\<rparr>) ?ds as"
    have p: "map replDataA ?ds' = as" "map replDataB ?ds' = map replDataB ?ds" "length ?ds' = length ?ds"
      using v(3) by (auto simp: list_eq_iff_nth_eq)
    have "duel_ok okA okB team_size (?g1\<lparr>stateA := ga\<rparr>) (rd[s := ?ds'])"
    proof (rule duel_victim_row [OF ok s p(3)])
      show "okB (stateB (?g1\<lparr>stateA := ga\<rparr>)) ((map (map replDataB) rd)[s := map replDataB ?ds'])"
        using okB s unfolding p(2) by (simp add: list_update_id nth_map [symmetric] del: nth_map)
    qed (use v p(1) in \<open>simp_all add: same_masks_def\<close>)
    then show ?thesis
      using True row n0 v p(3) by (simp add: duel_getVictim_def Let_def)
  next
    case False
    let ?g1 = "g\<lparr>selectedB := selectedB g + 1\<rparr>"
    obtain v bs gb where v: "rp_getVictim B (stateB g) (map replDataB ?ds) = Inr (v, bs, gb)" "v < length ?ds"
      "length bs = length ?ds" "okB gb ((map (map replDataB) rd)[s := bs])"
      using B.getVictim_ok [OF okB, of s] s ne by auto
    let ?ds' = "map2 (\<lambda>d b. d\<lparr>replDataB := b\<rparr>) ?ds bs"
    have p: "map replDataB ?ds' = bs" "map replDataA ?ds' = map replDataA ?ds" "length ?ds' = length ?ds"
      using v(3) by (auto simp: list_eq_iff_nth_eq)
    have "duel_ok okA okB team_size (?g1\<lparr>stateB := gb\<rparr>) (rd[s := ?ds'])"
    proof (rule duel_victim_row [OF ok s p(3)])
      show "okA (stateA (?g1\<lparr>stateB := gb\<rparr>)) ((map (map replDataA) rd)[s := map replDataA ?ds'])"
        using okA s unfolding p(2) by (simp add: list_update_id nth_map [symmetric] del: nth_map)
    qed (use v p(1) in \<open>simp_all add: same_masks_def\<close>)
    then show ?thesis
      using False row n0 v p(3) by (simp add: duel_getVictim_def Let_def)
  qed
qed

lemma duel_contract: "replacement_policy (dueling_policy rnd A B team_size) (duel_ok okA okB team_size)"
proof -
  have t: "op_keeps okA (rp_touch A now)" "op_keeps okB (rp_touch B now)"
    "op_keeps okA (rp_invalidate A now)" "op_keeps okB (rp_invalidate B now)" for now
    using A.touch_ok B.touch_ok A.invalidate_ok B.invalidate_ok by (simp_all add: op_keeps_def)
  show ?thesis
    by unfold_locales
      (simp_all add: dueling_policy_def duel_touch_def duel_invalidate_def duel_op_ok t duel_reset_ok duel_getVictim_ok)
qed

end

sublocale dueling_pair \<subseteq> duel: replacement_policy "dueling_policy rnd A B team_size" "duel_ok okA okB team_size"
  by (rule duel_contract)

section \<open>Who wins the duel\<close>

text \<open>With one threshold (the default), the winner is read off the selector.\<close>

definition dm_wf :: "(rat \<Rightarrow> rat) \<Rightarrow> dueling_monitor \<Rightarrow> bool" where
  "dm_wf rnd m \<longleftrightarrow> sc_wf (selector m) \<and> lowThreshold m = highThreshold m \<and>
     (winner m \<longleftrightarrow> \<not> fp_less (calcSaturation rnd (selector m)) (highThreshold m))"

lemma calcSaturation_mono:
  assumes "mono rnd" and "maxVal c = maxVal c'" and "sc_value c \<le> sc_value c'"
    and "fp_less (calcSaturation rnd c') t"
  shows "fp_less (calcSaturation rnd c) t"
proof -
  let ?q = "\<lambda>c. of_nat (sc_value c) / of_nat (unat (maxVal c)) :: rat"
  have "?q c \<le> ?q c'"
    unfolding assms(2) by (rule divide_right_mono [OF _ of_nat_0_le_iff]) (use assms(3) in simp)
  then have "rnd (?q c) \<le> rnd (?q c')" by (rule monoD [OF assms(1)])
  moreover have "maxVal c' \<noteq> 0" "rnd (?q c') < t"
    using assms(4) unfolding calcSaturation_def by (auto simp del: of_nat_unat split: if_splits)
  ultimately show ?thesis
    using assms(2) unfolding calcSaturation_def by (simp only: if_False fp_less.simps)
qed

lemma fp_geq_not_less: "fp_geq x t \<longleftrightarrow> x \<noteq> None \<and> \<not> fp_less x t"
  by (cases x) auto

lemma calcSaturation_None: "calcSaturation rnd c = None \<longleftrightarrow> maxVal c = 0"
  by (simp add: calcSaturation_def)

lemma dm_sample_wf:
  assumes rnd: "mono rnd" and wf: "dm_wf rnd m"
  shows "dm_wf rnd (dm_sample rnd d m)"
proof -
  let ?s = "selector m"
  have w: "sc_wf ?s" using wf by (simp add: dm_wf_def)
  have "sc_value ?s \<le> sc_value (sc_inc ?s)" using sc_inc_value [OF w] sc_value_le_max [OF w] by simp
  then have up: "fp_less (calcSaturation rnd (sc_inc ?s)) t \<Longrightarrow> fp_less (calcSaturation rnd ?s) t" for t
    by (rule calcSaturation_mono [OF rnd, rotated 1]) simp_all
  have "sc_value (sc_dec ?s) \<le> sc_value ?s"
    by (simp add: sc_dec_def sc_value_def word_gt_0 unat_minus_one)
  then have down: "fp_less (calcSaturation rnd ?s) t \<Longrightarrow> fp_less (calcSaturation rnd (sc_dec ?s)) t" for t
    by (rule calcSaturation_mono [OF rnd, rotated 1]) simp_all
  let ?low = "\<lambda>c. fp_less (calcSaturation rnd c) (highThreshold m)"
  have nan: "\<not> ?low c" if "maxVal c = 0" for c :: "32 sat_counter"
    using that by (simp add: calcSaturation_def)
  have win: "winner m \<longleftrightarrow> \<not> ?low ?s" and thr: "lowThreshold m = highThreshold m"
    using wf by (simp_all add: dm_wf_def)
  have inc: "fp_geq (calcSaturation rnd (sc_inc ?s)) (highThreshold m) \<or> winner m \<longleftrightarrow> \<not> ?low (sc_inc ?s)"
    using win up [of "highThreshold m"] nan [of ?s] by (auto simp only: fp_geq_not_less calcSaturation_None sc_inc_maxVal)
  have dec: "winner m \<and> \<not> ?low (sc_dec ?s) \<longleftrightarrow> \<not> ?low (sc_dec ?s)"
    using win down [of "highThreshold m"] by blast
  obtain sampled team where t: "dueler_isSample (dm_id m) d = (sampled, team)" by fastforce
  show ?thesis
  proof (cases sampled)
    case True
    show ?thesis
    proof (cases team)
      case up: True
      show ?thesis
        using True up inc thr sc_inc_wf [OF w]
        by (simp add: dm_wf_def dm_sample_def t Let_def sc_post_inc_def) blast
    next
      case down: False
      show ?thesis
        using True down dec thr sc_dec_wf [OF w]
        by (simp add: dm_wf_def dm_sample_def t Let_def sc_post_dec_def) blast
    qed
  qed (use wf in \<open>simp add: dm_sample_def t\<close>)
qed

lemma dm_samples_wf:
  assumes "mono rnd"
  shows "dm_wf rnd m \<Longrightarrow> dm_wf rnd (fold (dm_sample rnd) ds m) \<and>
    highThreshold (fold (dm_sample rnd) ds m) = highThreshold m"
proof (induction ds arbitrary: m)
  case (Cons x xs)
  have "highThreshold (dm_sample rnd x m) = highThreshold m" by (simp add: dm_sample_def Let_def split_def)
  then show ?case using Cons dm_sample_wf [OF assms Cons.prems, of x] by simp
qed simp

text \<open>
  C31. The duel: with one threshold and a monotone rounding, after any sequence of sampled insertions
  the set that is not a sample is served by policy A exactly when the selector is at or above the
  threshold, read as not below it: a selector without bits has no saturation, which is never below,
  and policy A then always wins.  The selector is the saturating count of misses of B's samples (up)
  and of A's (down).
\<close>

theorem duel_follows_selector:
  fixes g :: "('g, 'h) dueling_state" and d :: "('a, 'b) dueling_data"
  assumes "mono rnd" and "dm_new rnd inst consz ts bits t t = Inr (m0, inst')"
    and "duelingMonitor g = fold (dm_sample rnd) (ds :: ('a, 'b) dueling_data list) m0"
    and "\<not> fst (dm_isSample d (duelingMonitor g))"
  shows "duel_team_a g d \<longleftrightarrow> \<not> fp_less (calcSaturation rnd (selector (duelingMonitor g))) t"
proof -
  have "dm_wf rnd m0" and t: "highThreshold m0 = t"
    using assms(2)
    by (auto simp: dm_new_def dm_wf_def res_iffs not_less intro: sc_shr_wf [OF sc_saturate_wf [OF sc_new_wf]])
  then have "dm_wf rnd (fold (dm_sample rnd) ds m0)" and "highThreshold (fold (dm_sample rnd) ds m0) = t"
    using dm_samples_wf [OF assms(1), of m0 ds] by simp_all
  then show ?thesis using assms(3,4) by (simp add: duel_team_a_def dm_wf_def Let_def split_def)
qed

theorem duel_follows_selector_witness:
  "\<exists>m0 inst'. dm_new id 0 4 1 10 (1 / 2) (1 / 2) = Inr (m0, inst') \<and>
     (duel_team_a \<lparr>duelingMonitor = m0, stateA = (), stateB = (), selectedA = 0, selectedB = 0\<rparr>
        \<lparr>isSampleMask = 0, teamMask = 0, replDataA = (), replDataB = ()\<rparr> \<longleftrightarrow>
      \<not> fp_less (calcSaturation id (selector m0)) (1 / 2))"
proof -
  have "sc_new 10 0 = Inr (\<lparr>initialVal = 0, maxVal = 1023, counter = 0\<rparr> :: 32 sat_counter)"
    by (simp add: sc_new_def Let_def)
  then obtain m0 inst' where m0: "dm_new id 0 4 1 10 (1 / 2) (1 / 2) = Inr (m0, inst')"
    by (simp add: dm_new_def dm_mask_def sc_shr_def)
  let ?g = "\<lparr>duelingMonitor = m0, stateA = (), stateB = (), selectedA = 0, selectedB = 0\<rparr>"
  have "duelingMonitor ?g = fold (dm_sample id) ([] :: (unit, unit) dueling_data list) m0" by simp
  from duel_follows_selector [OF _ m0 this] show ?thesis
    using m0 by (auto simp: dm_isSample_def dueler_isSample_def mono_def)
qed

section \<open>Several monitors\<close>

lemma popCount_masks: "\<forall>n \<in> set [0..<31]. popCount (scast (push_bit n 1 :: 32 word)) = 1"
  by code_simp

text \<open>The bits of an identifier; the one of instance 31 is sign-extended.\<close>

lemma dm_mask_bits:
  assumes "dm_mask i = Inr w"
  shows "bit w n \<longleftrightarrow> n < 64 \<and> (n = i \<or> i = 31 \<and> 31 \<le> n)"
proof -
  have i: "i < 32" and w: "w = scast (push_bit i (1 :: 32 word))"
    using assms by (simp_all add: dm_mask_def res_iffs)
  have "bit w n \<longleftrightarrow> n < 64 \<and> bit (push_bit i (1 :: 32 word)) (min 31 n)"
    by (simp add: w bit_signed_iff del: push_bit_of_1)
  also have "\<dots> \<longleftrightarrow> n < 64 \<and> min 31 n = i" using i by (auto simp: bit_simps)
  finally show ?thesis using i by (auto simp: min_def)
qed

lemma dm_masks_disjoint:
  assumes "dm_mask i = Inr w" and "dm_mask j = Inr v" and "i \<noteq> j"
  shows "w AND v = 0"
proof (rule bit_eqI)
  fix n
  have "i < 32" "j < 32" using assms(1,2) by (simp_all add: dm_mask_def res_iffs)
  then show "bit (w AND v) n = bit 0 n"
    using assms(3) by (auto simp: bit_simps dm_mask_bits [OF assms(1)] dm_mask_bits [OF assms(2)])
qed

lemma setSample_other:
  assumes "setSample w team d = Inr d'" and "w AND v = 0"
  shows "dueler_isSample v d' = dueler_isSample v d"
proof -
  have "(x OR w) AND v = x AND v" for x
    using assms(2) by (simp add: bit.conj_disj_distrib2)
  then show ?thesis
    using assms(1) by (cases team) (auto simp: setSample_def dueler_isSample_def Let_def res_iffs)
qed



end
