(* ===== verification/Dueling_Instances.thy ===== *)
theory Dueling_Instances
  imports Policy_Instances Second_Chance RRIP_Policies Dueling_Policy
begin

text \<open>
  Second chance, BRRIP and dueling pairs as providers of fresh replacement data.  A dueling pair
  fills a cache from two sub-policies that do, provided that the team size is the associativity and
  that a constituency is a whole number of sets: then every set is a sample of one team or of none.
\<close>

interpretation chance_fresh: fresh_policy chance_policy "\<lambda>_ _. True" g n k for g n k
  by unfold_locales (rule const_fresh [where d = chance_instantiateEntry], simp add: chance_policy_def)

lemma brrip_fresh_policy:
  assumes "numRRPVBits p \<le> 8"
  shows "fresh_policy (brrip_policy p) (\<lambda>_ _. True) g n k"
proof -
  have "(push_bit (numRRPVBits p) 1 - 1 :: 64 word) = mask (numRRPVBits p)"
    by (simp add: mask_eq_exp_minus_1 push_bit_eq_mult)
  then obtain c :: SatCounter8 where "sc_new (numRRPVBits p) 0 = Inr c"
    using assms by (simp add: sc_new_def Let_def)
  then have "rp_instantiateEntry (brrip_policy p) g = Inr (\<lparr>rrpv = c, brrip_valid = False\<rparr>, g)" for g
    by (simp add: brrip_policy_def brrip_instantiateEntry_def)
  then show ?thesis
    using const_fresh [of "brrip_policy p" "\<lparr>rrpv = c, brrip_valid = False\<rparr>" n k g]
      brrip_rp.replacement_policy_axioms [of p]
    by (simp add: fresh_policy_def fresh_policy_axioms_def)
qed

interpretation brrip_fresh:
  fresh_policy "brrip_policy \<lparr>numRRPVBits = 2, hitPriority = hp, btp = b\<rparr>" "\<lambda>_ _. True" g n k for hp b g n k
  by (rule brrip_fresh_policy) simp

section \<open>Dueling\<close>

text \<open>The masks of the entry that is initialised at a position of the constituency.\<close>

definition region_masks :: "dueling_monitor \<Rightarrow> nat \<Rightarrow> 64 word \<times> 64 word" where
  "region_masks m r =
     (if r < teamSize m then (dm_id m, 0)
      else if constituencySize m - teamSize m \<le> r then (dm_id m, dm_id m)
      else (0, 0))"

definition next_region :: "dueling_monitor \<Rightarrow> nat \<Rightarrow> nat" where
  "next_region m r = (if constituencySize m \<le> r then 0 else r)"

lemma dm_initEntry_fresh:
  assumes "popCount (dm_id m) = 1"
  shows "dm_initEntry \<lparr>isSampleMask = 0, teamMask = 0, replDataA = a, replDataB = b\<rparr> m =
    Inr (\<lparr>isSampleMask = fst (region_masks m (regionCounter m)), teamMask = snd (region_masks m (regionCounter m)),
         replDataA = a, replDataB = b\<rparr>,
      m\<lparr>regionCounter := next_region m (regionCounter m + 1)\<rparr>)"
  using assms by (simp add: dm_initEntry_def setSample_def region_masks_def next_region_def Let_def)

lemma region_masks_frame [simp]:
  "region_masks (m\<lparr>regionCounter := x\<rparr>) = region_masks m"
  "next_region (m\<lparr>regionCounter := x\<rparr>) = next_region m"
  by (simp_all add: region_masks_def next_region_def fun_eq_iff)

text \<open>A row of entries, built while the constituency does not wrap before its end.\<close>

lemma duel_row_instantiated:
  assumes "popCount (dm_id (duelingMonitor g)) = 1"
    and "instantiate_row A j (stateA g) = Inr (as, ga)" and "instantiate_row B j (stateB g) = Inr (bs, gb)"
    and "regionCounter (duelingMonitor g) + j \<le> constituencySize (duelingMonitor g)"
    and "regionCounter (duelingMonitor g) < constituencySize (duelingMonitor g)"
  shows "\<exists>ds. instantiate_row (dueling_policy rnd A B ts) j g = Inr (ds,
      g\<lparr>duelingMonitor := (duelingMonitor g)\<lparr>regionCounter :=
          next_region (duelingMonitor g) (regionCounter (duelingMonitor g) + j)\<rparr>,
        stateA := ga, stateB := gb\<rparr>) \<and>
    length ds = j \<and> map replDataA ds = as \<and> map replDataB ds = bs \<and>
    (\<forall>i < j. (isSampleMask (ds ! i), teamMask (ds ! i)) =
       region_masks (duelingMonitor g) (regionCounter (duelingMonitor g) + i))"
  using assms
proof (induction j arbitrary: g as bs)
  case 0
  then show ?case by (simp add: next_region_def)
next
  case (Suc j)
  let ?m = "duelingMonitor g" let ?r = "regionCounter ?m"
  obtain a ga1 as' where a: "rp_instantiateEntry A (stateA g) = Inr (a, ga1)"
    "instantiate_row A j ga1 = Inr (as', ga)" "as = a # as'"
    using Suc.prems(2) by (auto simp: bindE_eq_Inr)
  obtain b gb1 bs' where b: "rp_instantiateEntry B (stateB g) = Inr (b, gb1)"
    "instantiate_row B j gb1 = Inr (bs', gb)" "bs = b # bs'"
    using Suc.prems(3) by (auto simp: bindE_eq_Inr)
  let ?d = "\<lparr>isSampleMask = fst (region_masks ?m ?r), teamMask = snd (region_masks ?m ?r),
    replDataA = a, replDataB = b\<rparr>"
  let ?g1 = "g\<lparr>duelingMonitor := ?m\<lparr>regionCounter := next_region ?m (?r + 1)\<rparr>, stateA := ga1, stateB := gb1\<rparr>"
  have e: "rp_instantiateEntry (dueling_policy rnd A B ts) g = Inr (?d, ?g1)"
    using a(1) b(1) by (simp add: dueling_policy_def duel_instantiateEntry_def dm_initEntry_fresh [OF Suc.prems(1)])
  show ?case
  proof (cases j)
    case 0
    then show ?thesis using e a b by simp
  next
    case (Suc j')
    then have r1: "next_region ?m (?r + 1) = ?r + 1" using Suc.prems(4) by (simp add: next_region_def)
    have "\<exists>ds. instantiate_row (dueling_policy rnd A B ts) j ?g1 = Inr (ds,
        ?g1\<lparr>duelingMonitor := (duelingMonitor ?g1)\<lparr>regionCounter :=
            next_region (duelingMonitor ?g1) (regionCounter (duelingMonitor ?g1) + j)\<rparr>,
          stateA := ga, stateB := gb\<rparr>) \<and>
      length ds = j \<and> map replDataA ds = as' \<and> map replDataB ds = bs' \<and>
      (\<forall>i < j. (isSampleMask (ds ! i), teamMask (ds ! i)) =
         region_masks (duelingMonitor ?g1) (regionCounter (duelingMonitor ?g1) + i))"
      by (rule Suc.IH) (use Suc.prems a(2) b(2) r1 Suc in simp_all)
    then obtain ds where ds: "instantiate_row (dueling_policy rnd A B ts) j ?g1 = Inr (ds,
        g\<lparr>duelingMonitor := ?m\<lparr>regionCounter := next_region ?m (?r + Suc j)\<rparr>, stateA := ga, stateB := gb\<rparr>)"
      "length ds = j" "map replDataA ds = as'" "map replDataB ds = bs'"
      "\<forall>i < j. (isSampleMask (ds ! i), teamMask (ds ! i)) = region_masks ?m (?r + 1 + i)"
      using r1 by auto
    have "(isSampleMask ((?d # ds) ! i), teamMask ((?d # ds) ! i)) = region_masks ?m (?r + i)" if "i < Suc j" for i
      using ds(5) that by (cases i) simp_all
    then show ?thesis
      using e ds a(3) b(3) by (intro exI [of _ "?d # ds"]) simp
  qed
qed

lemma region_masks_row:
  assumes "teamSize m = k" and "constituencySize m = c * k" and "2 \<le> c" and "j < c" and "i < k"
  shows "region_masks m (j * k + i) = (if j = 0 then (dm_id m, 0) else if j = c - 1 then (dm_id m, dm_id m) else (0, 0))"
proof -
  have sub: "c * k - k = (c - 1) * k" using assms(3) by (simp add: diff_mult_distrib)
  have "(c - 1) * k \<le> j * k + i \<longleftrightarrow> j = c - 1"
  proof
    assume "(c - 1) * k \<le> j * k + i"
    then have "(c - 1) * k < (j + 1) * k" using assms(5) by (simp add: add_mult_distrib)
    then have "c - 1 < j + 1" by (metis mult_less_cancel2)
    then show "j = c - 1" using assms(4) by linarith
  qed simp
  moreover have "j * k + i < k \<longleftrightarrow> j = 0" using assms(5) by (cases j) simp_all
  ultimately show ?thesis using assms(1,2) sub by (simp add: region_masks_def)
qed

definition uniform_row :: "('a, 'b) dueling_data list \<Rightarrow> bool" where
  "uniform_row ds \<longleftrightarrow> (\<exists>x. \<forall>d \<in> set ds. (isSampleMask d, teamMask d) = x)"

lemma duel_all_instantiated:
  assumes "popCount (dm_id (duelingMonitor g)) = 1"
    and "instantiate_all A n k (stateA g) = Inr (ra, ga)" and "instantiate_all B n k (stateB g) = Inr (rb, gb)"
    and "teamSize (duelingMonitor g) = k" and "constituencySize (duelingMonitor g) = c * k" and "2 \<le> c" and "0 < k"
    and "regionCounter (duelingMonitor g) = j * k" and "j < c"
  shows "\<exists>rd g'. instantiate_all (dueling_policy rnd A B k) n k g = Inr (rd, g') \<and>
    stateA g' = ga \<and> stateB g' = gb \<and> map (map replDataA) rd = ra \<and> map (map replDataB) rd = rb \<and>
    (\<forall>ds \<in> set rd. length ds = k \<and> uniform_row ds)"
  using assms
proof (induction n arbitrary: g j ra rb)
  case (Suc n)
  let ?m = "duelingMonitor g"
  obtain as ga1 ra' where a: "instantiate_row A k (stateA g) = Inr (as, ga1)"
    "instantiate_all A n k ga1 = Inr (ra', ga)" "ra = as # ra'"
    using Suc.prems(2) by (auto simp: bindE_eq_Inr)
  obtain bs gb1 rb' where b: "instantiate_row B k (stateB g) = Inr (bs, gb1)"
    "instantiate_all B n k gb1 = Inr (rb', gb)" "rb = bs # rb'"
    using Suc.prems(3) by (auto simp: bindE_eq_Inr)
  have jk: "j * k + k \<le> c * k" using Suc.prems(9) by (metis Suc_leI add.commute mult_Suc mult_le_mono1)
  then have lt: "j * k < c * k" using Suc.prems(7) by linarith
  let ?r = "next_region ?m (j * k + k)"
  obtain ds where ds: "instantiate_row (dueling_policy rnd A B k) k g =
      Inr (ds, g\<lparr>duelingMonitor := ?m\<lparr>regionCounter := ?r\<rparr>, stateA := ga1, stateB := gb1\<rparr>)"
    "length ds = k" "map replDataA ds = as" "map replDataB ds = bs"
    "\<forall>i < k. (isSampleMask (ds ! i), teamMask (ds ! i)) = region_masks ?m (j * k + i)"
    using duel_row_instantiated [OF Suc.prems(1) a(1) b(1), of rnd k] Suc.prems jk lt by auto
  have uni: "uniform_row ds"
    unfolding uniform_row_def
    by (rule exI [of _ "if j = 0 then (dm_id ?m, 0) else if j = c - 1 then (dm_id ?m, dm_id ?m) else (0, 0)"])
      (use ds(2,5) region_masks_row [OF Suc.prems(4-6) Suc.prems(9)] in \<open>auto simp: in_set_conv_nth\<close>)
  obtain j' where j': "?r = j' * k" "j' < c"
  proof (cases "j + 1 = c")
    case True
    then show thesis using that [of 0] Suc.prems by (auto simp: next_region_def)
  next
    case False
    then have "j + 1 < c" using Suc.prems(9) by simp
    then have "(j + 1) * k < c * k" using Suc.prems(7) by (simp only: mult_less_mono1)
    then show thesis using that [of "j + 1"] \<open>j + 1 < c\<close> Suc.prems(5) by (simp add: next_region_def add.commute)
  qed
  let ?g1 = "g\<lparr>duelingMonitor := ?m\<lparr>regionCounter := ?r\<rparr>, stateA := ga1, stateB := gb1\<rparr>"
  have "\<exists>rd g'. instantiate_all (dueling_policy rnd A B k) n k ?g1 = Inr (rd, g') \<and>
    stateA g' = ga \<and> stateB g' = gb \<and> map (map replDataA) rd = ra' \<and> map (map replDataB) rd = rb' \<and>
    (\<forall>ds \<in> set rd. length ds = k \<and> uniform_row ds)"
    by (rule Suc.IH [OF _ _ _ _ _ Suc.prems(6,7) _ j'(2)]) (use Suc.prems a(2) b(2) j'(1) in simp_all)
  then show ?case using ds uni a(3) b(3) by auto
qed simp

lemma dueling_fresh_policy:
  assumes A: "fresh_policy A okA ga n k" and B: "fresh_policy B okB gb n k"
    and m: "popCount (dm_id m) = 1" "teamSize m = k" "constituencySize m = c * k" "2 \<le> c" "0 < k"
      "regionCounter m = 0"
  shows "fresh_policy (dueling_policy rnd A B k) (duel_ok okA okB k)
    \<lparr>duelingMonitor = m, stateA = ga, stateB = gb, selectedA = 0, selectedB = 0\<rparr> n k"
proof -
  let ?g = "\<lparr>duelingMonitor = m, stateA = ga, stateB = gb, selectedA = 0, selectedB = 0\<rparr>"
  have pair: "dueling_pair A okA B okB"
    using A B by (simp add: dueling_pair_def fresh_policy_def)
  obtain ra ga' where ra: "instantiate_all A n k ga = Inr (ra, ga')" "dims n k ra" "okA ga' ra"
    using fresh_policy.fresh [OF A] by blast
  obtain rb gb' where rb: "instantiate_all B n k gb = Inr (rb, gb')" "dims n k rb" "okB gb' rb"
    using fresh_policy.fresh [OF B] by blast
  obtain rd g' where rd: "instantiate_all (dueling_policy rnd A B k) n k ?g = Inr (rd, g')"
    "stateA g' = ga'" "stateB g' = gb'" "map (map replDataA) rd = ra" "map (map replDataB) rd = rb"
    "\<forall>ds \<in> set rd. length ds = k \<and> uniform_row ds"
    using duel_all_instantiated [of ?g A n k ra ga' B rb gb' c 0 rnd] ra(1) rb(1) m by auto
  have "list_all (duel_same_team g' (ds ! 0)) ds" if ds: "ds \<in> set rd" for ds
  proof -
    obtain x where x: "\<forall>d \<in> set ds. (isSampleMask d, teamMask d) = x" using rd(6) ds unfolding uniform_row_def by blast
    have "ds ! 0 \<in> set ds" using rd(6) ds m(5) by (intro nth_mem) simp
    then have "teamMask d = teamMask (ds ! 0)" if "d \<in> set ds" for d using x that by (metis prod.inject)
    then show ?thesis
      by (auto simp: list_all_iff duel_same_team_def dm_isSample_def dueler_isSample_def)
  qed
  then have "duel_ok okA okB k g' rd" using rd ra(3) rb(3) m(5) by (simp add: duel_ok_def)
  moreover have "dims n k rd" using ra(2) rd(4,6) by (auto simp: dims_def)
  ultimately show ?thesis
    using rd(1) dueling_pair.duel_contract [OF pair, of rnd k]
    by (auto simp: fresh_policy_def fresh_policy_axioms_def)
qed

interpretation dip: dueling_pair lru_policy "\<lambda>_ _. True" "bip_policy b" "\<lambda>_ _. True" rnd k for b rnd k
  by unfold_locales

text \<open>
  C30. Composition of policies: two policies that meet the contract of a cache and can fill it give,
  under dueling, a policy that meets the contract and can fill it, when the monitor is among the
  first 31, the team size is the associativity and a constituency is a whole number of sets.
\<close>

theorem dueling_composes:
  assumes "fresh_policy A okA ga n k" and "fresh_policy B okB gb n k"
    and "dm_new rnd inst (c * k) k bits lo hi = Inr (m, inst')" and "inst < 31" and "0 < k" and "2 \<le> c"
  shows "fresh_policy (dueling_policy rnd A B k) (duel_ok okA okB k)
    \<lparr>duelingMonitor = m, stateA = ga, stateB = gb, selectedA = 0, selectedB = 0\<rparr> n k"
proof -
  obtain i where i: "dm_mask inst = Inr i" "popCount i = 1"
    using assms(4) popCount_masks by (auto simp: dm_mask_def)
  have "dm_id m = i" "teamSize m = k" "constituencySize m = c * k" "regionCounter m = 0"
    using assms(3) i(1) by (auto simp: dm_new_def res_iffs)
  then show ?thesis using dueling_fresh_policy [OF assms(1,2)] i(2) assms(5,6) by simp
qed

theorem dueling_composes_witness:
  "\<exists>m inst'. dm_new id 0 8 2 10 (1 / 2) (1 / 2) = Inr (m, inst') \<and>
     fresh_policy (dueling_policy id lru_policy (bip_policy 3) 2) (duel_ok (\<lambda>_ _. True) (\<lambda>_ _. True) 2)
       \<lparr>duelingMonitor = m, stateA = (), stateB = \<lparr>gen = (\<lambda>_. 0), pos = 0\<rparr>, selectedA = 0, selectedB = 0\<rparr> 8 2"
proof -
  have "sc_new 10 0 = Inr (\<lparr>initialVal = 0, maxVal = 1023, counter = 0\<rparr> :: 32 sat_counter)"
    by (simp add: sc_new_def Let_def)
  then obtain m inst' where m: "dm_new id 0 (4 * 2) 2 10 (1 / 2) (1 / 2) = Inr (m, inst')"
    by (simp add: dm_new_def dm_mask_def sc_shr_def)
  from dueling_composes [OF lru_fresh.fresh_policy_axioms bip_fresh.fresh_policy_axioms this]
  show ?thesis using m by auto
qed

end
