(* ===== verification/Std_Heap.thy ===== *)
theory Std_Heap
  imports Ruby_Prelude "HOL-Library.Multiset"
begin

text \<open>
  The binary heap that \<^verbatim>\<open>std::push_heap\<close> and \<^verbatim>\<open>std::pop_heap\<close> keep in a vector, with the
  comparison \<^verbatim>\<open>std::greater\<close>, so that the front is a least element.  The message buffers of the
  network keep their messages in such a vector.  The elements are compared by a key.

  The C++ standard fixes what the two functions achieve (the contract of the locale
  \<open>min_heap\<close>), not the order of the other elements; the sifting here is the usual one, and clients
  rely on the contract alone.
\<close>

section \<open>Sifting\<close>

definition swap :: "nat \<Rightarrow> nat \<Rightarrow> 'a list \<Rightarrow> 'a list" where
  "swap i j xs = xs[i := xs ! j, j := xs ! i]"

definition parent :: "nat \<Rightarrow> nat" where
  "parent i = (i - 1) div 2"

function sift_up :: "('a \<Rightarrow> 'k :: linorder) \<Rightarrow> nat \<Rightarrow> 'a list \<Rightarrow> 'a list" where
  "sift_up key i xs =
     (if 0 < i \<and> key (xs ! i) < key (xs ! parent i)
      then sift_up key (parent i) (swap i (parent i) xs) else xs)"
  by pat_completeness auto
termination by (relation "measure (\<lambda>(_, i, _). i)") (auto simp: parent_def)

definition least_child :: "('a \<Rightarrow> 'k :: linorder) \<Rightarrow> nat \<Rightarrow> 'a list \<Rightarrow> nat" where
  "least_child key i xs =
     (if 2 * i + 2 < length xs \<and> key (xs ! (2 * i + 2)) < key (xs ! (2 * i + 1))
      then 2 * i + 2 else 2 * i + 1)"

function sift_down :: "('a \<Rightarrow> 'k :: linorder) \<Rightarrow> nat \<Rightarrow> 'a list \<Rightarrow> 'a list" where
  "sift_down key i xs =
     (if 2 * i + 1 < length xs \<and> key (xs ! least_child key i xs) < key (xs ! i)
      then sift_down key (least_child key i xs) (swap i (least_child key i xs) xs) else xs)"
  by pat_completeness auto
termination
  by (relation "measure (\<lambda>(_, i, xs). length xs - i)")
    (auto simp: least_child_def swap_def)

declare sift_up.simps [simp del] sift_down.simps [simp del]

definition push_heap :: "('a \<Rightarrow> 'k :: linorder) \<Rightarrow> 'a \<Rightarrow> 'a list \<Rightarrow> 'a list" where
  "push_heap key x xs = sift_up key (length xs) (xs @ [x])"

text \<open>\<^verbatim>\<open>pop_heap\<close> followed by \<^verbatim>\<open>pop_back\<close>: the last element takes the place of the first.\<close>

definition pop_heap :: "('a \<Rightarrow> 'k :: linorder) \<Rightarrow> 'a list \<Rightarrow> 'a list" where
  "pop_heap key xs =
     (if length xs \<le> 1 then [] else sift_down key 0 ((butlast xs)[0 := last xs]))"

section \<open>The order\<close>

definition heap_order :: "('a \<Rightarrow> 'k :: linorder) \<Rightarrow> 'a list \<Rightarrow> bool" where
  "heap_order key xs \<longleftrightarrow>
     (\<forall>j < length xs. 0 < j \<longrightarrow> key (xs ! parent j) \<le> key (xs ! j))"

text \<open>
  During sifting the order holds except between index \<open>i\<close> and its parent (\<open>order_but_up\<close>) or its
  children (\<open>order_but_down\<close>), and skipping \<open>i\<close> it still holds.
\<close>

definition order_but_up :: "('a \<Rightarrow> 'k :: linorder) \<Rightarrow> nat \<Rightarrow> 'a list \<Rightarrow> bool" where
  "order_but_up key i xs \<longleftrightarrow>
     (\<forall>j < length xs. 0 < j \<longrightarrow> j \<noteq> i \<longrightarrow> key (xs ! parent j) \<le> key (xs ! j)) \<and>
     (\<forall>j < length xs. 0 < j \<longrightarrow> parent j = i \<longrightarrow> 0 < i \<longrightarrow> key (xs ! parent i) \<le> key (xs ! j))"

definition order_but_down :: "('a \<Rightarrow> 'k :: linorder) \<Rightarrow> nat \<Rightarrow> 'a list \<Rightarrow> bool" where
  "order_but_down key i xs \<longleftrightarrow>
     (\<forall>j < length xs. 0 < j \<longrightarrow> parent j \<noteq> i \<longrightarrow> key (xs ! parent j) \<le> key (xs ! j)) \<and>
     (\<forall>j < length xs. 0 < j \<longrightarrow> parent j = i \<longrightarrow> 0 < i \<longrightarrow> key (xs ! parent i) \<le> key (xs ! j))"

lemma parent_less: "0 < i \<Longrightarrow> parent i < i"
  by (auto simp: parent_def)

lemma parent_eq: "0 < j \<Longrightarrow> parent j = i \<longleftrightarrow> j = 2 * i + 1 \<or> j = 2 * i + 2"
  by (auto simp: parent_def)

lemma swap_length [simp]: "length (swap i j xs) = length xs"
  by (simp add: swap_def)

lemma swap_mset: "i < length xs \<Longrightarrow> j < length xs \<Longrightarrow> mset (swap i j xs) = mset xs"
  unfolding swap_def by (metis mset_swap)

lemma swap_nth:
  "i < length xs \<Longrightarrow> j < length xs \<Longrightarrow> k < length xs \<Longrightarrow>
     swap i j xs ! k = (if k = j then xs ! i else if k = i then xs ! j else xs ! k)"
  by (simp add: swap_def nth_list_update)

lemma heap_order_front:
  assumes "heap_order key xs" and "i < length xs"
  shows "key (xs ! 0) \<le> key (xs ! i)"
  using assms(2)
proof (induction i rule: less_induct)
  case (less i)
  show ?case
  proof (cases "i = 0")
    case False
    then have p: "parent i < i" by (simp add: parent_less)
    then have "key (xs ! 0) \<le> key (xs ! parent i)" using less by simp
    also have "\<dots> \<le> key (xs ! i)" using assms(1) less.prems False by (simp add: heap_order_def)
    finally show ?thesis .
  qed simp
qed

lemma order_but_up_swap:
  assumes "order_but_up key i xs" and "i < length xs" and "0 < i" and "key (xs ! i) < key (xs ! parent i)"
  shows "order_but_up key (parent i) (swap i (parent i) xs)"
proof -
  let ?p = "parent i" let ?ys = "swap i ?p xs"
  have p: "?p < i" "?p < length xs" using assms(2,3) parent_less [of i] by auto
  have a: "key (xs ! parent j) \<le> key (xs ! j)" if "j < length xs" "0 < j" "j \<noteq> i" for j
    using assms(1) that by (simp add: order_but_up_def)
  have b: "key (xs ! ?p) \<le> key (xs ! j)" if "j < length xs" "0 < j" "parent j = i" for j
    using assms(1,3) that by (simp add: order_but_up_def)
  have n: "?ys ! k = (if k = ?p then xs ! i else if k = i then xs ! ?p else xs ! k)"
    if "k < length xs" for k using swap_nth [OF assms(2) p(2) that] .
  have pl: "parent j < length xs" "parent j < j" if "j < length xs" "0 < j" for j
    using that parent_less [of j] by auto
  have "key (?ys ! parent j) \<le> key (?ys ! j)" if j: "j < length xs" "0 < j" "j \<noteq> ?p" for j
  proof (cases "j = i")
    case True
    then show ?thesis using assms(4) p assms(2) n by simp
  next
    case False
    have "key (?ys ! parent j) \<le> key (xs ! j)"
      using n [OF pl(1) [OF j(1,2)]] a [OF j(1,2) False] b [OF j(1,2)] assms(4) by auto
    then show ?thesis using n [OF j(1)] False j(3) by simp
  qed
  moreover have "key (?ys ! parent ?p) \<le> key (?ys ! j)"
    if j: "j < length xs" "0 < j" "parent j = ?p" "0 < ?p" for j
  proof -
    have "parent ?p \<noteq> ?p" "parent ?p \<noteq> i" using parent_less [OF j(4)] p(1) by auto
    then have y: "?ys ! parent ?p = xs ! parent ?p" using n pl(1) [OF p(2) j(4)] by simp
    have "key (xs ! parent ?p) \<le> key (xs ! ?p)" using a [OF p(2) j(4)] p(1) by simp
    moreover have "key (?ys ! j) = (if j = i then key (xs ! ?p) else key (xs ! j))"
      using n [OF j(1)] pl(2) [OF j(1,2)] j(3) by auto
    ultimately show ?thesis using y a [OF j(1,2)] j(3) by auto
  qed
  ultimately show ?thesis by (simp add: order_but_up_def)
qed

lemma sift_up_spec:
  assumes "order_but_up key i xs" and "i < length xs"
  shows "heap_order key (sift_up key i xs) \<and> mset (sift_up key i xs) = mset xs"
  using assms
proof (induction key i xs rule: sift_up.induct)
  case (1 key i xs)
  show ?case
  proof (cases "0 < i \<and> key (xs ! i) < key (xs ! parent i)")
    case True
    have p: "parent i < length xs" using parent_less [of i] True 1(3) by simp
    have "order_but_up key (parent i) (swap i (parent i) xs)"
      using order_but_up_swap [OF 1(2,3)] True by simp
    then show ?thesis
      using 1(1) [OF True] p True swap_mset [OF 1(3) p] by (simp add: sift_up.simps [of key i xs])
  next
    case False
    have "key (xs ! parent j) \<le> key (xs ! j)" if "j < length xs" "0 < j" for j
      using False 1(2) that by (cases "j = i") (auto simp: order_but_up_def)
    moreover have "sift_up key i xs = xs" using False by (subst sift_up.simps) auto
    ultimately show ?thesis by (simp add: heap_order_def)
  qed
qed

lemma least_child_bounds:
  assumes "2 * i + 1 < length xs"
  shows "least_child key i xs < length xs" "parent (least_child key i xs) = i" "i < least_child key i xs"
  using assms by (auto simp: least_child_def parent_def)

lemma least_child_least:
  assumes "0 < j" and "j < length xs" and "parent j = i"
  shows "key (xs ! least_child key i xs) \<le> key (xs ! j)"
  using assms(2,3) unfolding parent_eq [OF assms(1)] by (auto simp: least_child_def)

lemma order_but_down_swap:
  assumes "order_but_down key i xs" and "2 * i + 1 < length xs"
    and "key (xs ! least_child key i xs) < key (xs ! i)"
  shows "order_but_down key (least_child key i xs) (swap i (least_child key i xs) xs)"
proof -
  let ?c = "least_child key i xs" let ?ys = "swap i ?c xs"
  note c = least_child_bounds [OF assms(2), where key = key]
  have i: "i < length xs" using c by simp
  have a: "key (xs ! parent j) \<le> key (xs ! j)" if "j < length xs" "0 < j" "parent j \<noteq> i" for j
    using assms(1) that by (simp add: order_but_down_def)
  have b: "key (xs ! parent i) \<le> key (xs ! j)" if "j < length xs" "0 < j" "parent j = i" "0 < i" for j
    using assms(1) that by (simp add: order_but_down_def)
  have n: "?ys ! k = (if k = ?c then xs ! i else if k = i then xs ! ?c else xs ! k)"
    if "k < length xs" for k using swap_nth [OF i c(1) that] .
  have pl: "parent j < length xs" if "j < length xs" "0 < j" for j
    using that parent_less [of j] by auto
  have "key (?ys ! parent j) \<le> key (?ys ! j)" if j: "j < length xs" "0 < j" "parent j \<noteq> ?c" for j
  proof (cases "parent j = i")
    case True
    have "key (xs ! ?c) \<le> key (?ys ! j)"
      using n [OF j(1)] least_child_least [OF j(2,1) True, of key] assms(3) parent_less [OF j(2)] True by auto
    then show ?thesis using n [OF i] c(3) True by simp
  next
    case False
    have "?ys ! parent j = xs ! parent j" using n [OF pl [OF j(1,2)]] j(3) False by simp
    moreover have "key (xs ! parent j) \<le> key (?ys ! j)"
      using n [OF j(1)] a [OF j(1,2) False] b [OF c(1) _ c(2)] c(2,3) False j(2) by auto
    ultimately show ?thesis by simp
  qed
  moreover have "key (?ys ! parent ?c) \<le> key (?ys ! j)"
    if j: "j < length xs" "0 < j" "parent j = ?c" for j
  proof -
    have "j \<noteq> i" "j \<noteq> ?c" using parent_less [OF j(2)] j(3) c(3) by auto
    then show ?thesis using n [OF j(1)] n [OF i] a [OF j(1,2)] j(3) c by auto
  qed
  ultimately show ?thesis using c(2) by (simp add: order_but_down_def)
qed

lemma sift_down_spec:
  assumes "order_but_down key i xs"
  shows "heap_order key (sift_down key i xs) \<and> mset (sift_down key i xs) = mset xs"
  using assms
proof (induction key i xs rule: sift_down.induct)
  case (1 key i xs)
  show ?case
  proof (cases "2 * i + 1 < length xs \<and> key (xs ! least_child key i xs) < key (xs ! i)")
    case True
    then have l: "2 * i + 1 < length xs" ..
    note c = least_child_bounds [OF l, where key = key]
    have "order_but_down key (least_child key i xs) (swap i (least_child key i xs) xs)"
      using order_but_down_swap [OF 1(2)] True by simp
    moreover have "sift_down key i xs = sift_down key (least_child key i xs) (swap i (least_child key i xs) xs)"
      using True by (subst sift_down.simps) simp
    ultimately show ?thesis
      using 1(1) [OF True] swap_mset [of i xs "least_child key i xs"] c by simp
  next
    case False
    have "key (xs ! parent j) \<le> key (xs ! j)" if j: "j < length xs" "0 < j" for j
    proof (cases "parent j = i")
      case True
      then have l: "2 * i + 1 < length xs" using j parent_eq [OF j(2), of i] by auto
      then have "key (xs ! i) \<le> key (xs ! least_child key i xs)" using False by auto
      also have "\<dots> \<le> key (xs ! j)" using least_child_least [OF j(2,1) True] .
      finally show ?thesis using True by simp
    qed (use 1(2) j in \<open>simp add: order_but_down_def\<close>)
    moreover have "sift_down key i xs = xs" using False by (subst sift_down.simps) auto
    ultimately show ?thesis by (simp add: heap_order_def)
  qed
qed

section \<open>The contract\<close>

text \<open>What the standard promises of the two functions on a vector that is a heap.\<close>

locale min_heap =
  fixes key :: "'a \<Rightarrow> 'k :: linorder" and ok :: "'a list \<Rightarrow> bool"
    and push :: "'a \<Rightarrow> 'a list \<Rightarrow> 'a list" and pop :: "'a list \<Rightarrow> 'a list"
  assumes empty_ok: "ok []"
    and front_least: "ok h \<Longrightarrow> x \<in> set h \<Longrightarrow> key (hd h) \<le> key x"
    and push_ok: "ok h \<Longrightarrow> ok (push x h)"
    and push_mset: "ok h \<Longrightarrow> mset (push x h) = add_mset x (mset h)"
    and pop_ok: "ok h \<Longrightarrow> h \<noteq> [] \<Longrightarrow> ok (pop h)"
    and pop_mset: "ok h \<Longrightarrow> h \<noteq> [] \<Longrightarrow> mset h = add_mset (hd h) (mset (pop h))"
begin

lemma push_length [simp]: "ok h \<Longrightarrow> length (push x h) = length h + 1"
  using arg_cong [OF push_mset, of h size x] by simp

lemma pop_length: "ok h \<Longrightarrow> h \<noteq> [] \<Longrightarrow> length (pop h) = length h - 1"
  using arg_cong [OF pop_mset, of h size] by simp

lemma push_set [simp]: "ok h \<Longrightarrow> set (push x h) = insert x (set h)"
  using arg_cong [OF push_mset, of h set_mset x] by simp

text \<open>Pushing a list of elements, in order.\<close>

lemma pushes:
  assumes "ok h"
  shows "ok (fold push xs h) \<and> mset (fold push xs h) = mset xs + mset h"
  using assms by (induction xs arbitrary: h) (auto simp: push_ok push_mset)

text \<open>An element whose key is below all others is at the front.\<close>

lemma front_unique:
  assumes "ok h" and "x \<in> set h" and "\<And>y. y \<in> set h \<Longrightarrow> y \<noteq> x \<Longrightarrow> key x < key y"
  shows "hd h = x"
proof (rule ccontr)
  assume "hd h \<noteq> x"
  moreover have "hd h \<in> set h" using assms(2) by (cases h) auto
  ultimately have "key x < key (hd h)" by (intro assms(3))
  then show False using front_least [OF assms(1,2)] by simp
qed

end

lemma push_heap_spec:
  assumes "heap_order key h"
  shows "heap_order key (push_heap key x h) \<and> mset (push_heap key x h) = add_mset x (mset h)"
proof -
  have "parent j < length h \<and> parent j \<noteq> length h" if "0 < j" "j \<le> length h" for j
    using parent_less [OF that(1)] that(2) by simp
  then have "order_but_up key (length h) (h @ [x])"
    using assms by (auto simp: order_but_up_def heap_order_def nth_append less_Suc_eq_le
        dest: less_imp_le)
  from sift_up_spec [OF this] show ?thesis by (simp add: push_heap_def)
qed

lemma pop_heap_spec:
  assumes "heap_order key h" and "h \<noteq> []"
  shows "heap_order key (pop_heap key h) \<and> mset h = add_mset (hd h) (mset (pop_heap key h))"
proof (cases "length h \<le> 1")
  case True
  then show ?thesis using assms(2) by (cases h) (auto simp: pop_heap_def heap_order_def)
next
  case False
  then obtain x y zs where h: "h = x # zs @ [y]"
    by (cases h; cases "tl h" rule: rev_cases) auto
  have eq: "(butlast h)[0 := last h] = y # zs" using h by simp
  have "key ((y # zs) ! parent j) \<le> key ((y # zs) ! j)" if "j < length (y # zs)" "0 < j" "parent j \<noteq> 0" for j
  proof -
    have "(y # zs) ! k = h ! k" if "0 < k" "k < length (y # zs)" for k
      using that h by (cases k) (auto simp: nth_append)
    moreover have "j < length h" using that(1) h by simp
    then have "key (h ! parent j) \<le> key (h ! j)" using assms(1) that(2) by (simp add: heap_order_def)
    ultimately show ?thesis using that parent_less [of j] by simp
  qed
  then have "order_but_down key 0 (y # zs)" by (simp add: order_but_down_def)
  from sift_down_spec [OF this] show ?thesis using False eq h by (simp add: pop_heap_def)
qed

interpretation std_heap: min_heap key "heap_order key" "push_heap key" "pop_heap key"
  for key :: "'a \<Rightarrow> 'k :: linorder"
proof
  show "key (hd h) \<le> key x" if h: "heap_order key h" "x \<in> set h" for h x
  proof -
    obtain i where "i < length h" "x = h ! i" using h(2) by (auto simp: in_set_conv_nth)
    moreover have "hd h = h ! 0" using h(2) by (cases h) auto
    ultimately show ?thesis using heap_order_front [OF h(1)] by simp
  qed
qed (auto simp: heap_order_def [of key "[]"] push_heap_spec pop_heap_spec)

end
