(* ===== verification/Message_Buffer.thy ===== *)
theory Message_Buffer
  imports Std_Heap Random_Source "HOL-Library.Product_Lexorder"
begin

text \<open>
  The buffers through which the controllers and the network exchange messages
  (\<^verbatim>\<open>src/gem5/src/mem/ruby/network/MessageBuffer.cc\<close> and \<^verbatim>\<open>slicc_interface/Message.hh\<close>).  A message
  waits in a priority heap until its arrival time; a controller can recycle it, stall it under
  an address and bring the stalled messages back, or put it aside before it is enqueued.

  The members of a message that the buffer uses are the record \<open>message\<close>; the members of the
  message classes of a protocol are its extension.  The buffer owns its messages, so they are
  values here.  The maps of stalled and of deferred messages are association lists, the first
  sorted by address as \<^verbatim>\<open>std::map\<close> is.  Sizes and counts are natural numbers (they count
  messages in memory), the size of the stall map is an \<^verbatim>\<open>int\<close>; ticks and the message counter are
  64-bit words.  The wake-ups that the buffer schedules for its consumer, and the calls of the
  dequeue callback, are recorded in the state.
\<close>

section \<open>Messages\<close>

record message =
  m_time :: Tick
  m_LastEnqueueTime :: Tick
  m_DelayedTicks :: Tick
  m_msg_counter :: "64 word"

definition updateDelayedTicks :: "Tick \<Rightarrow> 'm message_scheme \<Rightarrow> 'm message_scheme res" where
  "updateDelayedTicks curTime m =
     bindE (assertE (m_LastEnqueueTime m \<le> curTime) ''m_LastEnqueueTime <= curTime'') (\<lambda>_.
     Inr (m\<lparr>m_DelayedTicks := m_DelayedTicks m + (curTime - m_LastEnqueueTime m)\<rparr>))"

definition msg_greater :: "'m message_scheme \<Rightarrow> 'm message_scheme \<Rightarrow> bool" where
  "msg_greater l r \<longleftrightarrow>
     (if m_LastEnqueueTime l = m_LastEnqueueTime r then m_msg_counter r < m_msg_counter l
      else m_LastEnqueueTime r < m_LastEnqueueTime l)"

text \<open>The order of the heap is that of arrival time and counter.\<close>

definition msg_key :: "'m message_scheme \<Rightarrow> Tick \<times> 64 word" where
  "msg_key m = (m_LastEnqueueTime m, m_msg_counter m)"

lemma msg_greater_key: "msg_greater l r \<longleftrightarrow> msg_key r < msg_key l"
  by (auto simp: msg_greater_def msg_key_def)

section \<open>The buffer\<close>

datatype randomization = RandomEnabled | RandomDisabled | RandomRubySystem

datatype wakeup = WakeAt Tick | WakeIn Cycles

record 'm message_buffer =
  m_consumer :: bool
  m_prio_heap :: "'m message_scheme list"
  m_dequeue_callback :: bool
  m_stall_msg_map :: "(Addr \<times> 'm message_scheme list) list"
  m_deferred_msg_map :: "(Addr \<times> 'm message_scheme list) list"
  m_stall_map_size :: int
  m_max_size :: nat
  m_max_dequeue_rate :: nat
  m_dequeues_this_cy :: nat
  m_time_last_time_size_checked :: Tick
  m_size_last_time_size_checked :: nat
  m_time_last_time_enqueue :: Tick
  m_time_last_time_pop :: Tick
  m_last_arrival_time :: Tick
  m_size_at_cycle_start :: nat
  m_stalled_at_cycle_start :: nat
  m_msgs_this_cycle :: nat
  mb_msg_counter :: "64 word"
  m_priority_rank :: int
  m_last_message_strict_fifo_bypassed :: bool
  m_strict_fifo :: bool
  m_randomization :: randomization
  m_allow_zero_latency :: bool
  m_routing_priority :: int
  m_input_link_id :: int
  m_vnet_id :: int
  m_not_avail_count :: nat
  m_msg_count :: nat
  m_buf_msgs :: int
  m_stall_time :: nat
  m_stall_count :: nat
  mb_wakeups :: "wakeup list"
  mb_callbacks :: nat

record buffer_params =
  buffer_size :: nat
  max_dequeue_rate :: nat
  ordered :: bool
  bp_randomization :: randomization
  allow_zero_latency :: bool
  routing_priority :: int

definition mb_new :: "buffer_params \<Rightarrow> 'm message_buffer" where
  "mb_new p =
     \<lparr>m_consumer = False, m_prio_heap = [], m_dequeue_callback = False, m_stall_msg_map = [],
      m_deferred_msg_map = [], m_stall_map_size = 0, m_max_size = buffer_size p,
      m_max_dequeue_rate = max_dequeue_rate p, m_dequeues_this_cy = 0,
      m_time_last_time_size_checked = 0, m_size_last_time_size_checked = 0,
      m_time_last_time_enqueue = 0, m_time_last_time_pop = 0, m_last_arrival_time = 0,
      m_size_at_cycle_start = 0, m_stalled_at_cycle_start = 0, m_msgs_this_cycle = 0,
      mb_msg_counter = 0, m_priority_rank = 0, m_last_message_strict_fifo_bypassed = False,
      m_strict_fifo = ordered p, m_randomization = bp_randomization p,
      m_allow_zero_latency = allow_zero_latency p, m_routing_priority = routing_priority p,
      m_input_link_id = 0, m_vnet_id = 0, m_not_avail_count = 0, m_msg_count = 0,
      m_buf_msgs = 0, m_stall_time = 0, m_stall_count = 0, mb_wakeups = [], mb_callbacks = 0\<rparr>"

definition setConsumer :: "'m message_buffer \<Rightarrow> 'm message_buffer res" where
  "setConsumer b =
     bindE (guardE (\<not> m_consumer b) (Fatal ''Trying to connect to MessageBuffer, already connected'')) (\<lambda>_.
     Inr (b\<lparr>m_consumer := True\<rparr>))"

definition setPriority :: "int \<Rightarrow> 'm message_buffer \<Rightarrow> 'm message_buffer" where
  "setPriority rank b = b\<lparr>m_priority_rank := rank\<rparr>"

definition setIncomingLink :: "int \<Rightarrow> 'm message_buffer \<Rightarrow> 'm message_buffer" where
  "setIncomingLink link_id b = b\<lparr>m_input_link_id := link_id\<rparr>"

definition setVnet :: "int \<Rightarrow> 'm message_buffer \<Rightarrow> 'm message_buffer" where
  "setVnet net b = b\<lparr>m_vnet_id := net\<rparr>"

definition mb_clearStats :: "'m message_buffer \<Rightarrow> 'm message_buffer" where
  "mb_clearStats b = b\<lparr>m_not_avail_count := 0, mb_msg_counter := 0\<rparr>"

definition wake :: "wakeup \<Rightarrow> 'm message_buffer \<Rightarrow> 'm message_buffer res" where
  "wake w b =
     bindE (guardE (m_consumer b) NullDeref) (\<lambda>_. Inr (b\<lparr>mb_wakeups := mb_wakeups b @ [w]\<rparr>))"

definition mb_getSize :: "Tick \<Rightarrow> 'm message_buffer \<Rightarrow> nat \<times> 'm message_buffer" where
  "mb_getSize curTime b =
     (let b1 = (if m_time_last_time_size_checked b \<noteq> curTime
                then b\<lparr>m_time_last_time_size_checked := curTime,
                       m_size_last_time_size_checked := length (m_prio_heap b)\<rparr>
                else b)
      in (m_size_last_time_size_checked b1, b1))"

definition visible_size :: "Tick \<Rightarrow> 'm message_buffer \<Rightarrow> nat" where
  "visible_size now b =
     (if m_time_last_time_pop b < now then length (m_prio_heap b) + nat (m_stall_map_size b)
      else (if m_time_last_time_enqueue b < now then m_size_at_cycle_start b
            else m_size_at_cycle_start b + m_msgs_this_cycle b) + m_stalled_at_cycle_start b)"

text \<open>
  The sum is one of \<^verbatim>\<open>unsigned int\<close>s in the code, each a number of messages; as natural numbers the
  sum is the same while the messages counted are fewer than \<open>2 ^ 32\<close>.
\<close>

definition areNSlotsAvailable :: "nat \<Rightarrow> Tick \<Rightarrow> 'm message_buffer \<Rightarrow> bool \<times> 'm message_buffer" where
  "areNSlotsAvailable n now b =
     (if m_max_size b = 0 then (True, b)
      else if visible_size now b + n \<le> m_max_size b then (True, b)
      else (False, b\<lparr>m_not_avail_count := m_not_avail_count b + 1\<rparr>))"

text \<open>The front of an empty vector is undefined.\<close>

definition mb_front :: "'m message_buffer \<Rightarrow> 'm message_scheme res" where
  "mb_front b = nthE (m_prio_heap b) 0"

definition mb_peek :: "'m message_buffer \<Rightarrow> 'm message_scheme res" where
  "mb_peek b = mb_front b"

definition mb_readyTime :: "'m message_buffer \<Rightarrow> Tick" where
  "mb_readyTime b =
     (case m_prio_heap b of [] \<Rightarrow> - 1 | m # _ \<Rightarrow> m_LastEnqueueTime m)"

definition mb_isReady :: "Tick \<Rightarrow> 'm message_buffer \<Rightarrow> (bool \<times> 'm message_buffer) res" where
  "mb_isReady now b =
     bindE (assertE (m_time_last_time_pop b \<le> now) ''m_time_last_time_pop <= current_time'') (\<lambda>_.
     let can_dequeue = (m_max_dequeue_rate b = 0 \<or> m_time_last_time_pop b < now \<or>
                        m_dequeues_this_cy b < m_max_dequeue_rate b);
         is_ready = (0 < length (m_prio_heap b) \<and> m_LastEnqueueTime (m_prio_heap b ! 0) \<le> now)
     in bindE (if \<not> can_dequeue \<and> is_ready then wake (WakeIn 1) b else Inr b) (\<lambda>b1.
        Inr (can_dequeue \<and> is_ready, b1)))"

definition random_time :: "rng \<Rightarrow> (Tick \<times> rng) res" where
  "random_time r =
     bindE (random_range 0 3 r) (\<lambda>(k, r1).
     bindE (random_range 0 7 r1) (\<lambda>(q, r2).
     if q = 0 then
       bindE (random_range 1 15 r2) (\<lambda>(l, r3). Inr (1 + of_nat k + (100 + of_nat l), r3))
     else Inr (1 + of_nat k, r2)))"

definition mb_arrival ::
  "Tick \<Rightarrow> Tick \<Rightarrow> bool \<Rightarrow> rng \<Rightarrow> 'm message_buffer \<Rightarrow> (Tick \<times> 'm message_buffer \<times> rng) res" where
  "mb_arrival now delta ruby_is_random r b =
     (if m_randomization b = RandomDisabled \<or>
         (m_randomization b = RandomRubySystem \<and> \<not> ruby_is_random)
      then Inr (now + delta, b, r)
      else if m_strict_fifo b then
        let b1 = (if m_last_arrival_time b < now then b\<lparr>m_last_arrival_time := now\<rparr> else b)
        in bindE (random_time r) (\<lambda>(t, r'). Inr (m_last_arrival_time b1 + t, b1, r'))
      else bindE (random_time r) (\<lambda>(t, r'). Inr (now + t, b, r')))"

text \<open>The first statements of \<^verbatim>\<open>enqueue\<close>: counting the message.\<close>

definition mb_note_enqueue :: "Tick \<Rightarrow> 'm message_buffer \<Rightarrow> 'm message_buffer" where
  "mb_note_enqueue now b =
     (let b1 = (if m_time_last_time_enqueue b < now
                then b\<lparr>m_msgs_this_cycle := 0, m_time_last_time_enqueue := now\<rparr> else b)
      in b1\<lparr>mb_msg_counter := mb_msg_counter b1 + 1,
            m_msgs_this_cycle := m_msgs_this_cycle b1 + 1\<rparr>)"

definition mb_enqueue ::
  "'m message_scheme \<Rightarrow> Tick \<Rightarrow> Tick \<Rightarrow> bool \<Rightarrow> bool \<Rightarrow> bool \<Rightarrow> rng \<Rightarrow> 'm message_buffer \<Rightarrow>
     ('m message_buffer \<times> rng) res" where
  "mb_enqueue m now delta ruby_is_random ruby_warmup bypassStrictFIFO r b =
     (let b2 = mb_note_enqueue now b
      in bindE (guardE (\<not> (delta = 0 \<and> \<not> m_allow_zero_latency b2))
                 (Panic ''Delta equals zero and allow_zero_latency is false during enqueue'')) (\<lambda>_.
         bindE (mb_arrival now delta ruby_is_random r b2) (\<lambda>(arrival_time, b3, r').
         bindE (assertE (now \<le> arrival_time) ''arrival_time >= current_time'') (\<lambda>_.
         bindE (guardE (\<not> (m_strict_fifo b3 \<and>
                          \<not> (bypassStrictFIFO \<or> m_last_message_strict_fifo_bypassed b3) \<and>
                          arrival_time < m_last_arrival_time b3))
                 (Panic ''FIFO ordering violated'')) (\<lambda>_.
         let b4 = (if ruby_warmup then b3 else b3\<lparr>m_last_arrival_time := arrival_time\<rparr>);
             b5 = b4\<lparr>m_last_message_strict_fifo_bypassed := bypassStrictFIFO\<rparr>
         in bindE (assertE (m_LastEnqueueTime m \<le> now) ''ensure we aren't dequeued early'') (\<lambda>_.
            bindE (updateDelayedTicks now m) (\<lambda>m1.
            let m2 = m1\<lparr>m_LastEnqueueTime := arrival_time, m_msg_counter := mb_msg_counter b5\<rparr>;
                b6 = b5\<lparr>m_prio_heap := push_heap msg_key m2 (m_prio_heap b5),
                        m_buf_msgs := m_buf_msgs b5 + 1\<rparr>
            in bindE (assertE (m_max_size b6 = 0 \<or>
                        int (length (m_prio_heap b6)) + m_stall_map_size b6 \<le> int (m_max_size b6))
                      ''(m_prio_heap.size() + m_stall_map_size) <= m_max_size'') (\<lambda>_.
               bindE (assertE (m_consumer b6) ''m_consumer != NULL'') (\<lambda>_.
               bindE (wake (WakeAt arrival_time) b6) (\<lambda>b7. Inr (b7, r')))))))))))"

definition mb_pop_heap :: "'m message_buffer \<Rightarrow> 'm message_buffer" where
  "mb_pop_heap b = b\<lparr>m_prio_heap := pop_heap msg_key (m_prio_heap b)\<rparr>"

text \<open>
  The three parts of \<^verbatim>\<open>dequeue\<close> around the removal: the sizes at the start of the cycle, the
  statistics of a message that leaves, and the callback.  \<open>cur\<close> is the tick of the simulator,
  \<open>now\<close> the time the caller passes.
\<close>

definition mb_note_pop :: "Tick \<Rightarrow> 'm message_buffer \<Rightarrow> 'm message_buffer" where
  "mb_note_pop now b =
     (let b1 = (if m_time_last_time_pop b < now
                then b\<lparr>m_size_at_cycle_start := length (m_prio_heap b),
                       m_stalled_at_cycle_start := nat (m_stall_map_size b),
                       m_time_last_time_pop := now, m_dequeues_this_cy := 0\<rparr> else b)
      in b1\<lparr>m_dequeues_this_cy := m_dequeues_this_cy b1 + 1\<rparr>)"

definition mb_note_departure :: "Tick \<Rightarrow> 'm message_scheme \<Rightarrow> 'm message_buffer \<Rightarrow> 'm message_buffer" where
  "mb_note_departure cur m b =
     b\<lparr>m_stall_time := m_stall_time b + unat (cur - m_LastEnqueueTime m),
       m_msg_count := m_msg_count b + 1, m_buf_msgs := m_buf_msgs b - 1\<rparr>"

definition mb_run_callback :: "'m message_buffer \<Rightarrow> 'm message_buffer" where
  "mb_run_callback b =
     (if m_dequeue_callback b then b\<lparr>mb_callbacks := mb_callbacks b + 1\<rparr> else b)"

definition mb_dequeue ::
  "Tick \<Rightarrow> Tick \<Rightarrow> bool \<Rightarrow> 'm message_buffer \<Rightarrow> (Tick \<times> 'm message_buffer) res" where
  "mb_dequeue cur now decrement_messages b =
     bindE (mb_isReady now b) (\<lambda>(ready, b0).
     bindE (assertE ready ''isReady(current_time)'') (\<lambda>_.
     bindE (mb_front b0) (\<lambda>m.
     bindE (updateDelayedTicks now m) (\<lambda>m1.
     let b1 = mb_pop_heap (mb_note_pop now b0);
         b2 = (if decrement_messages then mb_note_departure cur m1 b1 else b1)
     in Inr (m_DelayedTicks m1, mb_run_callback b2)))))"

definition registerDequeueCallback :: "'m message_buffer \<Rightarrow> 'm message_buffer" where
  "registerDequeueCallback b = b\<lparr>m_dequeue_callback := True\<rparr>"

definition unregisterDequeueCallback :: "'m message_buffer \<Rightarrow> 'm message_buffer" where
  "unregisterDequeueCallback b = b\<lparr>m_dequeue_callback := False\<rparr>"

definition mb_clear :: "'m message_buffer \<Rightarrow> 'm message_buffer" where
  "mb_clear b =
     b\<lparr>m_prio_heap := [], mb_msg_counter := 0, m_time_last_time_enqueue := 0,
       m_time_last_time_pop := 0, m_size_at_cycle_start := 0, m_stalled_at_cycle_start := 0,
       m_msgs_this_cycle := 0\<rparr>"

definition mb_recycle :: "Tick \<Rightarrow> Tick \<Rightarrow> 'm message_buffer \<Rightarrow> 'm message_buffer res" where
  "mb_recycle now recycle_latency b =
     bindE (mb_isReady now b) (\<lambda>(ready, b0).
     bindE (assertE ready ''isReady(current_time)'') (\<lambda>_.
     bindE (mb_front b0) (\<lambda>node.
     let b1 = mb_pop_heap b0;
         future_time = now + recycle_latency;
         node1 = node\<lparr>m_LastEnqueueTime := future_time\<rparr>;
         b2 = b1\<lparr>m_prio_heap := push_heap msg_key node1 (m_prio_heap b1)\<rparr>
     in wake (WakeAt future_time) b2)))"

definition mb_delayHead ::
  "Tick \<Rightarrow> Tick \<Rightarrow> bool \<Rightarrow> bool \<Rightarrow> rng \<Rightarrow> 'm message_buffer \<Rightarrow> ('m message_buffer \<times> rng) res" where
  "mb_delayHead now delta ruby_is_random ruby_warmup r b =
     bindE (mb_front b) (\<lambda>m.
     mb_enqueue m now delta ruby_is_random ruby_warmup False r (mb_pop_heap b))"

fun mb_reanalyzeList ::
  "'m message_scheme list \<Rightarrow> Tick \<Rightarrow> 'm message_buffer \<Rightarrow> 'm message_buffer res" where
  "mb_reanalyzeList [] schdTick b = Inr b"
| "mb_reanalyzeList (m # lt) schdTick b =
     bindE (assertE (m_LastEnqueueTime m \<le> schdTick) ''m->getLastEnqueueTime() <= schdTick'') (\<lambda>_.
     bindE (wake (WakeAt schdTick) (b\<lparr>m_prio_heap := push_heap msg_key m (m_prio_heap b)\<rparr>)) (\<lambda>b1.
     mb_reanalyzeList lt schdTick b1))"

section \<open>Maps from addresses to lists of messages\<close>

text \<open>Appending under a key of a map sorted by its keys; \<^verbatim>\<open>operator[]\<close> makes an empty list first.\<close>

fun map_append :: "Addr \<Rightarrow> 'a \<Rightarrow> (Addr \<times> 'a list) list \<Rightarrow> (Addr \<times> 'a list) list" where
  "map_append a x [] = [(a, [x])]"
| "map_append a x ((b, ys) # r) =
     (if a = b then (b, ys @ [x]) # r
      else if a < b then (a, [x]) # (b, ys) # r
      else (b, ys) # map_append a x r)"

definition map_erase :: "Addr \<Rightarrow> (Addr \<times> 'a list) list \<Rightarrow> (Addr \<times> 'a list) list" where
  "map_erase a m = filter (\<lambda>(b, _). b \<noteq> a) m"

definition mb_reanalyzeMessages :: "Addr \<Rightarrow> Tick \<Rightarrow> 'm message_buffer \<Rightarrow> 'm message_buffer res" where
  "mb_reanalyzeMessages addr now b =
     (case map_of (m_stall_msg_map b) addr of
        None \<Rightarrow> Inl (AssertFail ''m_stall_msg_map.count(addr) > 0'')
      | Some lt \<Rightarrow>
          let b1 = b\<lparr>m_stall_map_size := m_stall_map_size b - int (length lt)\<rparr>
          in bindE (assertE (0 \<le> m_stall_map_size b1) ''m_stall_map_size >= 0'') (\<lambda>_.
             bindE (mb_reanalyzeList lt now b1) (\<lambda>b2.
             Inr (b2\<lparr>m_stall_msg_map := map_erase addr (m_stall_msg_map b2)\<rparr>))))"

fun mb_reanalyze_rows ::
  "(Addr \<times> 'm message_scheme list) list \<Rightarrow> Tick \<Rightarrow> 'm message_buffer \<Rightarrow> 'm message_buffer res" where
  "mb_reanalyze_rows [] now b = Inr b"
| "mb_reanalyze_rows ((a, lt) # rows) now b =
     (let b1 = b\<lparr>m_stall_map_size := m_stall_map_size b - int (length lt)\<rparr>
      in bindE (assertE (0 \<le> m_stall_map_size b1) ''m_stall_map_size >= 0'') (\<lambda>_.
         bindE (mb_reanalyzeList lt now b1) (\<lambda>b2. mb_reanalyze_rows rows now b2)))"

definition mb_reanalyzeAllMessages :: "Tick \<Rightarrow> 'm message_buffer \<Rightarrow> 'm message_buffer res" where
  "mb_reanalyzeAllMessages now b =
     bindE (mb_reanalyze_rows (m_stall_msg_map b) now b) (\<lambda>b1.
     Inr (b1\<lparr>m_stall_msg_map := []\<rparr>))"

definition mb_stallMessage :: "Addr \<Rightarrow> Tick \<Rightarrow> Tick \<Rightarrow> 'm message_buffer \<Rightarrow> 'm message_buffer res" where
  "mb_stallMessage addr cur now b =
     bindE (mb_isReady now b) (\<lambda>(ready, b0).
     bindE (assertE ready ''isReady(current_time)'') (\<lambda>_.
     bindE (mb_front b0) (\<lambda>m.
     bindE (mb_dequeue cur now False b0) (\<lambda>(delay, b1).
     Inr (b1\<lparr>m_stall_msg_map := map_append addr (m\<lparr>m_DelayedTicks := delay\<rparr>) (m_stall_msg_map b1),
             m_stall_map_size := m_stall_map_size b1 + 1, m_stall_count := m_stall_count b1 + 1\<rparr>)))))"

definition mb_hasStalledMsg :: "Addr \<Rightarrow> 'm message_buffer \<Rightarrow> bool" where
  "mb_hasStalledMsg addr b \<longleftrightarrow> map_of (m_stall_msg_map b) addr \<noteq> None"

definition mb_deferEnqueueingMessage ::
  "Addr \<Rightarrow> 'm message_scheme \<Rightarrow> 'm message_buffer \<Rightarrow> 'm message_buffer" where
  "mb_deferEnqueueingMessage addr m b =
     b\<lparr>m_deferred_msg_map := map_append addr m (m_deferred_msg_map b)\<rparr>"

fun mb_enqueue_all ::
  "'m message_scheme list \<Rightarrow> Tick \<Rightarrow> Tick \<Rightarrow> bool \<Rightarrow> bool \<Rightarrow> rng \<Rightarrow> 'm message_buffer \<Rightarrow>
     ('m message_buffer \<times> rng) res" where
  "mb_enqueue_all [] now delay rr rw r b = Inr (b, r)"
| "mb_enqueue_all (m # ms) now delay rr rw r b =
     bindE (mb_enqueue m now delay rr rw False r b) (\<lambda>(b1, r1). mb_enqueue_all ms now delay rr rw r1 b1)"

definition mb_isDeferredMsgMapEmpty :: "Addr \<Rightarrow> 'm message_buffer \<Rightarrow> bool" where
  "mb_isDeferredMsgMapEmpty addr b \<longleftrightarrow> map_of (m_deferred_msg_map b) addr = None"

definition mb_enqueueDeferredMessages ::
  "Addr \<Rightarrow> Tick \<Rightarrow> Tick \<Rightarrow> bool \<Rightarrow> bool \<Rightarrow> rng \<Rightarrow> 'm message_buffer \<Rightarrow> ('m message_buffer \<times> rng) res" where
  "mb_enqueueDeferredMessages addr now delay rr rw r b =
     bindE (assertE (\<not> mb_isDeferredMsgMapEmpty addr b) ''!isDeferredMsgMapEmpty(addr)'') (\<lambda>_.
     bindE (derefE (map_of (m_deferred_msg_map b) addr)) (\<lambda>ms.
     bindE (assertE (0 < length ms) ''msg_vec.size() > 0'') (\<lambda>_.
     bindE (mb_enqueue_all ms now delay rr rw r b) (\<lambda>(b1, r').
     Inr (b1\<lparr>m_deferred_msg_map := map_erase addr (m_deferred_msg_map b1)\<rparr>, r')))))"

section \<open>Functional accesses\<close>

text \<open>
  A functional access visits the messages of the heap and then the stalled ones.  What a visit
  does (\<^verbatim>\<open>functionalRead\<close> or \<^verbatim>\<open>functionalWrite\<close> of the message class, which the protocol compiler
  generates) is the parameter \<open>visit\<close>: whether the message matched, the message after a write,
  and the packet with its mask after a read.  An unmasked read stops at the first match.
\<close>

fun visit_list ::
  "('x \<Rightarrow> 'p \<Rightarrow> bool \<times> 'x \<times> 'p) \<Rightarrow> bool \<Rightarrow> 'x list \<Rightarrow> 'p \<Rightarrow> nat \<times> 'x list \<times> 'p" where
  "visit_list visit stop [] pkt = (0, [], pkt)"
| "visit_list visit stop (m # ms) pkt =
     (let (hit, m', pkt') = visit m pkt in
      if hit \<and> stop then (1, m' # ms, pkt')
      else let (n, ms', pkt'') = visit_list visit stop ms pkt'
           in ((if hit then 1 else 0) + n, m' # ms', pkt''))"

fun visit_rows ::
  "('x \<Rightarrow> 'p \<Rightarrow> bool \<times> 'x \<times> 'p) \<Rightarrow> bool \<Rightarrow> (Addr \<times> 'x list) list \<Rightarrow> 'p \<Rightarrow>
     nat \<times> (Addr \<times> 'x list) list \<times> 'p" where
  "visit_rows visit stop [] pkt = (0, [], pkt)"
| "visit_rows visit stop ((a, ms) # rows) pkt =
     (let (n, ms', pkt') = visit_list visit stop ms pkt in
      if 0 < n \<and> stop then (1, (a, ms') # rows, pkt')
      else let (k, rows', pkt'') = visit_rows visit stop rows pkt'
           in (n + k, (a, ms') # rows', pkt''))"

definition mb_functionalAccess ::
  "('m message_scheme \<Rightarrow> 'p \<Rightarrow> bool \<times> 'm message_scheme \<times> 'p) \<Rightarrow> bool \<Rightarrow> 'p \<Rightarrow>
     'm message_buffer \<Rightarrow> nat \<times> 'm message_buffer \<times> 'p" where
  "mb_functionalAccess visit stop pkt b =
     (let (n, h, pkt1) = visit_list visit stop (m_prio_heap b) pkt;
          b1 = b\<lparr>m_prio_heap := h\<rparr>
      in if 0 < n \<and> stop then (1, b1, pkt1)
         else let (k, rows, pkt2) = visit_rows visit stop (m_stall_msg_map b1) pkt1
              in (n + k, b1\<lparr>m_stall_msg_map := rows\<rparr>, pkt2))"

text \<open>Both reads report success when exactly one access was counted.\<close>

definition mb_functionalRead ::
  "('m message_scheme \<Rightarrow> 'p \<Rightarrow> bool \<times> 'm message_scheme \<times> 'p) \<Rightarrow> 'p \<Rightarrow>
     'm message_buffer \<Rightarrow> bool \<times> 'm message_buffer \<times> 'p" where
  "mb_functionalRead visit pkt b =
     (let (n, r) = mb_functionalAccess visit True pkt b in (n = 1, r))"

definition mb_functionalRead_mask ::
  "('m message_scheme \<Rightarrow> 'p \<times> 'k \<Rightarrow> bool \<times> 'm message_scheme \<times> 'p \<times> 'k) \<Rightarrow> 'p \<Rightarrow> 'k \<Rightarrow>
     'm message_buffer \<Rightarrow> bool \<times> 'm message_buffer \<times> 'p \<times> 'k" where
  "mb_functionalRead_mask visit pkt wmask b =
     (let (n, r) = mb_functionalAccess visit False (pkt, wmask) b in (n = 1, r))"

definition mb_functionalWrite ::
  "('m message_scheme \<Rightarrow> 'p \<Rightarrow> bool \<times> 'm message_scheme \<times> 'p) \<Rightarrow> 'p \<Rightarrow>
     'm message_buffer \<Rightarrow> nat \<times> 'm message_buffer \<times> 'p" where
  "mb_functionalWrite visit pkt b = mb_functionalAccess visit False pkt b"

end
