(* ===== verification/Message_Queue.thy ===== *)
theory Message_Queue
  imports Message_Buffer
begin

text \<open>
  The representation invariant \<open>mb_ok\<close> of the message buffers, the operations as the steps of a
  run, and the messages an operation keeps: what the heap, the stalled and the deferred
  messages hold together changes only by what is put in and handed out.
\<close>

section \<open>Maps of messages\<close>

definition map_msgs :: "(Addr \<times> 'a list) list \<Rightarrow> 'a multiset" where
  "map_msgs m = mset (concat (map snd m))"

definition map_wf :: "(Addr \<times> 'a list) list \<Rightarrow> bool" where
  "map_wf m \<longleftrightarrow> sorted_wrt (<) (map fst m) \<and> (\<forall>(a, xs) \<in> set m. xs \<noteq> [])"

lemma map_msgs_simps [simp]: "map_msgs [] = {#}" "map_msgs ((a, xs) # m) = mset xs + map_msgs m"
  by (simp_all add: map_msgs_def)

lemma map_append_msgs: "map_msgs (map_append a x m) = add_mset x (map_msgs m)"
  by (induction a x m rule: map_append.induct) auto

lemma map_append_keys: "set (map fst (map_append a x m)) = insert a (set (map fst m))"
  by (induction a x m rule: map_append.induct) auto

lemma map_wf_Cons:
  "map_wf ((a, xs) # m) \<longleftrightarrow> (\<forall>k \<in> set (map fst m). a < k) \<and> xs \<noteq> [] \<and> map_wf m"
  by (auto simp: map_wf_def)

lemma map_append_wf: "map_wf m \<Longrightarrow> map_wf (map_append a x m)"
proof (induction a x m rule: map_append.induct)
  case (2 a x b ys r)
  consider "a = b" | "a < b" | "b < a" by (rule linorder_cases)
  then show ?case
  proof cases
    case 2
    then have "\<forall>k \<in> set (map fst r). a < k" using "2.prems" less_trans [of a b] by (simp add: map_wf_Cons)
    with 2 show ?thesis using "2.prems" by (simp add: map_wf_Cons)
  next
    case 3
    then have ne: "a \<noteq> b" "\<not> a < b" by auto
    then have "map_wf (map_append a x r)" using "2.IH" "2.prems" by (simp add: map_wf_Cons)
    moreover have "\<forall>k \<in> set (map fst (map_append a x r)). b < k"
      unfolding map_append_keys using 3 "2.prems" by (simp add: map_wf_Cons)
    ultimately show ?thesis using ne "2.prems" unfolding map_wf_Cons by (simp add: map_wf_Cons)
  qed (use "2.prems" in \<open>simp add: map_wf_Cons\<close>)
qed (simp add: map_wf_def)

lemma map_append_rows:
  "(\<forall>(b, xs) \<in> set m. \<forall>y \<in> set xs. P y) \<Longrightarrow> P x \<Longrightarrow> \<forall>(b, xs) \<in> set (map_append a x m). \<forall>y \<in> set xs. P y"
  by (induction a x m rule: map_append.induct) auto

lemma map_erase_msgs:
  assumes "map_wf m" and "map_of m a = Some xs"
  shows "map_msgs m = mset xs + map_msgs (map_erase a m)"
  using assms
proof (induction m)
  case (Cons r m)
  obtain b ys where r: "r = (b, ys)" by (cases r)
  show ?case
  proof (cases "a = b")
    case True
    then have "\<forall>p \<in> set m. a < fst p" using Cons.prems(1) r by (simp add: map_wf_Cons)
    then have "map_erase a m = m" by (auto simp: map_erase_def filter_id_conv)
    then show ?thesis using Cons.prems(2) r True by (simp add: map_erase_def)
  next
    case False
    then show ?thesis using Cons r by (simp add: map_erase_def map_wf_Cons)
  qed
qed simp

lemma map_erase_wf: "map_wf m \<Longrightarrow> map_wf (map_erase a m)"
  unfolding map_wf_def map_erase_def
  by (auto simp: sorted_wrt_map sorted_wrt_filter)

lemma map_erase_subset: "set (map_erase a m) \<subseteq> set m"
  by (auto simp: map_erase_def)

section \<open>The invariant\<close>

definition mb_ok :: "'m message_buffer \<Rightarrow> bool" where
  "mb_ok b \<longleftrightarrow>
     heap_order msg_key (m_prio_heap b) \<and> map_wf (m_stall_msg_map b) \<and> map_wf (m_deferred_msg_map b) \<and>
     m_stall_map_size b = int (size (map_msgs (m_stall_msg_map b))) \<and>
     (\<forall>(a, ms) \<in> set (m_stall_msg_map b). \<forall>m \<in> set ms. m_LastEnqueueTime m \<le> m_time_last_time_pop b) \<and>
     m_consumer b"

definition held :: "'m message_buffer \<Rightarrow> 'm message_scheme multiset" where
  "held b = mset (m_prio_heap b) + map_msgs (m_stall_msg_map b)"

definition held_all :: "'m message_buffer \<Rightarrow> 'm message_scheme multiset" where
  "held_all b = held b + map_msgs (m_deferred_msg_map b)"

definition stamped ::
  "Tick \<Rightarrow> Tick \<Rightarrow> 64 word \<Rightarrow> 'm message_scheme \<Rightarrow> 'm message_scheme" where
  "stamped now arr c m =
     m\<lparr>m_DelayedTicks := m_DelayedTicks m + (now - m_LastEnqueueTime m),
       m_LastEnqueueTime := arr, m_msg_counter := c\<rparr>"

lemma wake_eq_Inr [res_iffs]:
  "wake w b = Inr b' \<longleftrightarrow> m_consumer b \<and> b' = b\<lparr>mb_wakeups := mb_wakeups b @ [w]\<rparr>"
  by (auto simp: wake_def res_iffs)

lemma wake_ok [simp]: "m_consumer b \<Longrightarrow> wake w b = Inr (b\<lparr>mb_wakeups := mb_wakeups b @ [w]\<rparr>)"
  by (simp add: wake_def)

lemma updateDelayedTicks_eq_Inr [res_iffs]:
  "updateDelayedTicks t m = Inr m' \<longleftrightarrow> m_LastEnqueueTime m \<le> t \<and>
     m' = m\<lparr>m_DelayedTicks := m_DelayedTicks m + (t - m_LastEnqueueTime m)\<rparr>"
  by (auto simp: updateDelayedTicks_def res_iffs)

lemma mb_arrival_frame:
  assumes "mb_arrival now delta rr r b = Inr (arr, b', r')"
  shows "b' = b\<lparr>m_last_arrival_time := m_last_arrival_time b'\<rparr> \<and> m_last_arrival_time b \<le> m_last_arrival_time b'"
  using assms by (auto simp: mb_arrival_def Let_def res_iffs split: if_splits)

text \<open>What a successful enqueue did, with every field that changed.\<close>

lemma mb_enqueue_Inr:
  assumes "mb_enqueue m now delta rr rw bp r b = Inr (b', r')"
  obtains arr last1 where
    "now \<le> arr" "m_LastEnqueueTime m \<le> now" "m_consumer b" "m_last_arrival_time b \<le> last1"
    "m_strict_fifo b \<Longrightarrow> \<not> bp \<Longrightarrow> \<not> m_last_message_strict_fifo_bypassed b \<Longrightarrow> last1 \<le> arr"
    "m_max_size b = 0 \<or> int (length (push_heap msg_key (stamped now arr (mb_msg_counter b + 1) m) (m_prio_heap b)))
        + m_stall_map_size b \<le> int (m_max_size b)"
    "b' = b\<lparr>m_msgs_this_cycle := (if m_time_last_time_enqueue b < now then 1 else m_msgs_this_cycle b + 1),
       m_time_last_time_enqueue := max (m_time_last_time_enqueue b) now,
       mb_msg_counter := mb_msg_counter b + 1,
       m_last_arrival_time := (if rw then last1 else arr),
       m_last_message_strict_fifo_bypassed := bp,
       m_prio_heap := push_heap msg_key (stamped now arr (mb_msg_counter b + 1) m) (m_prio_heap b),
       m_buf_msgs := m_buf_msgs b + 1, mb_wakeups := mb_wakeups b @ [WakeAt arr]\<rparr>"
proof -
  define b2 where "b2 = mb_note_enqueue now b"
  have b2: "b2 = b\<lparr>m_msgs_this_cycle := (if m_time_last_time_enqueue b < now then 1 else m_msgs_this_cycle b + 1),
       m_time_last_time_enqueue := max (m_time_last_time_enqueue b) now,
       mb_msg_counter := mb_msg_counter b + 1\<rparr>"
    by (simp add: b2_def mb_note_enqueue_def Let_def max_def)
  obtain arr b3 where a: "mb_arrival now delta rr r b2 = Inr (arr, b3, r')"
    and le: "now \<le> arr" "m_LastEnqueueTime m \<le> now" "m_consumer b3"
    and f: "m_strict_fifo b3 \<Longrightarrow> \<not> bp \<Longrightarrow> \<not> m_last_message_strict_fifo_bypassed b3 \<Longrightarrow> m_last_arrival_time b3 \<le> arr"
    and cap: "m_max_size b3 = 0 \<or> int (length (push_heap msg_key (stamped now arr (mb_msg_counter b3) m) (m_prio_heap b3)))
        + m_stall_map_size b3 \<le> int (m_max_size b3)"
    and b': "b' = b3\<lparr>m_last_arrival_time := (if rw then m_last_arrival_time b3 else arr),
       m_last_message_strict_fifo_bypassed := bp,
       m_prio_heap := push_heap msg_key (stamped now arr (mb_msg_counter b3) m) (m_prio_heap b3),
       m_buf_msgs := m_buf_msgs b3 + 1, mb_wakeups := mb_wakeups b3 @ [WakeAt arr]\<rparr>"
    using assms unfolding mb_enqueue_def b2_def [symmetric] Let_def
    by (cases rw) (auto simp: res_iffs stamped_def not_less)
  have b3: "b3 = b2\<lparr>m_last_arrival_time := m_last_arrival_time b3\<rparr>" "m_last_arrival_time b2 \<le> m_last_arrival_time b3"
    using mb_arrival_frame [OF a] by auto
  obtain t where t: "b3 = b2\<lparr>m_last_arrival_time := t\<rparr>" "t = m_last_arrival_time b3" using b3(1) by blast
  show thesis
    by (rule that [of arr t]) (use le f cap b' b3(2) in \<open>simp_all add: t(1) b2\<close>)
qed

lemma stamped_more [simp]: "message.more (stamped now arr c m) = message.more m"
  by (simp add: stamped_def)

lemma mb_isReady_True:
  "mb_isReady now b = Inr (True, b0) \<longleftrightarrow>
     b0 = b \<and> m_time_last_time_pop b \<le> now \<and> m_prio_heap b \<noteq> [] \<and>
     m_LastEnqueueTime (hd (m_prio_heap b)) \<le> now \<and>
     (m_max_dequeue_rate b = 0 \<or> m_time_last_time_pop b < now \<or> m_dequeues_this_cy b < m_max_dequeue_rate b)"
  by (auto simp: mb_isReady_def Let_def res_iffs hd_conv_nth split: if_splits)

lemma mb_front_eq_Inr [res_iffs]: "mb_front b = Inr m \<longleftrightarrow> m_prio_heap b \<noteq> [] \<and> m = hd (m_prio_heap b)"
  by (auto simp: mb_front_def res_iffs hd_conv_nth)

text \<open>What the parts of a dequeue leave alone.\<close>

definition same_but_counts :: "'m message_buffer \<Rightarrow> 'm message_buffer \<Rightarrow> bool" where
  "same_but_counts b b' \<longleftrightarrow>
     m_prio_heap b' = m_prio_heap b \<and> m_stall_msg_map b' = m_stall_msg_map b \<and>
     m_deferred_msg_map b' = m_deferred_msg_map b \<and> m_stall_map_size b' = m_stall_map_size b \<and>
     m_consumer b' = m_consumer b \<and> m_time_last_time_enqueue b' = m_time_last_time_enqueue b \<and>
     m_msgs_this_cycle b' = m_msgs_this_cycle b \<and> m_max_size b' = m_max_size b \<and>
     m_last_arrival_time b' = m_last_arrival_time b \<and> mb_msg_counter b' = mb_msg_counter b \<and>
     m_strict_fifo b' = m_strict_fifo b \<and>
     m_last_message_strict_fifo_bypassed b' = m_last_message_strict_fifo_bypassed b"

lemma same_but_counts_trans:
  "same_but_counts a b \<Longrightarrow> same_but_counts b c \<Longrightarrow> same_but_counts a c"
  by (simp add: same_but_counts_def)

lemma mb_note_pop_frame: "same_but_counts b (mb_note_pop now b)"
  by (simp add: mb_note_pop_def same_but_counts_def Let_def)

lemma mb_note_pop_sizes:
  assumes "m_time_last_time_pop b \<le> now"
  shows "m_time_last_time_pop (mb_note_pop now b) = now"
    "m_size_at_cycle_start (mb_note_pop now b) =
      (if m_time_last_time_pop b < now then length (m_prio_heap b) else m_size_at_cycle_start b)"
    "m_stalled_at_cycle_start (mb_note_pop now b) =
       (if m_time_last_time_pop b < now then nat (m_stall_map_size b) else m_stalled_at_cycle_start b)"
  using assms by (simp_all add: mb_note_pop_def Let_def)

lemma mb_departure_frame:
  "same_but_counts b (mb_run_callback (if dec then mb_note_departure cur m b else b))"
  "m_time_last_time_pop (mb_run_callback (if dec then mb_note_departure cur m b else b)) = m_time_last_time_pop b"
  "m_size_at_cycle_start (mb_run_callback (if dec then mb_note_departure cur m b else b)) = m_size_at_cycle_start b"
  "m_stalled_at_cycle_start (mb_run_callback (if dec then mb_note_departure cur m b else b)) =
     m_stalled_at_cycle_start b"
  by (simp_all add: mb_run_callback_def mb_note_departure_def same_but_counts_def)

text \<open>What a successful dequeue did.\<close>

lemma mb_dequeue_Inr:
  assumes "mb_dequeue cur now dec b = Inr (delay, b')"
  shows "m_prio_heap b \<noteq> [] \<and> m_LastEnqueueTime (hd (m_prio_heap b)) \<le> now \<and> m_time_last_time_pop b \<le> now \<and>
    same_but_counts (b\<lparr>m_prio_heap := pop_heap msg_key (m_prio_heap b)\<rparr>) b' \<and> m_time_last_time_pop b' = now \<and>
    m_size_at_cycle_start b' = (if m_time_last_time_pop b < now then length (m_prio_heap b) else m_size_at_cycle_start b) \<and>
    m_stalled_at_cycle_start b' =
       (if m_time_last_time_pop b < now then nat (m_stall_map_size b) else m_stalled_at_cycle_start b)"
proof -
  let ?b1 = "mb_pop_heap (mb_note_pop now b)"
  obtain m1 where h: "m_prio_heap b \<noteq> []" "m_LastEnqueueTime (hd (m_prio_heap b)) \<le> now" "m_time_last_time_pop b \<le> now"
    and b': "b' = mb_run_callback (if dec then mb_note_departure cur m1 ?b1 else ?b1)"
    using assms unfolding mb_dequeue_def Let_def by (auto simp: res_iffs mb_isReady_True)
  have "same_but_counts (b\<lparr>m_prio_heap := pop_heap msg_key (m_prio_heap b)\<rparr>) ?b1"
    using mb_note_pop_frame [of b now] by (simp add: mb_pop_heap_def same_but_counts_def)
  then have "same_but_counts (b\<lparr>m_prio_heap := pop_heap msg_key (m_prio_heap b)\<rparr>) b'"
    unfolding b' by (rule same_but_counts_trans) (rule mb_departure_frame(1))
  then show ?thesis
    using h mb_note_pop_sizes [OF h(3)] unfolding b' mb_departure_frame by (simp add: mb_pop_heap_def)
qed

text \<open>Pushing a list of messages back.\<close>

lemma mb_reanalyzeList_Inr:
  assumes "mb_reanalyzeList lt t b = Inr b'"
  shows "\<exists>ws. b' = b\<lparr>m_prio_heap := fold (push_heap msg_key) lt (m_prio_heap b), mb_wakeups := ws\<rparr>"
  using assms
proof (induction lt t b rule: mb_reanalyzeList.induct)
  case (1 t b)
  then show ?case by (auto intro: exI [of _ "mb_wakeups b"])
next
  case (2 m lt t b)
  then obtain b1 where b1: "b1 = b\<lparr>m_prio_heap := push_heap msg_key m (m_prio_heap b),
      mb_wakeups := mb_wakeups b @ [WakeAt t]\<rparr>" and r: "mb_reanalyzeList lt t b1 = Inr b'"
    by (auto simp: res_iffs)
  then obtain ws where "b' = b1\<lparr>m_prio_heap := fold (push_heap msg_key) lt (m_prio_heap b1), mb_wakeups := ws\<rparr>"
    using 2(1) 2(2) by (auto simp: res_iffs)
  then show ?case unfolding b1 by auto
qed

lemma mb_reanalyze_rows_Inr:
  assumes "mb_reanalyze_rows rows t b = Inr b'"
  shows "\<exists>ws. b' = b\<lparr>m_prio_heap := fold (push_heap msg_key) (concat (map snd rows)) (m_prio_heap b),
    m_stall_map_size := m_stall_map_size b - int (size (map_msgs rows)), mb_wakeups := ws\<rparr>"
  using assms
proof (induction rows t b rule: mb_reanalyze_rows.induct)
  case (1 t b)
  then show ?case by (auto intro: exI [of _ "mb_wakeups b"])
next
  case (2 a lt rows t b)
  let ?b1 = "b\<lparr>m_stall_map_size := m_stall_map_size b - int (length lt)\<rparr>"
  obtain b2 where b2: "mb_reanalyzeList lt t ?b1 = Inr b2" "mb_reanalyze_rows rows t b2 = Inr b'"
    using 2(2) by (auto simp: res_iffs Let_def)
  then obtain ws where "b' = b2\<lparr>m_prio_heap := fold (push_heap msg_key) (concat (map snd rows)) (m_prio_heap b2),
    m_stall_map_size := m_stall_map_size b2 - int (size (map_msgs rows)), mb_wakeups := ws\<rparr>"
    using 2(1) 2(2) by (auto simp: res_iffs Let_def)
  moreover obtain ws' where "b2 = ?b1\<lparr>m_prio_heap := fold (push_heap msg_key) lt (m_prio_heap ?b1), mb_wakeups := ws'\<rparr>"
    using mb_reanalyzeList_Inr [OF b2(1)] by blast
  ultimately show ?case by (auto simp: algebra_simps)
qed

section \<open>Operations as steps\<close>

datatype 'm mb_op =
    OpEnqueue "'m message_scheme" Tick bool bool bool
  | OpDequeue Tick
  | OpRecycle Tick
  | OpStall Addr Tick
  | OpReanalyze Addr
  | OpReanalyzeAll
  | OpDefer Addr "'m message_scheme"
  | OpEnqueueDeferred Addr Tick bool bool
  | OpDelayHead Tick bool bool

text \<open>One operation at time \<open>now\<close>, with the messages it hands to the caller.\<close>

fun mb_step ::
  "Tick \<Rightarrow> 'm mb_op \<Rightarrow> 'm message_buffer \<times> rng \<Rightarrow> ('m message_scheme list \<times> 'm message_buffer \<times> rng) res" where
  "mb_step now (OpEnqueue m delta rr rw bp) (b, r) =
     bindE (mb_enqueue m now delta rr rw bp r b) (\<lambda>s. Inr ([], s))"
| "mb_step now (OpDequeue cur) (b, r) =
     bindE (mb_peek b) (\<lambda>m. bindE (mb_dequeue cur now True b) (\<lambda>(_, b1). Inr ([m], b1, r)))"
| "mb_step now (OpRecycle lat) (b, r) = bindE (mb_recycle now lat b) (\<lambda>b1. Inr ([], b1, r))"
| "mb_step now (OpStall a cur) (b, r) = bindE (mb_stallMessage a cur now b) (\<lambda>b1. Inr ([], b1, r))"
| "mb_step now (OpReanalyze a) (b, r) = bindE (mb_reanalyzeMessages a now b) (\<lambda>b1. Inr ([], b1, r))"
| "mb_step now OpReanalyzeAll (b, r) = bindE (mb_reanalyzeAllMessages now b) (\<lambda>b1. Inr ([], b1, r))"
| "mb_step now (OpDefer a m) (b, r) = Inr ([], mb_deferEnqueueingMessage a m b, r)"
| "mb_step now (OpEnqueueDeferred a delay rr rw) (b, r) =
     bindE (mb_enqueueDeferredMessages a now delay rr rw r b) (\<lambda>s. Inr ([], s))"
| "mb_step now (OpDelayHead delta rr rw) (b, r) =
     bindE (mb_delayHead now delta rr rw r b) (\<lambda>s. Inr ([], s))"

fun mb_run ::
  "(Tick \<times> 'm mb_op) list \<Rightarrow> 'm message_buffer \<times> rng \<Rightarrow> ('m message_scheme list \<times> 'm message_buffer \<times> rng) res" where
  "mb_run [] s = Inr ([], s)"
| "mb_run ((now, op) # ops) s =
     bindE (mb_step now op s) (\<lambda>(out, s1).
     bindE (mb_run ops s1) (\<lambda>(outs, s2). Inr (out @ outs, s2)))"

fun op_input :: "'m mb_op \<Rightarrow> 'm message_scheme multiset" where
  "op_input (OpEnqueue m delta rr rw bp) = {#m#}"
| "op_input (OpDefer a m) = {#m#}"
| "op_input _ = {#}"

fun ops_input :: "(Tick \<times> 'm mb_op) list \<Rightarrow> 'm message_scheme multiset" where
  "ops_input [] = {#}"
| "ops_input ((now, op) # ops) = op_input op + ops_input ops"

definition payloads :: "'m message_scheme multiset \<Rightarrow> 'm multiset" where
  "payloads M = image_mset message.more M"

lemma payloads_simps [simp]:
  "payloads {#} = {#}" "payloads (M + N) = payloads M + payloads N"
  "payloads (add_mset m M) = add_mset (message.more m) (payloads M)"
  by (simp_all add: payloads_def)

section \<open>No message is lost or duplicated\<close>

lemma mb_enqueue_keeps:
  assumes "mb_ok b" and "mb_enqueue m now delta rr rw bp r b = Inr (b', r')"
  shows "mb_ok b' \<and> payloads (held_all b') = add_mset (message.more m) (payloads (held_all b)) \<and>
    m_deferred_msg_map b' = m_deferred_msg_map b"
  by (rule mb_enqueue_Inr [OF assms(2)])
    (use assms(1) in \<open>auto simp: mb_ok_def held_all_def held_def std_heap.push_ok std_heap.push_mset\<close>)

lemma mb_dequeue_keeps:
  assumes "mb_ok b" and "mb_dequeue cur now dec b = Inr (d, b')"
  shows "mb_ok b' \<and> held_all b = add_mset (hd (m_prio_heap b)) (held_all b') \<and>
    m_LastEnqueueTime (hd (m_prio_heap b)) \<le> m_time_last_time_pop b' \<and> m_prio_heap b \<noteq> []"
proof -
  note d = mb_dequeue_Inr [OF assms(2)]
  have h: "heap_order msg_key (m_prio_heap b)" "m_prio_heap b \<noteq> []" using assms(1) d by (simp_all add: mb_ok_def)
  have "\<forall>(a, ms) \<in> set (m_stall_msg_map b). \<forall>m \<in> set ms. m_LastEnqueueTime m \<le> now"
    using assms(1) d unfolding mb_ok_def by (blast intro: order_trans)
  then have "mb_ok b'"
    using assms(1) d std_heap.pop_ok [OF h] by (simp add: mb_ok_def same_but_counts_def)
  then show ?thesis
    using d std_heap.pop_mset [OF h] by (simp add: held_all_def held_def same_but_counts_def)
qed

lemma mb_recycle_keeps:
  assumes "mb_ok b" and "mb_recycle now lat b = Inr b'"
  shows "mb_ok b' \<and> payloads (held_all b') = payloads (held_all b)"
proof -
  let ?m = "(hd (m_prio_heap b))\<lparr>m_LastEnqueueTime := now + lat\<rparr>"
  let ?h = "push_heap msg_key ?m (pop_heap msg_key (m_prio_heap b))"
  have ne: "m_prio_heap b \<noteq> []"
    and b': "b' = b\<lparr>m_prio_heap := ?h, mb_wakeups := mb_wakeups b @ [WakeAt (now + lat)]\<rparr>"
    using assms(2) by (auto simp: mb_recycle_def mb_pop_heap_def Let_def res_iffs mb_isReady_True)
  have h: "heap_order msg_key (m_prio_heap b)" using assms(1) by (simp add: mb_ok_def)
  note q = std_heap.pop_ok [OF h ne] std_heap.pop_mset [OF h ne]
  have "mb_ok b'" using assms(1) std_heap.push_ok [OF q(1)] unfolding b' by (simp add: mb_ok_def)
  moreover have "payloads (mset ?h) = payloads (mset (m_prio_heap b))"
    using std_heap.push_mset [OF q(1), of ?m] by (simp add: q(2))
  ultimately show ?thesis unfolding b' by (simp add: held_all_def held_def)
qed

lemma mb_stallMessage_keeps:
  assumes "mb_ok b" and "mb_stallMessage a cur now b = Inr b'"
  shows "mb_ok b' \<and> payloads (held_all b') = payloads (held_all b)"
proof -
  obtain d b1 m where q: "mb_dequeue cur now False b = Inr (d, b1)"
    and m: "m = (hd (m_prio_heap b))\<lparr>m_DelayedTicks := d\<rparr>"
    and b': "b' = b1\<lparr>m_stall_msg_map := map_append a m (m_stall_msg_map b1),
       m_stall_map_size := m_stall_map_size b1 + 1, m_stall_count := m_stall_count b1 + 1\<rparr>"
    using assms(2) by (auto simp: mb_stallMessage_def res_iffs mb_isReady_True)
  note k = mb_dequeue_keeps [OF assms(1) q]
  have "\<forall>(c, ms) \<in> set (map_append a m (m_stall_msg_map b1)). \<forall>x \<in> set ms. m_LastEnqueueTime x \<le> m_time_last_time_pop b1"
    using k by (intro map_append_rows) (auto simp: mb_ok_def m)
  then have "mb_ok b'"
    using k unfolding b' by (simp add: mb_ok_def map_append_wf map_append_msgs)
  then show ?thesis using k unfolding b' by (simp add: held_all_def held_def map_append_msgs m)
qed

lemma mb_reanalyzeMessages_keeps:
  assumes "mb_ok b" and "mb_reanalyzeMessages a now b = Inr b'"
  shows "mb_ok b' \<and> held_all b' = held_all b"
proof -
  obtain lt b2 where lt: "map_of (m_stall_msg_map b) a = Some lt"
    and r: "mb_reanalyzeList lt now (b\<lparr>m_stall_map_size := m_stall_map_size b - int (length lt)\<rparr>) = Inr b2"
    and b': "b' = b2\<lparr>m_stall_msg_map := map_erase a (m_stall_msg_map b2)\<rparr>"
    using assms(2) by (auto simp: mb_reanalyzeMessages_def Let_def res_iffs split: option.splits)
  obtain ws where b2: "b2 = b\<lparr>m_stall_map_size := m_stall_map_size b - int (length lt),
      m_prio_heap := fold (push_heap msg_key) lt (m_prio_heap b), mb_wakeups := ws\<rparr>"
    using mb_reanalyzeList_Inr [OF r] by auto
  have wf: "map_wf (m_stall_msg_map b)" and h: "heap_order msg_key (m_prio_heap b)"
    using assms(1) by (simp_all add: mb_ok_def)
  note e = map_erase_msgs [OF wf lt]
  have "\<forall>(c, ms) \<in> set (map_erase a (m_stall_msg_map b)). \<forall>m \<in> set ms. m_LastEnqueueTime m \<le> m_time_last_time_pop b"
    using assms(1) map_erase_subset [of a "m_stall_msg_map b"] unfolding mb_ok_def by blast
  then have "mb_ok b'"
    using assms(1) std_heap.pushes [OF h, of lt] map_erase_wf [OF wf, of a]
    unfolding b' b2 by (simp add: mb_ok_def e)
  then show ?thesis
    using std_heap.pushes [OF h, of lt] unfolding b' b2 by (simp add: held_all_def held_def e)
qed

lemma mb_reanalyzeAllMessages_keeps:
  assumes "mb_ok b" and "mb_reanalyzeAllMessages now b = Inr b'"
  shows "mb_ok b' \<and> held_all b' = held_all b"
proof -
  obtain b1 where r: "mb_reanalyze_rows (m_stall_msg_map b) now b = Inr b1" and b': "b' = b1\<lparr>m_stall_msg_map := []\<rparr>"
    using assms(2) by (auto simp: mb_reanalyzeAllMessages_def res_iffs)
  obtain ws where b1: "b1 = b\<lparr>m_prio_heap := fold (push_heap msg_key) (concat (map snd (m_stall_msg_map b))) (m_prio_heap b),
    m_stall_map_size := m_stall_map_size b - int (size (map_msgs (m_stall_msg_map b))), mb_wakeups := ws\<rparr>"
    using mb_reanalyze_rows_Inr [OF r] by blast
  have h: "heap_order msg_key (m_prio_heap b)" using assms(1) by (simp add: mb_ok_def)
  note p = std_heap.pushes [OF h, of "concat (map snd (m_stall_msg_map b))"]
  have "mb_ok b'" using assms(1) p unfolding b' b1 by (simp add: mb_ok_def map_wf_def)
  then show ?thesis using p unfolding b' b1 by (simp add: held_all_def held_def map_msgs_def)
qed

lemma mb_defer_keeps:
  assumes "mb_ok b"
  shows "mb_ok (mb_deferEnqueueingMessage a m b) \<and>
    held_all (mb_deferEnqueueingMessage a m b) = add_mset m (held_all b)"
  using assms
  by (simp add: mb_deferEnqueueingMessage_def mb_ok_def held_all_def held_def map_append_wf map_append_msgs)

lemma mb_enqueue_all_keeps:
  assumes "mb_ok b" and "mb_enqueue_all ms now delta rr rw r b = Inr (b', r')"
  shows "mb_ok b' \<and> payloads (held_all b') = payloads (mset ms) + payloads (held_all b) \<and>
    m_deferred_msg_map b' = m_deferred_msg_map b"
  using assms
proof (induction ms now delta rr rw r b rule: mb_enqueue_all.induct)
  case (2 m ms now delta rr rw r b)
  then obtain b1 r1 where e: "mb_enqueue m now delta rr rw False r b = Inr (b1, r1)"
    and r: "mb_enqueue_all ms now delta rr rw r1 b1 = Inr (b', r')"
    by (auto simp: res_iffs)
  show ?case using mb_enqueue_keeps [OF 2(2) e] 2(1) [OF e refl _ r] by simp
qed simp

lemma mb_enqueueDeferred_keeps:
  assumes "mb_ok b" and "mb_enqueueDeferredMessages a now delta rr rw r b = Inr (b', r')"
  shows "mb_ok b' \<and> payloads (held_all b') = payloads (held_all b)"
proof -
  obtain ms b1 where ms: "map_of (m_deferred_msg_map b) a = Some ms"
    and e: "mb_enqueue_all ms now delta rr rw r b = Inr (b1, r')"
    and b': "b' = b1\<lparr>m_deferred_msg_map := map_erase a (m_deferred_msg_map b1)\<rparr>"
    using assms(2) by (auto simp: mb_enqueueDeferredMessages_def res_iffs)
  note k = mb_enqueue_all_keeps [OF assms(1) e]
  have wf: "map_wf (m_deferred_msg_map b)" using assms(1) by (simp add: mb_ok_def)
  have "mb_ok b'" using k map_erase_wf [OF wf, of a] unfolding b' by (simp add: mb_ok_def)
  moreover have "payloads (held b1) = payloads (mset ms) + payloads (held b)"
    using k by (auto simp: held_all_def union_assoc [symmetric])
  ultimately show ?thesis
    using k map_erase_msgs [OF wf ms] unfolding b' by (simp add: held_all_def held_def)
qed

lemma mb_delayHead_keeps:
  assumes "mb_ok b" and "mb_delayHead now delta rr rw r b = Inr (b', r')"
  shows "mb_ok b' \<and> payloads (held_all b') = payloads (held_all b)"
proof -
  have ne: "m_prio_heap b \<noteq> []" and e: "mb_enqueue (hd (m_prio_heap b)) now delta rr rw False r (mb_pop_heap b) = Inr (b', r')"
    using assms(2) by (auto simp: mb_delayHead_def res_iffs)
  have h: "heap_order msg_key (m_prio_heap b)" using assms(1) by (simp add: mb_ok_def)
  have "mb_ok (mb_pop_heap b)" using assms(1) std_heap.pop_ok [OF h ne] by (simp add: mb_ok_def mb_pop_heap_def)
  from mb_enqueue_keeps [OF this e] show ?thesis
    using std_heap.pop_mset [OF h ne] by (auto simp: held_all_def held_def mb_pop_heap_def)
qed

lemma mb_step_keeps:
  assumes "mb_ok b" and "mb_step now op (b, r) = Inr (out, b', r')"
  shows "mb_ok b' \<and> payloads (held_all b') + payloads (mset out) = payloads (held_all b) + payloads (op_input op)"
proof (cases op)
  case (OpDequeue cur)
  then obtain d where d: "mb_dequeue cur now True b = Inr (d, b')" "out = [hd (m_prio_heap b)]"
    using assms(2) by (auto simp: res_iffs mb_peek_def)
  show ?thesis using mb_dequeue_keeps [OF assms(1) d(1)] d(2) OpDequeue by simp
qed (use assms in \<open>auto simp: res_iffs dest: mb_enqueue_keeps mb_recycle_keeps mb_stallMessage_keeps
    mb_reanalyzeMessages_keeps mb_reanalyzeAllMessages_keeps mb_enqueueDeferred_keeps mb_delayHead_keeps\<close>,
    simp_all add: mb_defer_keeps)

lemma mb_run_keeps:
  assumes "mb_ok (fst s)" and "mb_run ops s = Inr (outs, s')"
  shows "mb_ok (fst s') \<and> payloads (held_all (fst s')) + payloads (mset outs) =
    payloads (held_all (fst s)) + payloads (ops_input ops)"
  using assms
proof (induction ops s arbitrary: outs rule: mb_run.induct)
  case (2 now op ops s)
  obtain b r where s: "s = (b, r)" by (cases s)
  obtain out b1 r1 outs1 where e: "mb_step now op (b, r) = Inr (out, b1, r1)"
    and r: "mb_run ops (b1, r1) = Inr (outs1, s')" and o: "outs = out @ outs1"
    using 2(3) s by (auto simp: res_iffs)
  have "mb_ok b" using 2(2) s by simp
  note k = mb_step_keeps [OF this e]
  have "mb_ok (fst s') \<and> payloads (held_all (fst s')) + payloads (mset outs1) =
      payloads (held_all b1) + payloads (ops_input ops)"
    using 2(1) [of "(out, b1, r1)" out "(b1, r1)" outs1] k e r s by simp
  then show ?case using k s o by (simp add: union_assoc [symmetric]) (metis union_assoc union_commute)
qed simp

end
