(* ===== verification/Message_Guarantees.thy ===== *)
theory Message_Guarantees
  imports Message_Queue
begin

text \<open>
  What the message buffers guarantee to the controllers: no run loses or duplicates a message, an
  affirmative answer of \<^verbatim>\<open>areNSlotsAvailable\<close> can be relied on, and an ordered buffer is a
  first-in first-out queue.  The first two rest on invariants of every operation, the last on a
  simulation by a list.
\<close>

section \<open>The visible size\<close>

text \<open>
  Removals of the current cycle do not show in the visible size until the next cycle; the
  invariant says that the visible size is never below the number of messages held.
\<close>

definition mb_sizes_ok :: "Tick \<Rightarrow> 'm message_buffer \<Rightarrow> bool" where
  "mb_sizes_ok now b \<longleftrightarrow>
     m_time_last_time_pop b \<le> now \<and> m_time_last_time_enqueue b \<le> now \<and>
     (m_time_last_time_pop b = now \<longrightarrow>
        size (held b) \<le> m_size_at_cycle_start b + m_stalled_at_cycle_start b +
          (if m_time_last_time_enqueue b < now then 0 else m_msgs_this_cycle b))"

lemma mb_sizes_later: "mb_sizes_ok now b \<Longrightarrow> now \<le> t \<Longrightarrow> mb_sizes_ok t b"
  unfolding mb_sizes_ok_def by (cases "now = t") auto

lemma size_held: "mb_ok b \<Longrightarrow> size (held b) = length (m_prio_heap b) + nat (m_stall_map_size b)"
  by (simp add: held_def mb_ok_def)

lemma visible_size_covers: "mb_ok b \<Longrightarrow> mb_sizes_ok now b \<Longrightarrow> size (held b) \<le> visible_size now b"
  by (auto simp: mb_sizes_ok_def visible_size_def size_held split: if_splits)

text \<open>The fields the invariant reads, apart from the messages held.\<close>

definition same_sizes :: "'m message_buffer \<Rightarrow> 'm message_buffer \<Rightarrow> bool" where
  "same_sizes b b' \<longleftrightarrow>
     m_time_last_time_pop b' = m_time_last_time_pop b \<and>
     m_time_last_time_enqueue b' = m_time_last_time_enqueue b \<and>
     m_size_at_cycle_start b' = m_size_at_cycle_start b \<and>
     m_stalled_at_cycle_start b' = m_stalled_at_cycle_start b \<and> m_msgs_this_cycle b' = m_msgs_this_cycle b"

lemma mb_sizes_same:
  "mb_sizes_ok now b \<Longrightarrow> same_sizes b b' \<Longrightarrow> size (held b') \<le> size (held b) \<Longrightarrow> mb_sizes_ok now b'"
  by (auto simp: mb_sizes_ok_def same_sizes_def)

lemma held_size:
  assumes "payloads (held_all b') = payloads (held_all b)" and "m_deferred_msg_map b' = m_deferred_msg_map b"
  shows "size (held b') = size (held b)"
  using arg_cong [OF assms(1), of size] assms(2) by (simp add: payloads_def held_all_def)

lemma mb_enqueue_sizes:
  assumes "mb_ok b" and "mb_sizes_ok now b" and "mb_enqueue m now delta rr rw bp r b = Inr (b', r')"
  shows "mb_sizes_ok now b' \<and> size (held b') = size (held b) + 1 \<and> m_max_size b' = m_max_size b"
  by (rule mb_enqueue_Inr [OF assms(3)])
    (use assms(1,2) in \<open>auto simp: mb_sizes_ok_def held_def mb_ok_def std_heap.push_mset max_def split: if_splits\<close>)

lemma mb_dequeue_sizes:
  assumes "mb_ok b" and "mb_sizes_ok now b" and "mb_dequeue cur now dec b = Inr (d, b')"
  shows "mb_sizes_ok now b' \<and> size (held b) = size (held b') + 1 \<and>
    size (held b) \<le> m_size_at_cycle_start b' + m_stalled_at_cycle_start b' +
      (if m_time_last_time_enqueue b' < now then 0 else m_msgs_this_cycle b')"
proof -
  note d = mb_dequeue_Inr [OF assms(3)] note k = mb_dequeue_keeps [OF assms(1,3)]
  have "m_deferred_msg_map b' = m_deferred_msg_map b" using d by (simp add: same_but_counts_def)
  then have "size (held b) = size (held b') + 1"
    using k by (auto simp: held_all_def dest: arg_cong [where f = size])
  moreover have "size (held b) \<le> m_size_at_cycle_start b' + m_stalled_at_cycle_start b' +
      (if m_time_last_time_enqueue b' < now then 0 else m_msgs_this_cycle b')"
    using d assms(2) size_held [OF assms(1)] by (auto simp: mb_sizes_ok_def same_but_counts_def)
  ultimately show ?thesis using d assms(2) by (auto simp: mb_sizes_ok_def same_but_counts_def)
qed

lemma mb_stallMessage_sizes:
  assumes "mb_ok b" and "mb_sizes_ok now b" and "mb_stallMessage a cur now b = Inr b'"
  shows "mb_sizes_ok now b'"
proof -
  obtain d b1 m where q: "mb_dequeue cur now False b = Inr (d, b1)"
    and b': "b' = b1\<lparr>m_stall_msg_map := map_append a m (m_stall_msg_map b1),
       m_stall_map_size := m_stall_map_size b1 + 1, m_stall_count := m_stall_count b1 + 1\<rparr>"
    using assms(3) by (auto simp: mb_stallMessage_def res_iffs mb_isReady_True)
  have "size (held b') = size (held b1) + 1" unfolding b' by (simp add: held_def map_append_msgs)
  then show ?thesis
    using mb_dequeue_sizes [OF assms(1,2) q] unfolding b' by (auto simp: mb_sizes_ok_def)
qed

lemma mb_recycle_frame:
  "mb_recycle now lat b = Inr b' \<Longrightarrow> same_sizes b b' \<and> m_deferred_msg_map b' = m_deferred_msg_map b"
  by (auto simp: mb_recycle_def mb_pop_heap_def Let_def res_iffs mb_isReady_True same_sizes_def)

lemma mb_reanalyze_frame:
  "mb_reanalyzeMessages a now b = Inr b' \<Longrightarrow> same_sizes b b' \<and> m_deferred_msg_map b' = m_deferred_msg_map b"
  "mb_reanalyzeAllMessages now b = Inr b' \<Longrightarrow> same_sizes b b' \<and> m_deferred_msg_map b' = m_deferred_msg_map b"
  by (auto simp: mb_reanalyzeMessages_def mb_reanalyzeAllMessages_def Let_def res_iffs same_sizes_def
      split: option.splits dest!: mb_reanalyzeList_Inr mb_reanalyze_rows_Inr)

lemma mb_enqueue_all_sizes:
  assumes "mb_ok b" and "mb_sizes_ok now b" and "mb_enqueue_all ms now delta rr rw r b = Inr (b', r')"
  shows "mb_sizes_ok now b'"
  using assms
proof (induction ms now delta rr rw r b rule: mb_enqueue_all.induct)
  case (2 m ms now delta rr rw r b)
  then obtain b1 r1 where e: "mb_enqueue m now delta rr rw False r b = Inr (b1, r1)"
    and r: "mb_enqueue_all ms now delta rr rw r1 b1 = Inr (b', r')"
    by (auto simp: res_iffs)
  show ?case using mb_enqueue_keeps [OF 2(2) e] mb_enqueue_sizes [OF 2(2,3) e] 2(1) [OF e refl _ _ r] by simp
qed simp

lemma mb_delayHead_sizes:
  assumes "mb_ok b" and "mb_sizes_ok now b" and "mb_delayHead now delta rr rw r b = Inr (b', r')"
  shows "mb_sizes_ok now b'"
proof -
  have ne: "m_prio_heap b \<noteq> []" and e: "mb_enqueue (hd (m_prio_heap b)) now delta rr rw False r (mb_pop_heap b) = Inr (b', r')"
    using assms(3) by (auto simp: mb_delayHead_def res_iffs)
  have h: "heap_order msg_key (m_prio_heap b)" using assms(1) by (simp add: mb_ok_def)
  have ok: "mb_ok (mb_pop_heap b)" using assms(1) std_heap.pop_ok [OF h ne] by (simp add: mb_ok_def mb_pop_heap_def)
  have "size (held (mb_pop_heap b)) \<le> size (held b)"
    using std_heap.pop_mset [OF h ne] by (simp add: held_def mb_pop_heap_def)
  then have "mb_sizes_ok now (mb_pop_heap b)"
    by (rule mb_sizes_same [OF assms(2), rotated]) (simp add: same_sizes_def mb_pop_heap_def)
  from mb_enqueue_sizes [OF ok this e] show ?thesis by simp
qed

lemma mb_step_sizes:
  assumes "mb_ok b" and "mb_sizes_ok now b" and "mb_step now op (b, r) = Inr (out, b', r')"
  shows "mb_sizes_ok now b'"
proof (cases op)
  case (OpDequeue cur)
  then obtain d where "mb_dequeue cur now True b = Inr (d, b')" using assms(3) by (auto simp: res_iffs)
  then show ?thesis using mb_dequeue_sizes [OF assms(1,2)] by blast
next
  case (OpRecycle lat)
  then have e: "mb_recycle now lat b = Inr b'" using assms(3) by (auto simp: res_iffs)
  show ?thesis
    using mb_recycle_frame [OF e] mb_recycle_keeps [OF assms(1) e] held_size [of b' b]
    by (intro mb_sizes_same [OF assms(2)]) auto
next
  case (OpReanalyze a)
  then have e: "mb_reanalyzeMessages a now b = Inr b'" using assms(3) by (auto simp: res_iffs)
  show ?thesis
    using mb_reanalyze_frame(1) [OF e] mb_reanalyzeMessages_keeps [OF assms(1) e] held_size [of b' b]
    by (intro mb_sizes_same [OF assms(2)]) auto
next
  case OpReanalyzeAll
  then have e: "mb_reanalyzeAllMessages now b = Inr b'" using assms(3) by (auto simp: res_iffs)
  show ?thesis
    using mb_reanalyze_frame(2) [OF e] mb_reanalyzeAllMessages_keeps [OF assms(1) e] held_size [of b' b]
    by (intro mb_sizes_same [OF assms(2)]) auto
next
  case (OpDefer a m)
  then show ?thesis
    using assms(2,3) by (auto simp: mb_sizes_ok_def mb_deferEnqueueingMessage_def held_def)
next
  case (OpEnqueueDeferred a delay rr rw)
  then obtain ms b1 where e: "mb_enqueue_all ms now delay rr rw r b = Inr (b1, r')"
    and b': "b' = b1\<lparr>m_deferred_msg_map := map_erase a (m_deferred_msg_map b1)\<rparr>"
    using assms(3) by (auto simp: mb_enqueueDeferredMessages_def res_iffs)
  show ?thesis using mb_enqueue_all_sizes [OF assms(1,2) e] by (auto simp: b' mb_sizes_ok_def held_def)
qed (use assms in \<open>auto simp: res_iffs dest: mb_enqueue_sizes mb_stallMessage_sizes mb_delayHead_sizes\<close>)

lemma mb_run_sizes:
  assumes "mb_ok (fst s)" and "mb_sizes_ok t (fst s)" and "mb_run ops s = Inr (outs, s')"
    and "sorted (t # map fst ops)"
  shows "mb_sizes_ok (last (t # map fst ops)) (fst s')"
  using assms
proof (induction ops s arbitrary: outs t rule: mb_run.induct)
  case (2 now op ops s)
  obtain b r where s: "s = (b, r)" by (cases s)
  obtain out b1 r1 outs1 where e: "mb_step now op (b, r) = Inr (out, b1, r1)"
    and r: "mb_run ops (b1, r1) = Inr (outs1, s')"
    using 2(4) s by (auto simp: res_iffs)
  have ok: "mb_ok b" "mb_sizes_ok now b" using 2(2,3,5) s mb_sizes_later [of t b now] by auto
  have "mb_sizes_ok (last (now # map fst ops)) (fst s')"
    using 2(1) [of "(out, b1, r1)" out "(b1, r1)" now outs1] mb_step_keeps [OF ok(1) e] mb_step_sizes [OF ok e] e r s 2(5)
    by simp
  then show ?case by simp
qed simp

lemma mb_new_ok:
  assumes "setConsumer (mb_new p) = Inr b"
  shows "mb_ok b" "mb_sizes_ok 0 b" "held_all b = {#}"
  using assms
  by (auto simp: setConsumer_def mb_new_def res_iffs mb_ok_def mb_sizes_ok_def held_all_def held_def
      map_wf_def heap_order_def)

section \<open>The guarantees\<close>

text \<open>
  C19. A message buffer neither loses nor duplicates a message: after any successful sequence of enqueues,
  dequeues, recycles, stalls, reanalyses, deferrals and delays of the head, the payloads handed
  out together with those still in the heap, stalled or deferred are exactly the payloads put in.
\<close>

theorem buffer_conserves_messages:
  assumes "setConsumer (mb_new p) = Inr b" and "mb_run ops (b, r) = Inr (outs, b', r')"
  shows "payloads (mset outs) + payloads (mset (m_prio_heap b') + map_msgs (m_stall_msg_map b') +
    map_msgs (m_deferred_msg_map b')) = payloads (ops_input ops)"
  using mb_run_keeps [OF _ assms(2)] mb_new_ok [OF assms(1)]
  by (simp add: held_all_def held_def union_commute)

definition demo_buffer_params :: buffer_params where
  "demo_buffer_params = \<lparr>buffer_size = 2, max_dequeue_rate = 0, ordered = True,
     bp_randomization = RandomDisabled, allow_zero_latency = False,
     routing_priority = 0\<rparr>"

definition demo_msg :: "nat \<Rightarrow> nat message_scheme" where
  "demo_msg n = \<lparr>m_time = 0, m_LastEnqueueTime = 0, m_DelayedTicks = 0, m_msg_counter = 0, \<dots> = n\<rparr>"

definition demo_rng :: rng where
  "demo_rng = \<lparr>gen = (\<lambda>_. 0), pos = 0\<rparr>"

definition demo_buffer :: "nat message_buffer" where
  "demo_buffer = (mb_new demo_buffer_params)\<lparr>m_consumer := True\<rparr>"

lemma demo_buffer_new: "setConsumer (mb_new demo_buffer_params) = Inr demo_buffer"
  by (simp add: setConsumer_def demo_buffer_def mb_new_def)

definition demo_ops :: "(Tick \<times> nat mb_op) list" where
  "demo_ops =
     [(10, OpEnqueue (demo_msg 1) 5 False False False), (11, OpEnqueue (demo_msg 2) 5 False False False),
      (15, OpStall 64 15), (16, OpDequeue 16), (17, OpReanalyze 64), (18, OpRecycle 3)]"

theorem buffer_conserves_messages_witness:
  "\<exists>outs b' r'. mb_run demo_ops (demo_buffer, demo_rng) = Inr (outs, b', r') \<and> map message.more outs = [2] \<and>
     {#2#} + payloads (mset (m_prio_heap b') + map_msgs (m_stall_msg_map b') +
       map_msgs (m_deferred_msg_map b')) = {#1, 2#}"
proof -
  have "(case mb_run demo_ops (demo_buffer, demo_rng) of Inl _ \<Rightarrow> False | Inr (outs, _) \<Rightarrow> map message.more outs = [2])"
    by code_simp
  then obtain outs b' r' where r: "mb_run demo_ops (demo_buffer, demo_rng) = Inr (outs, b', r')"
    and o: "map message.more outs = [2]" by (auto split: sum.splits)
  have "payloads (mset outs) = {#2#}" using o by (metis mset_map mset_single_iff mset.simps payloads_def)
  moreover have "payloads (ops_input demo_ops) = {#1, 2#}"
    by (simp add: demo_ops_def demo_msg_def)
  ultimately show ?thesis
    using r o buffer_conserves_messages [OF demo_buffer_new r] by metis
qed

text \<open>The one assertion of an enqueue that speaks about the capacity.\<close>

definition capacity_error :: sim_error where
  "capacity_error = AssertFail ''(m_prio_heap.size() + m_stall_map_size) <= m_max_size''"

lemma mb_arrival_Inl: "mb_arrival now delta rr r b = Inl e \<Longrightarrow> e = AssertFail ''min <= max''"
  by (auto simp: mb_arrival_def random_time_def random_range_def Let_def bindE_eq_Inl assertE_def res_iffs
      split: if_splits)

lemma mb_enqueue_capacity:
  assumes "mb_ok b" and "m_max_size b = 0 \<or> size (held b) + 1 \<le> m_max_size b"
  shows "mb_enqueue m now delta rr rw bp r b \<noteq> Inl capacity_error"
proof
  assume f: "mb_enqueue m now delta rr rw bp r b = Inl capacity_error"
  let ?b2 = "mb_note_enqueue now b"
  obtain arr b3 r' m2 where a: "mb_arrival now delta rr r ?b2 = Inr (arr, b3, r')"
    and c: "m_max_size b3 \<noteq> 0" "\<not> int (length (push_heap msg_key m2 (m_prio_heap b3))) + m_stall_map_size b3 \<le> int (m_max_size b3)"
    using f unfolding mb_enqueue_def Let_def capacity_error_def
    by (auto simp: bindE_eq_Inl guardE_def assertE_def updateDelayedTicks_def wake_def res_iffs
        split: if_splits dest: mb_arrival_Inl)
  have b3: "m_max_size b3 = m_max_size b" "m_prio_heap b3 = m_prio_heap b" "m_stall_map_size b3 = m_stall_map_size b"
  proof -
    obtain t where "b3 = (mb_note_enqueue now b)\<lparr>m_last_arrival_time := t\<rparr>" using mb_arrival_frame [OF a] by blast
    then show "m_max_size b3 = m_max_size b" "m_prio_heap b3 = m_prio_heap b" "m_stall_map_size b3 = m_stall_map_size b"
      by (simp_all add: mb_note_enqueue_def Let_def)
  qed
  have "heap_order msg_key (m_prio_heap b)" using assms(1) by (simp add: mb_ok_def)
  then show False using assms c unfolding b3 by (auto simp: size_held mb_ok_def)
qed

lemma mb_enqueue_all_capacity:
  assumes "mb_ok b" and "mb_sizes_ok now b" and "m_max_size b = 0 \<or> size (held b) + length ms \<le> m_max_size b"
  shows "mb_enqueue_all ms now delta rr rw r b \<noteq> Inl capacity_error"
  using assms
proof (induction ms now delta rr rw r b rule: mb_enqueue_all.induct)
  case (2 m ms now delta rr rw r b)
  show ?case
  proof (cases "mb_enqueue m now delta rr rw False r b")
    case (Inl e)
    then show ?thesis using mb_enqueue_capacity [OF 2(2), of m now delta rr rw False r] 2(4) by auto
  next
    case (Inr s)
    obtain b1 r1 where s: "s = (b1, r1)" by (cases s)
    then have e: "mb_enqueue m now delta rr rw False r b = Inr (b1, r1)" using Inr by simp
    show ?thesis
      using 2(1) [OF e refl] mb_enqueue_keeps [OF 2(2) e] mb_enqueue_sizes [OF 2(2,3) e] 2(4) e by auto
  qed
qed (simp add: capacity_error_def)

text \<open>
  C21. An affirmative answer of \<^verbatim>\<open>areNSlotsAvailable\<close> can be relied on: after any successful sequence of
  operations at non-decreasing times, if the buffer reports \<open>n\<close> free slots then enqueueing \<open>n\<close>
  messages does not fail for lack of room.
\<close>

theorem slots_answer_reliable:
  assumes "setConsumer (mb_new p) = Inr b" and "mb_run ops (b, r) = Inr (outs, b', r')"
    and "sorted (map fst ops @ [now])" and "areNSlotsAvailable (length ms) now b' = (True, b'')"
  shows "mb_enqueue_all ms now delta rr rw r' b'' \<noteq> Inl capacity_error"
proof -
  note new = mb_new_ok [OF assms(1)]
  have ok: "mb_ok b'" using mb_run_keeps [OF _ assms(2)] new by simp
  have "sorted (0 # map fst ops)" using assms(3) by (simp add: sorted_append)
  from mb_run_sizes [OF _ _ assms(2) this] new have "mb_sizes_ok (last (0 # map fst ops)) b'" by simp
  moreover have "last (0 # map fst ops) \<le> now"
    using assms(3) last_in_set [of "map fst ops"] by (fastforce simp: sorted_append)
  ultimately have sz: "mb_sizes_ok now b'" by (rule mb_sizes_later)
  have "b'' = b'" "m_max_size b' = 0 \<or> visible_size now b' + length ms \<le> m_max_size b'"
    using assms(4) by (auto simp: areNSlotsAvailable_def split: if_splits)
  then show ?thesis
    using visible_size_covers [OF ok sz] by (auto intro!: mb_enqueue_all_capacity [OF ok sz])
qed

theorem slots_answer_reliable_witness:
  "\<exists>outs b' r' b''. mb_run demo_ops (demo_buffer, demo_rng) = Inr (outs, b', r') \<and>
     areNSlotsAvailable 1 20 b' = (True, b'') \<and>
     mb_enqueue_all [demo_msg 3] 20 5 False False r' b'' \<noteq> Inl capacity_error"
proof -
  have "(case mb_run demo_ops (demo_buffer, demo_rng) of Inl _ \<Rightarrow> False | Inr (_, b', _) \<Rightarrow> fst (areNSlotsAvailable 1 20 b'))"
    by code_simp
  then obtain outs b' r' where r: "mb_run demo_ops (demo_buffer, demo_rng) = Inr (outs, b', r')"
    and "fst (areNSlotsAvailable 1 20 b')" by (auto split: sum.splits)
  then obtain b'' where a: "areNSlotsAvailable 1 20 b' = (True, b'')" by (metis prod.collapse)
  have "sorted (map fst demo_ops @ [20])" by (simp add: demo_ops_def)
  from slots_answer_reliable [OF demo_buffer_new r this, of "[demo_msg 3]" b''] show ?thesis
    using r a by auto
qed

section \<open>Ordered buffers\<close>

text \<open>
  The simulation: the messages of the heap form a queue in which both the counters and the
  arrival times ascend.
\<close>

definition queue_rel :: "'m message_buffer \<Rightarrow> 'm message_scheme list \<Rightarrow> bool" where
  "queue_rel b q \<longleftrightarrow>
     m_strict_fifo b \<and> \<not> m_last_message_strict_fifo_bypassed b \<and> mset q = mset (m_prio_heap b) \<and>
     sorted_wrt (\<lambda>m m'. m_msg_counter m < m_msg_counter m' \<and> m_LastEnqueueTime m \<le> m_LastEnqueueTime m') q \<and>
     (\<forall>m \<in> set q. m_msg_counter m \<le> mb_msg_counter b \<and> m_LastEnqueueTime m \<le> m_last_arrival_time b)"

lemma queue_rel_enqueue:
  assumes "mb_ok b" and "queue_rel b q" and "unat (mb_msg_counter b) + 1 < 2 ^ 64"
    and "mb_enqueue m now delta rr False False r b = Inr (b', r')"
  shows "\<exists>m'. message.more m' = message.more m \<and> queue_rel b' (q @ [m']) \<and>
    unat (mb_msg_counter b') = unat (mb_msg_counter b) + 1"
proof -
  have c: "unat (mb_msg_counter b + 1) = unat (mb_msg_counter b) + 1"
    using assms(3) unat_add_small [of "mb_msg_counter b" 1] by simp
  then have lt: "mb_msg_counter b < mb_msg_counter b + 1" by (simp add: word_less_nat_alt)
  have h: "heap_order msg_key (m_prio_heap b)" using assms(1) by (simp add: mb_ok_def)
  show ?thesis
  proof (rule mb_enqueue_Inr [OF assms(4)])
    fix arr last1
    let ?m = "stamped now arr (mb_msg_counter b + 1) m"
    assume "m_last_arrival_time b \<le> last1"
      and "m_strict_fifo b \<Longrightarrow> \<not> False \<Longrightarrow> \<not> m_last_message_strict_fifo_bypassed b \<Longrightarrow> last1 \<le> arr"
      and b': "b' = b\<lparr>m_msgs_this_cycle := (if m_time_last_time_enqueue b < now then 1 else m_msgs_this_cycle b + 1),
       m_time_last_time_enqueue := max (m_time_last_time_enqueue b) now,
       mb_msg_counter := mb_msg_counter b + 1,
       m_last_arrival_time := (if False then last1 else arr),
       m_last_message_strict_fifo_bypassed := False,
       m_prio_heap := push_heap msg_key ?m (m_prio_heap b),
       m_buf_msgs := m_buf_msgs b + 1, mb_wakeups := mb_wakeups b @ [WakeAt arr]\<rparr>"
    then have "m_last_arrival_time b \<le> arr" using assms(2) by (auto simp: queue_rel_def)
    then have q: "\<forall>x \<in> set q. m_LastEnqueueTime x \<le> arr \<and> m_msg_counter x < mb_msg_counter b + 1"
      using assms(2) lt by (auto simp: queue_rel_def intro: order_trans le_less_trans)
    have "queue_rel b' (q @ [?m])"
      using assms(2) q std_heap.push_mset [OF h, of ?m] unfolding b'
      by (auto simp: queue_rel_def sorted_wrt_append stamped_def less_imp_le)
    then show ?thesis using c unfolding b' by (intro exI [of _ ?m]) simp
  qed
qed

lemma queue_rel_dequeue:
  assumes "mb_ok b" and "queue_rel b q" and "mb_dequeue cur now dec b = Inr (d, b')"
  shows "\<exists>q'. q = hd (m_prio_heap b) # q' \<and> queue_rel b' q' \<and> mb_msg_counter b' = mb_msg_counter b"
proof -
  note d = mb_dequeue_Inr [OF assms(3)]
  have h: "heap_order msg_key (m_prio_heap b)" "m_prio_heap b \<noteq> []" using assms(1) d by (simp_all add: mb_ok_def)
  have s: "mset q = mset (m_prio_heap b)" using assms(2) by (simp add: queue_rel_def)
  then obtain m q' where q: "q = m # q'" using h(2) by (cases q) auto
  have set: "set (m_prio_heap b) = insert m (set q')" using mset_eq_setD [OF s] q by simp
  have "\<forall>x \<in> set q'. msg_key m < msg_key x"
    using assms(2) q by (auto simp: queue_rel_def msg_key_def less_le)
  then have m: "hd (m_prio_heap b) = m"
    using set by (intro std_heap.front_unique [OF h(1)]) auto
  then have "mset q' = mset (pop_heap msg_key (m_prio_heap b))" using std_heap.pop_mset [OF h] s q by simp
  then have "queue_rel b' q'" using assms(2) d q by (simp add: queue_rel_def same_but_counts_def)
  then show ?thesis using q m d by (simp add: same_but_counts_def)
qed

fun fifo_op :: "'m mb_op \<Rightarrow> bool" where
  "fifo_op (OpEnqueue m delta rr rw bp) \<longleftrightarrow> \<not> rw \<and> \<not> bp"
| "fifo_op (OpDequeue cur) \<longleftrightarrow> True"
| "fifo_op _ \<longleftrightarrow> False"

fun enqueued :: "(Tick \<times> 'm mb_op) list \<Rightarrow> 'm message_scheme list" where
  "enqueued [] = []"
| "enqueued ((now, OpEnqueue m delta rr rw bp) # ops) = m # enqueued ops"
| "enqueued ((now, op) # ops) = enqueued ops"

lemma mb_run_queue:
  assumes "mb_ok (fst s)" and "queue_rel (fst s) q" and "mb_run ops s = Inr (outs, s')"
    and "\<forall>(t, op) \<in> set ops. fifo_op op" and "unat (mb_msg_counter (fst s)) + length ops < 2 ^ 64"
  shows "\<exists>q'. queue_rel (fst s') q' \<and>
    map message.more outs @ map message.more q' = map message.more q @ map message.more (enqueued ops)"
  using assms
proof (induction ops s arbitrary: outs q rule: mb_run.induct)
  case (2 now op ops s)
  obtain b r where s: "s = (b, r)" by (cases s)
  obtain out b1 r1 outs1 where e: "mb_step now op (b, r) = Inr (out, b1, r1)"
    and r: "mb_run ops (b1, r1) = Inr (outs1, s')" and o: "outs = out @ outs1"
    using 2(4) s by (auto simp: res_iffs)
  have ok: "mb_ok b" "queue_rel b q" using 2(2,3) s by auto
  have ok1: "mb_ok b1" using mb_step_keeps [OF ok(1) e] by simp
  note IH = 2(1) [of "(out, b1, r1)" out "(b1, r1)" _ outs1]
  show ?case
  proof (cases op)
    case (OpEnqueue m delta rr rw bp)
    then have enq: "mb_enqueue m now delta rr False False r b = Inr (b1, r1)" "out = []"
      using e 2(5) by (auto simp: res_iffs)
    have "unat (mb_msg_counter b) + 1 < 2 ^ 64" using 2(6) s by simp
    then obtain m' where m': "message.more m' = message.more m" "queue_rel b1 (q @ [m'])"
      "unat (mb_msg_counter b1) = unat (mb_msg_counter b) + 1"
      using queue_rel_enqueue [OF ok _ enq(1)] by blast
    then show ?thesis using IH [of "q @ [m']"] e r s o enq(2) ok1 2(5,6) OpEnqueue by simp
  next
    case (OpDequeue cur)
    then obtain d where d: "mb_dequeue cur now True b = Inr (d, b1)" "out = [hd (m_prio_heap b)]"
      using e by (auto simp: res_iffs mb_peek_def)
    obtain q' where "q = hd (m_prio_heap b) # q'" "queue_rel b1 q'" "mb_msg_counter b1 = mb_msg_counter b"
      using queue_rel_dequeue [OF ok d(1)] by blast
    then show ?thesis using IH [of q'] e r s o d(2) ok1 2(5,6) OpDequeue by simp
  qed (use 2(5) in simp_all)
qed auto

text \<open>
  C20. An ordered buffer is a first-in first-out queue, with or without random delays: over any successful
  sequence of fewer than \<open>2 ^ 64\<close> enqueues (without bypass, outside of warm-up) and dequeues, the
  payloads come out in the order in which they were enqueued, and those still inside follow in
  that order.
\<close>

theorem ordered_buffer_is_fifo:
  assumes "ordered p" and "setConsumer (mb_new p) = Inr b" and "mb_run ops (b, r) = Inr (outs, b', r')"
    and "\<forall>(t, op) \<in> set ops. fifo_op op" and "length ops < 2 ^ 64"
  shows "\<exists>q. mset q = mset (m_prio_heap b') \<and>
    map message.more outs @ map message.more q = map message.more (enqueued ops)"
proof -
  have b: "mb_ok b" "queue_rel b []" "mb_msg_counter b = 0"
    using assms(1,2) mb_new_ok [OF assms(2)] by (auto simp: setConsumer_def mb_new_def res_iffs queue_rel_def)
  from mb_run_queue [of "(b, r)" "[]" ops outs "(b', r')"] b assms(3-5)
  show ?thesis by (auto simp: queue_rel_def)
qed

theorem ordered_buffer_is_fifo_witness:
  "\<exists>outs b' r' q. mb_run [(10, OpEnqueue (demo_msg 1) 5 False False False),
       (11, OpEnqueue (demo_msg 2) 5 False False False), (16, OpDequeue 16)] (demo_buffer, demo_rng) =
       Inr (outs, b', r') \<and> mset q = mset (m_prio_heap b') \<and>
     map message.more outs @ map message.more q = [1, 2]"
proof -
  let ?ops = "[(10, OpEnqueue (demo_msg 1) 5 False False False),
       (11, OpEnqueue (demo_msg 2) 5 False False False), (16, OpDequeue 16)]"
  have "\<not> isl (mb_run ?ops (demo_buffer, demo_rng))" by code_simp
  then obtain outs b' r' where r: "mb_run ?ops (demo_buffer, demo_rng) = Inr (outs, b', r')"
    by (cases "mb_run ?ops (demo_buffer, demo_rng)") auto
  have "ordered demo_buffer_params" by (simp add: demo_buffer_params_def)
  from ordered_buffer_is_fifo [OF this demo_buffer_new r] show ?thesis
    using r by (auto simp: demo_msg_def)
qed

end
