(* ===== verification/Node_Set.thy ===== *)
theory Node_Set
  imports Ruby_Prelude
begin

text \<open>
  Sets of nodes of one machine type (\<^verbatim>\<open>src/gem5/src/mem/ruby/common/Set.hh\<close>): a bitset of 64 bits (the
  default of \<^verbatim>\<open>NUMBER_BITS_PER_SET\<close>) and the number of bits in use.  \<^verbatim>\<open>std::bitset\<close> throws on an
  index beyond its width; sizes and node numbers are natural numbers.
\<close>

record node_set =
  m_nSize :: nat
  ns_bits :: "64 word"

definition bits_per_set :: nat where
  "bits_per_set = 64"

definition set_setSize :: "nat \<Rightarrow> node_set res" where
  "set_setSize sz =
     bindE (guardE (sz \<le> bits_per_set) (Fatal ''Number of bits < size specified'')) (\<lambda>_.
     Inr \<lparr>m_nSize = sz, ns_bits = 0\<rparr>)"

definition set_add :: "nat \<Rightarrow> node_set \<Rightarrow> node_set res" where
  "set_add index s =
     bindE (guardE (index < bits_per_set) OutOfRange) (\<lambda>_.
     Inr (s\<lparr>ns_bits := set_bit index (ns_bits s)\<rparr>))"

definition set_addSet :: "node_set \<Rightarrow> node_set \<Rightarrow> node_set res" where
  "set_addSet obj s =
     bindE (assertE (m_nSize s = m_nSize obj) ''m_nSize == obj.m_nSize'') (\<lambda>_.
     Inr (s\<lparr>ns_bits := ns_bits s OR ns_bits obj\<rparr>))"

definition set_remove :: "nat \<Rightarrow> node_set \<Rightarrow> node_set res" where
  "set_remove index s =
     bindE (guardE (index < bits_per_set) OutOfRange) (\<lambda>_.
     Inr (s\<lparr>ns_bits := unset_bit index (ns_bits s)\<rparr>))"

definition set_removeSet :: "node_set \<Rightarrow> node_set \<Rightarrow> node_set res" where
  "set_removeSet obj s =
     bindE (assertE (m_nSize s = m_nSize obj) ''m_nSize == obj.m_nSize'') (\<lambda>_.
     Inr (s\<lparr>ns_bits := ns_bits s AND NOT (ns_bits obj)\<rparr>))"

definition set_clear :: "node_set \<Rightarrow> node_set" where
  "set_clear s = s\<lparr>ns_bits := 0\<rparr>"

definition set_broadcast :: "node_set \<Rightarrow> node_set" where
  "set_broadcast s = s\<lparr>ns_bits := fold unset_bit [m_nSize s..<bits_per_set] (- 1)\<rparr>"

definition set_count :: "node_set \<Rightarrow> nat" where
  "set_count s = length (filter (bit (ns_bits s)) [0..<bits_per_set])"

definition set_isEqual :: "node_set \<Rightarrow> node_set \<Rightarrow> bool res" where
  "set_isEqual obj s =
     bindE (assertE (m_nSize s = m_nSize obj) ''m_nSize == obj.m_nSize'') (\<lambda>_.
     Inr (ns_bits s = ns_bits obj))"

definition set_OR :: "node_set \<Rightarrow> node_set \<Rightarrow> node_set res" where
  "set_OR obj s =
     bindE (assertE (m_nSize s = m_nSize obj) ''m_nSize == obj.m_nSize'') (\<lambda>_.
     bindE (set_setSize (m_nSize s)) (\<lambda>r. Inr (r\<lparr>ns_bits := ns_bits s OR ns_bits obj\<rparr>)))"

definition set_AND :: "node_set \<Rightarrow> node_set \<Rightarrow> node_set res" where
  "set_AND obj s =
     bindE (assertE (m_nSize s = m_nSize obj) ''m_nSize == obj.m_nSize'') (\<lambda>_.
     bindE (set_setSize (m_nSize s)) (\<lambda>r. Inr (r\<lparr>ns_bits := ns_bits s AND ns_bits obj\<rparr>)))"

definition set_intersectionIsEmpty :: "node_set \<Rightarrow> node_set \<Rightarrow> bool" where
  "set_intersectionIsEmpty obj s \<longleftrightarrow> ns_bits s AND ns_bits obj = 0"

definition set_isSuperset :: "node_set \<Rightarrow> node_set \<Rightarrow> bool res" where
  "set_isSuperset test s =
     bindE (assertE (m_nSize s = m_nSize test) ''m_nSize == test.m_nSize'') (\<lambda>_.
     Inr (ns_bits s OR ns_bits test = ns_bits s))"

definition set_isSubset :: "node_set \<Rightarrow> node_set \<Rightarrow> bool res" where
  "set_isSubset test s = set_isSuperset s test"

definition set_isElement :: "nat \<Rightarrow> node_set \<Rightarrow> bool res" where
  "set_isElement i s =
     bindE (guardE (i < bits_per_set) OutOfRange) (\<lambda>_. Inr (bit (ns_bits s) i))"

definition set_isBroadcast :: "node_set \<Rightarrow> bool" where
  "set_isBroadcast s \<longleftrightarrow> set_count s = m_nSize s"

definition set_isEmpty :: "node_set \<Rightarrow> bool" where
  "set_isEmpty s \<longleftrightarrow> ns_bits s = 0"

fun first_element :: "node_set \<Rightarrow> nat list \<Rightarrow> nat option res" where
  "first_element s [] = Inr None"
| "first_element s (i # is) =
     bindE (set_isElement i s) (\<lambda>b. if b then Inr (Some i) else first_element s is)"

definition set_smallestElement :: "node_set \<Rightarrow> nat res" where
  "set_smallestElement s =
     bindE (first_element s [0..<m_nSize s]) (\<lambda>r. case r of
       Some i \<Rightarrow> Inr i
     | None \<Rightarrow> Inl (Panic ''No smallest element of an empty set.''))"

definition set_elementAt :: "nat \<Rightarrow> node_set \<Rightarrow> bool res" where
  "set_elementAt i s = bindE (guardE (i < bits_per_set) OutOfRange) (\<lambda>_. Inr (bit (ns_bits s) i))"

section \<open>As sets of numbers\<close>

definition elems :: "node_set \<Rightarrow> nat set" where
  "elems s = {i. bit (ns_bits s) i}"

definition ns_wf :: "node_set \<Rightarrow> bool" where
  "ns_wf s \<longleftrightarrow> m_nSize s \<le> 64 \<and> elems s \<subseteq> {..<m_nSize s}"

lemma bits_per_set [simp]: "bits_per_set = 64"
  by (simp add: bits_per_set_def)

lemma elems_less: "i \<in> elems s \<Longrightarrow> i < 64"
  by (auto simp: elems_def dest: bit_imp_le_length)

lemma finite_elems [simp]: "finite (elems s)"
  by (rule finite_subset [of _ "{..<64}"]) (auto dest: elems_less)

lemma elems_eq_iff: "elems s = elems t \<longleftrightarrow> ns_bits s = ns_bits t"
  by (auto simp: elems_def set_eq_iff intro: bit_word_eqI)

lemma elems_empty_iff: "elems s = {} \<longleftrightarrow> ns_bits s = 0"
  using elems_eq_iff [of s "s\<lparr>ns_bits := 0\<rparr>"] by (simp add: elems_def)

named_theorems ns_elems \<open>the elements of a node set after an operation\<close>

lemma elems_upd [ns_elems]:
  "elems (s\<lparr>ns_bits := 0\<rparr>) = {}" "elems (s\<lparr>ns_bits := ns_bits a OR ns_bits b\<rparr>) = elems a \<union> elems b"
  "elems (s\<lparr>ns_bits := ns_bits a AND ns_bits b\<rparr>) = elems a \<inter> elems b"
  by (auto simp: elems_def bit_simps)

lemma elems_diff [ns_elems]:
  "elems (s\<lparr>ns_bits := ns_bits a AND NOT (ns_bits b)\<rparr>) = elems a - elems b"
proof -
  have "i < 64" if "bit (ns_bits a) i" for i using bit_imp_le_length [OF that] by simp
  then show ?thesis by (auto simp: elems_def bit_simps)
qed

lemma elems_set_bit [ns_elems]:
  "i < 64 \<Longrightarrow> elems (s\<lparr>ns_bits := set_bit i (ns_bits s)\<rparr>) = insert i (elems s)"
  "elems (s\<lparr>ns_bits := unset_bit i (ns_bits s)\<rparr>) = elems s - {i}"
  by (auto simp: elems_def bit_simps)

lemma set_count_card: "set_count s = card (elems s)"
proof -
  have "elems s = set (filter (bit (ns_bits s)) [0..<64])"
    by (auto simp: elems_def dest: bit_imp_le_length)
  moreover have "distinct (filter (bit (ns_bits s)) [0..<64])" by simp
  ultimately show ?thesis by (simp only: set_count_def bits_per_set distinct_card)
qed

lemma fold_unset_bit: "bit (fold unset_bit is w) i \<longleftrightarrow> bit (w :: 64 word) i \<and> i \<notin> set is"
  by (induction "is" arbitrary: w) (auto simp: bit_simps)

lemma elems_broadcast: "m_nSize s \<le> 64 \<Longrightarrow> elems (set_broadcast s) = {..<m_nSize s}"
  by (auto simp: elems_def set_broadcast_def fold_unset_bit)

lemma first_element_Inr:
  assumes "\<forall>i \<in> set is. i < 64"
  shows "first_element s is = Inr (find (\<lambda>i. i \<in> elems s) is)"
  using assms by (induction "is") (auto simp: set_isElement_def elems_def)

lemma find_upt_Min:
  assumes "A \<subseteq> {..<n}" and "A \<noteq> {}"
  shows "find (\<lambda>i. i \<in> A) [0..<n] = Some (Min A)"
proof -
  have fin: "finite A" using assms(1) finite_subset by blast
  have m: "Min A \<in> A" "Min A < n" using Min_in [OF fin assms(2)] assms(1) by auto
  have "\<forall>j < Min A. j \<notin> A" using fin by (meson Min_le leD)
  then show ?thesis
    using m by (auto simp: find_Some_iff intro!: exI [of _ "Min A"])
qed

lemma smallestElement_Min:
  assumes "ns_wf s" and "elems s \<noteq> {}"
  shows "set_smallestElement s = Inr (Min (elems s))"
proof -
  have "\<forall>i \<in> set [0..<m_nSize s]. i < 64" using assms(1) by (auto simp: ns_wf_def)
  from first_element_Inr [OF this, of s] show ?thesis
    using find_upt_Min [of "elems s" "m_nSize s"] assms by (simp add: set_smallestElement_def ns_wf_def)
qed

end
