(* ===== verification/Net_Dest.thy ===== *)
theory Net_Dest
  imports Node_Set
begin

text \<open>
  Destination sets (\<^verbatim>\<open>src/gem5/src/mem/ruby/common/NetDest.cc\<close>): one node set per machine type.  The
  coherence protocols keep their sharers and the destinations of their messages in them.

  \<^verbatim>\<open>MachineType\<close> and its numbering are generated from the enumeration of
  \<^verbatim>\<open>src/gem5/src/mem/ruby/protocol/RubySlicc_Exports.sm\<close>: \<open>base_level\<close> is the position in that
  enumeration.  The number of controllers of each type is part of the Ruby system and is the
  pointee of \<open>m_ruby_system\<close>.
\<close>

datatype machine_type =
    L0Cache | L1Cache | L2Cache | L3Cache | Directory | DMA | Collector | L1Cache_wCC | L2Cache_wCC
  | CorePair | TCP | TCC | TCCdir | SQC | RegionDir | RegionBuffer | Cache | Memory | MiscNode
  | MachineType_NULL | MachineType_NUM

definition machine_types :: "machine_type list" where
  "machine_types =
     [L0Cache, L1Cache, L2Cache, L3Cache, Directory, DMA, Collector, L1Cache_wCC, L2Cache_wCC,
      CorePair, TCP, TCC, TCCdir, SQC, RegionDir, RegionBuffer, Cache, Memory, MiscNode,
      MachineType_NULL]"

fun base_level :: "machine_type \<Rightarrow> nat" where
  "base_level L0Cache = 0" | "base_level L1Cache = 1" | "base_level L2Cache = 2"
| "base_level L3Cache = 3" | "base_level Directory = 4" | "base_level DMA = 5"
| "base_level Collector = 6" | "base_level L1Cache_wCC = 7" | "base_level L2Cache_wCC = 8"
| "base_level CorePair = 9" | "base_level TCP = 10" | "base_level TCC = 11"
| "base_level TCCdir = 12" | "base_level SQC = 13" | "base_level RegionDir = 14"
| "base_level RegionBuffer = 15" | "base_level Cache = 16" | "base_level Memory = 17"
| "base_level MiscNode = 18" | "base_level MachineType_NULL = 19" | "base_level MachineType_NUM = 20"

definition from_base_level :: "nat \<Rightarrow> machine_type res" where
  "from_base_level i =
     (if i < 20 then Inr (machine_types ! i) else Inl (Panic ''Invalid value for type MachineType''))"

definition base_number :: "(machine_type \<Rightarrow> nat) \<Rightarrow> nat \<Rightarrow> nat" where
  "base_number counts i = sum_list (map counts (take i machine_types))"

record machine_id =
  mid_type :: machine_type
  mid_num :: nat

record net_dest =
  m_bits :: "node_set list"
  m_ruby_system :: "(machine_type \<Rightarrow> nat) option"

definition nd_default :: net_dest where
  "nd_default = \<lparr>m_bits = [], m_ruby_system = None\<rparr>"

section \<open>Loops over the vector\<close>

fun all_res :: "('a \<Rightarrow> bool res) \<Rightarrow> 'a list \<Rightarrow> bool res" where
  "all_res p [] = Inr True"
| "all_res p (x # xs) = bindE (p x) (\<lambda>b. if b then all_res p xs else Inr False)"

definition nd_zip :: "net_dest \<Rightarrow> net_dest \<Rightarrow> (node_set \<times> node_set) list res" where
  "nd_zip other nd =
     bindE (assertE (0 < length (m_bits nd)) ''m_bits.size() > 0'') (\<lambda>_.
     bindE (assertE (length (m_bits nd) = length (m_bits other)) ''m_bits.size() == netDest.getSize()'') (\<lambda>_.
     Inr (zip (m_bits nd) (m_bits other))))"

section \<open>Operations\<close>

definition nd_resize :: "net_dest \<Rightarrow> net_dest res" where
  "nd_resize nd =
     (case m_ruby_system nd of
        None \<Rightarrow> Inl (AssertFail ''m_ruby_system != nullptr'')
      | Some counts \<Rightarrow>
          bindE (mapE (\<lambda>t. set_setSize (counts t)) machine_types) (\<lambda>ss.
          Inr (nd\<lparr>m_bits := ss\<rparr>)))"

definition nd_setRubySystem :: "(machine_type \<Rightarrow> nat) \<Rightarrow> net_dest \<Rightarrow> net_dest res" where
  "nd_setRubySystem counts nd = nd_resize (nd\<lparr>m_ruby_system := Some counts\<rparr>)"

definition nd_new :: "(machine_type \<Rightarrow> nat) \<Rightarrow> net_dest res" where
  "nd_new counts = nd_resize (nd_default\<lparr>m_ruby_system := Some counts\<rparr>)"

definition vecIndex :: "machine_id \<Rightarrow> net_dest \<Rightarrow> nat res" where
  "vecIndex m nd =
     bindE (assertE (base_level (mid_type m) < length (m_bits nd)) ''vec_index < m_bits.size()'') (\<lambda>_.
     Inr (base_level (mid_type m)))"

definition nd_add :: "machine_id \<Rightarrow> net_dest \<Rightarrow> net_dest res" where
  "nd_add m nd =
     bindE (assertE (0 < length (m_bits nd)) ''m_bits.size() > 0'') (\<lambda>_.
     bindE (vecIndex m nd) (\<lambda>v.
     bindE (assertE (mid_num m < m_nSize (m_bits nd ! v)) ''bitIndex(newElement.num) < getSize()'') (\<lambda>_.
     bindE (set_add (mid_num m) (m_bits nd ! v)) (\<lambda>s.
     Inr (nd\<lparr>m_bits := (m_bits nd)[v := s]\<rparr>)))))"

definition nd_addNetDest :: "net_dest \<Rightarrow> net_dest \<Rightarrow> net_dest res" where
  "nd_addNetDest other nd =
     bindE (nd_zip other nd) (\<lambda>ps.
     bindE (mapE (\<lambda>(s, t). set_addSet t s) ps) (\<lambda>ss. Inr (nd\<lparr>m_bits := ss\<rparr>)))"

definition nd_setNetDest :: "machine_type \<Rightarrow> node_set \<Rightarrow> net_dest \<Rightarrow> net_dest res" where
  "nd_setNetDest machine s nd =
     bindE (assertE (m_ruby_system nd \<noteq> None) ''m_ruby_system != nullptr'') (\<lambda>_.
     bindE (guardE (base_level machine < 20) (Panic ''Invalid value for type MachineType'')) (\<lambda>_.
     bindE (updE (m_bits nd) (base_level machine) s) (\<lambda>ss. Inr (nd\<lparr>m_bits := ss\<rparr>))))"

definition nd_remove :: "machine_id \<Rightarrow> net_dest \<Rightarrow> net_dest res" where
  "nd_remove m nd =
     bindE (assertE (0 < length (m_bits nd)) ''m_bits.size() > 0'') (\<lambda>_.
     bindE (vecIndex m nd) (\<lambda>v.
     bindE (set_remove (mid_num m) (m_bits nd ! v)) (\<lambda>s.
     Inr (nd\<lparr>m_bits := (m_bits nd)[v := s]\<rparr>))))"

definition nd_removeNetDest :: "net_dest \<Rightarrow> net_dest \<Rightarrow> net_dest res" where
  "nd_removeNetDest other nd =
     bindE (nd_zip other nd) (\<lambda>ps.
     bindE (mapE (\<lambda>(s, t). set_removeSet t s) ps) (\<lambda>ss. Inr (nd\<lparr>m_bits := ss\<rparr>)))"

definition nd_clear :: "net_dest \<Rightarrow> net_dest res" where
  "nd_clear nd =
     bindE (assertE (0 < length (m_bits nd)) ''m_bits.size() > 0'') (\<lambda>_.
     Inr (nd\<lparr>m_bits := map set_clear (m_bits nd)\<rparr>))"

fun add_all :: "machine_id list \<Rightarrow> net_dest \<Rightarrow> net_dest res" where
  "add_all [] nd = Inr nd"
| "add_all (m # ms) nd = bindE (nd_add m nd) (add_all ms)"

definition nd_broadcast_type :: "machine_type \<Rightarrow> net_dest \<Rightarrow> net_dest res" where
  "nd_broadcast_type machine nd =
     (case m_ruby_system nd of
        None \<Rightarrow> Inl (AssertFail ''m_ruby_system != nullptr'')
      | Some counts \<Rightarrow>
          add_all (map (\<lambda>i. \<lparr>mid_type = machine, mid_num = i\<rparr>) [0..<counts machine]) nd)"

fun broadcast_types :: "machine_type list \<Rightarrow> net_dest \<Rightarrow> net_dest res" where
  "broadcast_types [] nd = Inr nd"
| "broadcast_types (t # ts) nd = bindE (nd_broadcast_type t nd) (broadcast_types ts)"

definition nd_broadcast :: "net_dest \<Rightarrow> net_dest res" where
  "nd_broadcast nd = broadcast_types machine_types nd"

definition nd_getAllDest :: "net_dest \<Rightarrow> nat list res" where
  "nd_getAllDest nd =
     (case m_ruby_system nd of
        None \<Rightarrow> Inl (AssertFail ''m_ruby_system != nullptr'')
      | Some counts \<Rightarrow>
          bindE (assertE (0 < length (m_bits nd)) ''m_bits.size() > 0'') (\<lambda>_.
          Inr (concat (map (\<lambda>i. map (\<lambda>j. base_number counts i + j)
            (filter (\<lambda>j. bit (ns_bits (m_bits nd ! i)) j) [0..<m_nSize (m_bits nd ! i)]))
            [0..<length (m_bits nd)]))))"

definition nd_count :: "net_dest \<Rightarrow> nat res" where
  "nd_count nd =
     bindE (assertE (0 < length (m_bits nd)) ''m_bits.size() > 0'') (\<lambda>_.
     Inr (sum_list (map set_count (m_bits nd))))"

definition nd_elementAt :: "machine_id \<Rightarrow> net_dest \<Rightarrow> bool res" where
  "nd_elementAt m nd =
     bindE (assertE (0 < length (m_bits nd)) ''m_bits.size() > 0'') (\<lambda>_.
     bindE (vecIndex m nd) (\<lambda>v. set_elementAt (mid_num m) (m_bits nd ! v)))"

fun smallest_from :: "(nat \<times> node_set) list \<Rightarrow> machine_id res" where
  "smallest_from [] = Inl (Panic ''No smallest element of an empty set.'')"
| "smallest_from ((i, s) # ss) =
     bindE (first_element s [0..<m_nSize s]) (\<lambda>r. case r of
       Some j \<Rightarrow> bindE (from_base_level i) (\<lambda>t. Inr \<lparr>mid_type = t, mid_num = j\<rparr>)
     | None \<Rightarrow> smallest_from ss)"

definition nd_smallestElement :: "net_dest \<Rightarrow> machine_id res" where
  "nd_smallestElement nd =
     bindE (assertE (0 < length (m_bits nd)) ''m_bits.size() > 0'') (\<lambda>_.
     bindE (nd_count nd) (\<lambda>n.
     bindE (assertE (0 < n) ''count() > 0'') (\<lambda>_.
     smallest_from (enumerate 0 (m_bits nd)))))"

definition nd_smallestElement_type :: "machine_type \<Rightarrow> net_dest \<Rightarrow> machine_id res" where
  "nd_smallestElement_type machine nd =
     bindE (assertE (0 < length (m_bits nd)) ''m_bits.size() > 0'') (\<lambda>_.
     bindE (assertE (m_ruby_system nd \<noteq> None) ''m_ruby_system != nullptr'') (\<lambda>_.
     bindE (nthE (m_bits nd) (base_level machine)) (\<lambda>s.
     bindE (first_element s [0..<m_nSize s]) (\<lambda>r. case r of
       Some j \<Rightarrow> Inr \<lparr>mid_type = machine, mid_num = j\<rparr>
     | None \<Rightarrow> Inl (Panic ''No smallest element of given MachineType.'')))))"

definition nd_isBroadcast :: "net_dest \<Rightarrow> bool res" where
  "nd_isBroadcast nd =
     bindE (assertE (0 < length (m_bits nd)) ''m_bits.size() > 0'') (\<lambda>_.
     Inr (list_all set_isBroadcast (m_bits nd)))"

definition nd_isEmpty :: "net_dest \<Rightarrow> bool res" where
  "nd_isEmpty nd =
     bindE (assertE (0 < length (m_bits nd)) ''m_bits.size() > 0'') (\<lambda>_.
     Inr (list_all set_isEmpty (m_bits nd)))"

text \<open>The result of \<^verbatim>\<open>OR\<close> and \<^verbatim>\<open>AND\<close> is built over the sets of a fresh \<^verbatim>\<open>NetDest(m_ruby_system)\<close>.\<close>

definition nd_binop ::
  "(node_set \<Rightarrow> node_set \<Rightarrow> node_set res) \<Rightarrow> net_dest \<Rightarrow> net_dest \<Rightarrow> net_dest res" where
  "nd_binop f other nd =
     bindE (nd_zip other nd) (\<lambda>ps.
     bindE (nd_resize (nd_default\<lparr>m_ruby_system := m_ruby_system nd\<rparr>)) (\<lambda>result.
     bindE (mapE (\<lambda>(s, t). f t s) ps) (\<lambda>ss.
     bindE (guardE (length ss \<le> length (m_bits result)) OutOfRange) (\<lambda>_.
     Inr (result\<lparr>m_bits := ss @ drop (length ss) (m_bits result)\<rparr>)))))"

definition nd_OR :: "net_dest \<Rightarrow> net_dest \<Rightarrow> net_dest res" where
  "nd_OR other nd = nd_binop set_OR other nd"

definition nd_AND :: "net_dest \<Rightarrow> net_dest \<Rightarrow> net_dest res" where
  "nd_AND other nd = nd_binop set_AND other nd"

definition nd_intersectionIsNotEmpty :: "net_dest \<Rightarrow> net_dest \<Rightarrow> bool res" where
  "nd_intersectionIsNotEmpty other nd =
     bindE (nd_zip other nd) (\<lambda>ps.
     Inr (\<not> list_all (\<lambda>(s, t). set_intersectionIsEmpty t s) ps))"

definition nd_isSuperset :: "net_dest \<Rightarrow> net_dest \<Rightarrow> bool res" where
  "nd_isSuperset test nd =
     bindE (nd_zip test nd) (\<lambda>ps. all_res (\<lambda>(s, t). set_isSuperset t s) ps)"

definition nd_isSubset :: "net_dest \<Rightarrow> net_dest \<Rightarrow> bool res" where
  "nd_isSubset test nd = nd_isSuperset nd test"

definition nd_isEqual :: "net_dest \<Rightarrow> net_dest \<Rightarrow> bool res" where
  "nd_isEqual other nd =
     bindE (nd_zip other nd) (\<lambda>ps. all_res (\<lambda>(s, t). set_isEqual t s) ps)"

definition nd_isElement :: "machine_id \<Rightarrow> net_dest \<Rightarrow> bool res" where
  "nd_isElement m nd =
     bindE (assertE (0 < length (m_bits nd)) ''m_bits.size() > 0'') (\<lambda>_.
     bindE (vecIndex m nd) (\<lambda>v. set_isElement (mid_num m) (m_bits nd ! v)))"

section \<open>As sets of machines\<close>

definition machines :: "(machine_type \<Rightarrow> nat) \<Rightarrow> machine_id set" where
  "machines counts = {m. mid_type m \<noteq> MachineType_NUM \<and> mid_num m < counts (mid_type m)}"

definition nodes :: "net_dest \<Rightarrow> machine_id set" where
  "nodes nd = {m. base_level (mid_type m) < length (m_bits nd) \<and> mid_num m \<in> elems (m_bits nd ! base_level (mid_type m))}"

definition small_system :: "(machine_type \<Rightarrow> nat) \<Rightarrow> bool" where
  "small_system counts \<longleftrightarrow> list_all (\<lambda>t. counts t \<le> 64) machine_types"

definition nd_wf :: "(machine_type \<Rightarrow> nat) \<Rightarrow> net_dest \<Rightarrow> bool" where
  "nd_wf counts nd \<longleftrightarrow>
     m_ruby_system nd = Some counts \<and> small_system counts \<and> length (m_bits nd) = 20 \<and>
     (\<forall>i < 20. m_nSize (m_bits nd ! i) = counts (machine_types ! i) \<and> ns_wf (m_bits nd ! i))"

lemma machine_types_length [simp]: "length machine_types = 20"
  by (simp add: machine_types_def)

lemma base_level_less: "base_level t < 20 \<longleftrightarrow> t \<noteq> MachineType_NUM"
  by (cases t) auto

lemma machine_types_base_level: "t \<noteq> MachineType_NUM \<Longrightarrow> machine_types ! base_level t = t"
  by (cases t) (simp_all add: machine_types_def)

lemma base_level_machine_types:
  assumes "i < 20"
  shows "base_level (machine_types ! i) = i"
proof -
  have "\<forall>i \<in> set [0..<20]. base_level (machine_types ! i) = i"
    by (simp add: machine_types_def upt_rec)
  then show ?thesis using assms by simp
qed

lemma machine_types_NUM: "i < 20 \<Longrightarrow> machine_types ! i \<noteq> MachineType_NUM"
  using base_level_machine_types [of i] by (cases "machine_types ! i") auto

lemma machine_types_inj: "i < 20 \<Longrightarrow> j < 20 \<Longrightarrow> machine_types ! i = machine_types ! j \<longleftrightarrow> i = j"
  by (metis base_level_machine_types)

lemma base_level_inj: "base_level t = base_level u \<longleftrightarrow> t = u"
  by (metis base_level_less machine_types_base_level)

lemma nodes_wf: "nd_wf counts nd \<Longrightarrow>
    nodes nd = {m. mid_type m \<noteq> MachineType_NUM \<and> mid_num m \<in> elems (m_bits nd ! base_level (mid_type m))}"
  by (simp add: nodes_def nd_wf_def base_level_less)

lemma nd_level:
  assumes "nd_wf counts nd" and "i < 20"
  shows "m_nSize (m_bits nd ! i) = counts (machine_types ! i)" "counts (machine_types ! i) \<le> 64"
    "ns_wf (m_bits nd ! i)" "elems (m_bits nd ! i) \<subseteq> {..<counts (machine_types ! i)}" "length (m_bits nd) = 20"
proof -
  have "m_nSize (m_bits nd ! i) = counts (machine_types ! i) \<and> ns_wf (m_bits nd ! i) \<and> length (m_bits nd) = 20"
    using assms by (simp add: nd_wf_def)
  then show "m_nSize (m_bits nd ! i) = counts (machine_types ! i)" "counts (machine_types ! i) \<le> 64"
    "ns_wf (m_bits nd ! i)" "elems (m_bits nd ! i) \<subseteq> {..<counts (machine_types ! i)}" "length (m_bits nd) = 20"
    by (auto simp: ns_wf_def)
qed

lemma nd_level_type:
  assumes "nd_wf counts nd" and "t \<noteq> MachineType_NUM"
  shows "m_nSize (m_bits nd ! base_level t) = counts t" "counts t \<le> 64"
    "ns_wf (m_bits nd ! base_level t)" "elems (m_bits nd ! base_level t) \<subseteq> {..<counts t}"
    "base_level t < length (m_bits nd)" "m_bits nd \<noteq> []"
  using nd_level [OF assms(1), of "base_level t"] assms(2)
  by (auto simp: base_level_less machine_types_base_level)

lemma nodes_machines: "nd_wf counts nd \<Longrightarrow> nodes nd \<subseteq> machines counts"
  using nd_level_type(4) by (fastforce simp: nodes_wf machines_def)

text \<open>The elements at one level are the machines of that type.\<close>

lemma elems_level:
  assumes "nd_wf counts nd" and "i < 20"
  shows "elems (m_bits nd ! i) = {j. \<lparr>mid_type = machine_types ! i, mid_num = j\<rparr> \<in> nodes nd}"
  using assms by (simp add: nodes_wf base_level_machine_types machine_types_NUM)

text \<open>Building a result level by level.\<close>

lemma nd_levels:
  assumes "nd_wf counts nd" and "length ss = 20"
    and "\<And>i. i < 20 \<Longrightarrow> m_nSize (ss ! i) = counts (machine_types ! i) \<and> elems (ss ! i) = E i"
    and "\<And>i. i < 20 \<Longrightarrow> E i \<subseteq> {..<counts (machine_types ! i)}"
  shows "nd_wf counts (nd\<lparr>m_bits := ss\<rparr>) \<and>
    nodes (nd\<lparr>m_bits := ss\<rparr>) = {m. mid_type m \<noteq> MachineType_NUM \<and> mid_num m \<in> E (base_level (mid_type m))}"
proof -
  have "ns_wf (ss ! i)" if "i < 20" for i
    using nd_level(2) [OF assms(1) that] assms(3,4) [OF that] by (simp add: ns_wf_def)
  then have wf: "nd_wf counts (nd\<lparr>m_bits := ss\<rparr>)" using assms by (simp add: nd_wf_def)
  show ?thesis using wf nodes_wf [OF wf] assms(3) base_level_less by auto
qed

lemma mapE_index:
  assumes "\<And>i. i < length xs \<Longrightarrow> f (xs ! i) = Inr (g i)"
  shows "mapE f xs = Inr (map g [0..<length xs])"
  using assms
proof (induction xs arbitrary: g)
  case (Cons x xs)
  have "mapE f xs = Inr (map (g \<circ> Suc) [0..<length xs])"
    using Cons.prems [of "Suc _"] by (intro Cons.IH) simp
  moreover have "f x = Inr (g 0)" using Cons.prems [of 0] by simp
  ultimately show ?case by (simp add: upt_conv_Cons map_Suc_upt [symmetric] del: upt_Suc)
qed simp

lemma all_res_Inr:
  assumes "\<And>x. x \<in> set xs \<Longrightarrow> f x = Inr (p x)"
  shows "all_res f xs = Inr (list_all p xs)"
  using assms by (induction xs) auto

lemma nd_resize_wf:
  assumes "small_system counts" and "m_ruby_system nd = Some counts"
  shows "\<exists>nd'. nd_resize nd = Inr nd' \<and> nd_wf counts nd' \<and> nodes nd' = {}"
proof -
  let ?g = "\<lambda>i. \<lparr>m_nSize = counts (machine_types ! i), ns_bits = 0\<rparr>"
  have "mapE (\<lambda>t. set_setSize (counts t)) machine_types = Inr (map ?g [0..<length machine_types])"
    using assms(1) by (intro mapE_index) (simp add: small_system_def list_all_length set_setSize_def)
  moreover have "nd_wf counts (nd\<lparr>m_bits := map ?g [0..<20]\<rparr>)" "nodes (nd\<lparr>m_bits := map ?g [0..<20]\<rparr>) = {}"
    using assms by (auto simp: nd_wf_def nodes_def ns_wf_def elems_def small_system_def list_all_length)
  ultimately show ?thesis using assms(2) by (simp add: nd_resize_def)
qed

lemma nd_new_wf: "small_system counts \<Longrightarrow> \<exists>nd. nd_new counts = Inr nd \<and> nd_wf counts nd \<and> nodes nd = {}"
  unfolding nd_new_def by (rule nd_resize_wf) simp_all

lemma nd_upd_level:
  assumes "nd_wf counts nd" and "t \<noteq> MachineType_NUM" and "m_nSize s = counts t"
    and "elems s \<subseteq> {..<counts t}"
  shows "nd_wf counts (nd\<lparr>m_bits := (m_bits nd)[base_level t := s]\<rparr>)"
    "nodes (nd\<lparr>m_bits := (m_bits nd)[base_level t := s]\<rparr>) =
       {m. if mid_type m = t then mid_num m \<in> elems s else m \<in> nodes nd}"
proof -
  let ?E = "\<lambda>i. if i = base_level t then elems s else elems (m_bits nd ! i)"
  have l: "base_level t < 20" using assms(2) base_level_less by simp
  have k: "nd_wf counts (nd\<lparr>m_bits := (m_bits nd)[base_level t := s]\<rparr>) \<and>
    nodes (nd\<lparr>m_bits := (m_bits nd)[base_level t := s]\<rparr>) =
      {m. mid_type m \<noteq> MachineType_NUM \<and> mid_num m \<in> ?E (base_level (mid_type m))}"
    using assms l nd_level [OF assms(1)]
    by (intro nd_levels [OF assms(1)]) (simp_all add: nth_list_update machine_types_base_level)
  then show "nd_wf counts (nd\<lparr>m_bits := (m_bits nd)[base_level t := s]\<rparr>)" by simp
  show "nodes (nd\<lparr>m_bits := (m_bits nd)[base_level t := s]\<rparr>) =
       {m. if mid_type m = t then mid_num m \<in> elems s else m \<in> nodes nd}"
    using k assms(2) nodes_wf [OF assms(1)] by (auto simp: base_level_inj)
qed

section \<open>Each operation is a set operation\<close>

lemma machine_id_eq: "x = y \<longleftrightarrow> mid_type x = mid_type y \<and> mid_num x = mid_num (y :: machine_id)"
  by (cases x; cases y) simp

lemma nodes_level:
  assumes "nd_wf counts nd" and "mid_type m \<noteq> MachineType_NUM" and "mid_type x = mid_type m"
  shows "mid_num x \<in> elems (m_bits nd ! base_level (mid_type m)) \<longleftrightarrow> x \<in> nodes nd"
  using assms(2,3) by (simp add: nodes_wf [OF assms(1)])

lemma nd_add_wf:
  assumes "nd_wf counts nd" and "m \<in> machines counts"
  shows "\<exists>nd'. nd_add m nd = Inr nd' \<and> nd_wf counts nd' \<and> nodes nd' = insert m (nodes nd)"
proof -
  let ?t = "mid_type m" let ?s = "m_bits nd ! base_level ?t"
  let ?s' = "?s\<lparr>ns_bits := set_bit (mid_num m) (ns_bits ?s)\<rparr>"
  have t: "?t \<noteq> MachineType_NUM" "mid_num m < counts ?t" using assms(2) by (simp_all add: machines_def)
  note l = nd_level_type [OF assms(1) t(1)]
  have e: "elems ?s' = insert (mid_num m) (elems ?s)" using t(2) l(2) by (simp add: ns_elems)
  then have "elems ?s' \<subseteq> {..<counts ?t}" using l(4) t(2) by simp
  note u = nd_upd_level [OF assms(1) t(1) _ this]
  have "nd_add m nd = Inr (nd\<lparr>m_bits := (m_bits nd)[base_level ?t := ?s']\<rparr>)"
    using l t(2) by (auto simp: nd_add_def vecIndex_def set_add_def)
  moreover have "(if mid_type x = ?t then mid_num x \<in> elems ?s' else x \<in> nodes nd) \<longleftrightarrow> x \<in> insert m (nodes nd)" for x
    using nodes_level [OF assms(1) t(1), of x] unfolding e by (simp add: machine_id_eq)
  ultimately show ?thesis using u l(1) by auto
qed

lemma nd_add_outside:
  assumes "nd_wf counts nd" and "m \<notin> machines counts"
  shows "isl (nd_add m nd)"
  using assms nd_level_type(1) [OF assms(1), of "mid_type m"] base_level_less [of "mid_type m"]
  by (auto simp: nd_add_def vecIndex_def machines_def bindE_def assertE_def nd_wf_def)

lemma nd_remove_wf:
  assumes "nd_wf counts nd" and "m \<in> machines counts"
  shows "\<exists>nd'. nd_remove m nd = Inr nd' \<and> nd_wf counts nd' \<and> nodes nd' = nodes nd - {m}"
proof -
  let ?t = "mid_type m" let ?s = "m_bits nd ! base_level ?t"
  let ?s' = "?s\<lparr>ns_bits := unset_bit (mid_num m) (ns_bits ?s)\<rparr>"
  have t: "?t \<noteq> MachineType_NUM" "mid_num m < counts ?t" using assms(2) by (simp_all add: machines_def)
  note l = nd_level_type [OF assms(1) t(1)]
  have e: "elems ?s' = elems ?s - {mid_num m}" by (simp add: ns_elems)
  then have "elems ?s' \<subseteq> {..<counts ?t}" using l(4) by auto
  note u = nd_upd_level [OF assms(1) t(1) _ this]
  have "nd_remove m nd = Inr (nd\<lparr>m_bits := (m_bits nd)[base_level ?t := ?s']\<rparr>)"
    using l t(2) by (auto simp: nd_remove_def vecIndex_def set_remove_def)
  moreover have "(if mid_type x = ?t then mid_num x \<in> elems ?s' else x \<in> nodes nd) \<longleftrightarrow> x \<in> nodes nd - {m}" for x
    using nodes_level [OF assms(1) t(1), of x] unfolding e by (simp add: machine_id_eq)
  ultimately show ?thesis using u l(1) by auto
qed

lemma nd_isElement_wf:
  assumes "nd_wf counts nd" and "m \<in> machines counts"
  shows "nd_isElement m nd = Inr (m \<in> nodes nd)"
proof -
  have t: "mid_type m \<noteq> MachineType_NUM" "mid_num m < counts (mid_type m)" using assms(2) by (simp_all add: machines_def)
  note l = nd_level_type [OF assms(1) t(1)]
  show ?thesis
    using l t nodes_wf [OF assms(1)] by (auto simp: nd_isElement_def vecIndex_def set_isElement_def elems_def)
qed

lemma nd_clear_wf:
  assumes "nd_wf counts nd"
  shows "\<exists>nd'. nd_clear nd = Inr nd' \<and> nd_wf counts nd' \<and> nodes nd' = {}"
proof -
  have "nd_wf counts (nd\<lparr>m_bits := map set_clear (m_bits nd)\<rparr>) \<and>
    nodes (nd\<lparr>m_bits := map set_clear (m_bits nd)\<rparr>) = {m. mid_type m \<noteq> MachineType_NUM \<and> mid_num m \<in> {}}"
    using nd_level [OF assms] assms
    by (intro nd_levels [OF assms]) (simp_all add: set_clear_def ns_elems nd_wf_def)
  moreover have "0 < length (m_bits nd)" using assms by (simp add: nd_wf_def)
  ultimately show ?thesis by (simp add: nd_clear_def)
qed

lemma nd_zip_wf:
  "nd_wf counts a \<Longrightarrow> nd_wf counts b \<Longrightarrow> nd_zip b a = Inr (zip (m_bits a) (m_bits b))"
  by (simp add: nd_zip_def nd_wf_def)

text \<open>An operation that works level by level on two destination sets.\<close>

lemma nd_pointwise:
  assumes "nd_wf counts a" and "nd_wf counts b" and "nd_wf counts r"
    and op: "\<And>s t. m_nSize s = m_nSize t \<Longrightarrow> m_nSize s \<le> 64 \<Longrightarrow> \<exists>u. f t s = Inr u \<and> m_nSize u = m_nSize s \<and> elems u = F (elems s) (elems t)"
    and mem: "\<And>j S T. j \<in> F S T \<longleftrightarrow> P (j \<in> S) (j \<in> T)" and "\<not> P False False"
  shows "\<exists>ss. mapE (\<lambda>(s, t). f t s) (zip (m_bits a) (m_bits b)) = Inr ss \<and> length ss = 20 \<and>
    nd_wf counts (r\<lparr>m_bits := ss\<rparr>) \<and> nodes (r\<lparr>m_bits := ss\<rparr>) = {m. P (m \<in> nodes a) (m \<in> nodes b)}"
proof -
  have "\<exists>u. f (m_bits b ! i) (m_bits a ! i) = Inr u \<and> m_nSize u = counts (machine_types ! i) \<and>
      elems u = F (elems (m_bits a ! i)) (elems (m_bits b ! i))" if "i < 20" for i
    using op [of "m_bits a ! i" "m_bits b ! i"] nd_level [OF assms(1) that] nd_level [OF assms(2) that] by auto
  then obtain g where g: "\<And>i. i < 20 \<Longrightarrow> f (m_bits b ! i) (m_bits a ! i) = Inr (g i) \<and>
      m_nSize (g i) = counts (machine_types ! i) \<and> elems (g i) = F (elems (m_bits a ! i)) (elems (m_bits b ! i))"
    by metis
  have len: "length (m_bits a) = 20" "length (m_bits b) = 20" using assms(1,2) by (simp_all add: nd_wf_def)
  have m: "mapE (\<lambda>(s, t). f t s) (zip (m_bits a) (m_bits b)) = Inr (map g [0..<length (zip (m_bits a) (m_bits b))])"
    by (rule mapE_index) (simp add: g len)
  have sub: "F (elems (m_bits a ! i)) (elems (m_bits b ! i)) \<subseteq> {..<counts (machine_types ! i)}" if "i < 20" for i
    using nd_level(4) [OF assms(1) that] nd_level(4) [OF assms(2) that] assms(6) unfolding mem subset_iff by metis
  have "nd_wf counts (r\<lparr>m_bits := map g [0..<20]\<rparr>) \<and> nodes (r\<lparr>m_bits := map g [0..<20]\<rparr>) =
      {m. mid_type m \<noteq> MachineType_NUM \<and>
        mid_num m \<in> F (elems (m_bits a ! base_level (mid_type m))) (elems (m_bits b ! base_level (mid_type m)))}"
    by (rule nd_levels [OF assms(3)]) (simp_all add: g sub)
  moreover have "mid_type m \<noteq> MachineType_NUM \<and>
      mid_num m \<in> F (elems (m_bits a ! base_level (mid_type m))) (elems (m_bits b ! base_level (mid_type m))) \<longleftrightarrow>
      P (m \<in> nodes a) (m \<in> nodes b)" for m
    using assms(6) by (cases "mid_type m = MachineType_NUM") (simp_all add: nodes_wf [OF assms(1)] nodes_wf [OF assms(2)] mem)
  ultimately show ?thesis using m len by simp
qed

lemma nd_addNetDest_wf:
  assumes "nd_wf counts a" and "nd_wf counts b"
  shows "\<exists>c. nd_addNetDest b a = Inr c \<and> nd_wf counts c \<and> nodes c = nodes a \<union> nodes b"
proof -
  have "\<exists>ss. mapE (\<lambda>(s, t). set_addSet t s) (zip (m_bits a) (m_bits b)) = Inr ss \<and> length ss = 20 \<and>
      nd_wf counts (a\<lparr>m_bits := ss\<rparr>) \<and> nodes (a\<lparr>m_bits := ss\<rparr>) = {m. m \<in> nodes a \<or> m \<in> nodes b}"
    by (rule nd_pointwise [OF assms assms(1), where F = "(\<union>)" and P = "(\<or>)"])
      (auto simp: set_addSet_def ns_elems)
  then show ?thesis using nd_zip_wf [OF assms] by (auto simp: nd_addNetDest_def Un_def)
qed

lemma nd_removeNetDest_wf:
  assumes "nd_wf counts a" and "nd_wf counts b"
  shows "\<exists>c. nd_removeNetDest b a = Inr c \<and> nd_wf counts c \<and> nodes c = nodes a - nodes b"
proof -
  have "\<exists>ss. mapE (\<lambda>(s, t). set_removeSet t s) (zip (m_bits a) (m_bits b)) = Inr ss \<and> length ss = 20 \<and>
      nd_wf counts (a\<lparr>m_bits := ss\<rparr>) \<and> nodes (a\<lparr>m_bits := ss\<rparr>) = {m. m \<in> nodes a \<and> m \<notin> nodes b}"
    by (rule nd_pointwise [OF assms assms(1), where F = "(-)" and P = "\<lambda>x y. x \<and> \<not> y"])
      (auto simp: set_removeSet_def ns_elems)
  then show ?thesis using nd_zip_wf [OF assms] by (auto simp: nd_removeNetDest_def set_diff_eq)
qed

lemma nd_binop_wf:
  assumes "nd_wf counts a" and "nd_wf counts b"
    and op: "\<And>s t. m_nSize s = m_nSize t \<Longrightarrow> m_nSize s \<le> 64 \<Longrightarrow> \<exists>u. f t s = Inr u \<and> m_nSize u = m_nSize s \<and> elems u = F (elems s) (elems t)"
    and mem: "\<And>j S T. j \<in> F S T \<longleftrightarrow> P (j \<in> S) (j \<in> T)" and "\<not> P False False"
  shows "\<exists>c. nd_binop f b a = Inr c \<and> nd_wf counts c \<and> nodes c = {m. P (m \<in> nodes a) (m \<in> nodes b)}"
proof -
  obtain r where r: "nd_resize (nd_default\<lparr>m_ruby_system := m_ruby_system a\<rparr>) = Inr r" "nd_wf counts r"
    using nd_resize_wf [of counts "nd_default\<lparr>m_ruby_system := m_ruby_system a\<rparr>"] assms(1) by (auto simp: nd_wf_def)
  have len: "length (m_bits r) = 20" using r(2) by (simp add: nd_wf_def)
  have "\<exists>ss. mapE (\<lambda>(s, t). f t s) (zip (m_bits a) (m_bits b)) = Inr ss \<and> length ss = 20 \<and>
      nd_wf counts (r\<lparr>m_bits := ss\<rparr>) \<and> nodes (r\<lparr>m_bits := ss\<rparr>) = {m. P (m \<in> nodes a) (m \<in> nodes b)}"
    by (rule nd_pointwise [where F = F and P = P and f = f, OF assms(1,2) r(2) op mem assms(5)])
  then show ?thesis using nd_zip_wf [OF assms(1,2)] r(1) len by (auto simp: nd_binop_def)
qed

lemma nd_OR_wf:
  assumes "nd_wf counts a" and "nd_wf counts b"
  shows "\<exists>c. nd_OR b a = Inr c \<and> nd_wf counts c \<and> nodes c = nodes a \<union> nodes b"
  unfolding nd_OR_def Un_def
  by (rule nd_binop_wf [OF assms, where F = "(\<union>)" and P = "(\<or>)"])
    (auto simp: set_OR_def set_setSize_def elems_def bit_simps)

lemma nd_AND_wf:
  assumes "nd_wf counts a" and "nd_wf counts b"
  shows "\<exists>c. nd_AND b a = Inr c \<and> nd_wf counts c \<and> nodes c = nodes a \<inter> nodes b"
  unfolding nd_AND_def Int_def
  by (rule nd_binop_wf [OF assms, where F = "(\<inter>)" and P = "(\<and>)"])
    (auto simp: set_AND_def set_setSize_def elems_def bit_simps)

section \<open>Queries\<close>

lemma all_levels: "(\<forall>i < 20. Q i) \<longleftrightarrow> (\<forall>t. t \<noteq> MachineType_NUM \<longrightarrow> Q (base_level t))"
  using base_level_less base_level_machine_types machine_types_NUM by metis

text \<open>A property of corresponding levels, as a property of all machines.\<close>

lemma zip_levels:
  assumes "nd_wf counts a" and "nd_wf counts b"
  shows "list_all (\<lambda>(s, t). \<forall>j. P (j \<in> elems s) (j \<in> elems t)) (zip (m_bits a) (m_bits b)) \<longleftrightarrow>
    (\<forall>m. mid_type m \<noteq> MachineType_NUM \<longrightarrow> P (m \<in> nodes a) (m \<in> nodes b))"
proof -
  have "list_all (\<lambda>(s, t). \<forall>j. P (j \<in> elems s) (j \<in> elems t)) (zip (m_bits a) (m_bits b)) \<longleftrightarrow>
      (\<forall>i < 20. \<forall>j. P (j \<in> elems (m_bits a ! i)) (j \<in> elems (m_bits b ! i)))"
    using assms by (simp add: list_all_length nd_wf_def)
  also have "\<dots> \<longleftrightarrow> (\<forall>t. t \<noteq> MachineType_NUM \<longrightarrow>
      (\<forall>j. P (j \<in> elems (m_bits a ! base_level t)) (j \<in> elems (m_bits b ! base_level t))))"
    by (rule all_levels)
  also have "\<dots> \<longleftrightarrow> (\<forall>m. mid_type m \<noteq> MachineType_NUM \<longrightarrow> P (m \<in> nodes a) (m \<in> nodes b))"
  proof (intro iffI allI impI)
    fix t j
    assume "\<forall>m. mid_type m \<noteq> MachineType_NUM \<longrightarrow> P (m \<in> nodes a) (m \<in> nodes b)" "t \<noteq> MachineType_NUM"
    then show "P (j \<in> elems (m_bits a ! base_level t)) (j \<in> elems (m_bits b ! base_level t))"
      by (auto simp: nodes_wf [OF assms(1)] nodes_wf [OF assms(2)] dest: spec [of _ "\<lparr>mid_type = t, mid_num = j\<rparr>"])
  qed (simp add: nodes_wf [OF assms(1)] nodes_wf [OF assms(2)])
  finally show ?thesis .
qed

lemma nodes_NUM: "nd_wf counts a \<Longrightarrow> mid_type m = MachineType_NUM \<Longrightarrow> m \<notin> nodes a"
  by (simp add: nodes_wf)

lemma superset_bits: "ns_bits s OR ns_bits t = ns_bits s \<longleftrightarrow> (\<forall>j. j \<in> elems t \<longrightarrow> j \<in> elems s)"
  using elems_eq_iff [of "s\<lparr>ns_bits := ns_bits s OR ns_bits t\<rparr>" s] by (auto simp: ns_elems)

lemma nd_isSuperset_wf:
  assumes "nd_wf counts a" and "nd_wf counts b"
  shows "nd_isSuperset b a = Inr (nodes b \<subseteq> nodes a)"
proof -
  have "all_res (\<lambda>(s, t). set_isSuperset t s) (zip (m_bits a) (m_bits b)) =
      Inr (list_all (\<lambda>(s, t). \<forall>j. j \<in> elems t \<longrightarrow> j \<in> elems s) (zip (m_bits a) (m_bits b)))"
    using assms
    by (intro all_res_Inr) (auto simp: set_zip nd_wf_def set_isSuperset_def superset_bits)
  moreover have "(\<forall>m. mid_type m \<noteq> MachineType_NUM \<longrightarrow> m \<in> nodes b \<longrightarrow> m \<in> nodes a) \<longleftrightarrow> nodes b \<subseteq> nodes a"
    using nodes_NUM [OF assms(2)] by blast
  ultimately show ?thesis
    using zip_levels [OF assms, of "\<lambda>x y. y \<longrightarrow> x"] nd_zip_wf [OF assms] by (simp add: nd_isSuperset_def)
qed

lemma nd_isEqual_wf:
  assumes "nd_wf counts a" and "nd_wf counts b"
  shows "nd_isEqual b a = Inr (nodes a = nodes b)"
proof -
  have "all_res (\<lambda>(s, t). set_isEqual t s) (zip (m_bits a) (m_bits b)) =
      Inr (list_all (\<lambda>(s, t). \<forall>j. j \<in> elems s \<longleftrightarrow> j \<in> elems t) (zip (m_bits a) (m_bits b)))"
    using assms
    by (intro all_res_Inr) (auto simp: set_zip nd_wf_def set_isEqual_def elems_eq_iff [symmetric])
  moreover have "(\<forall>m. mid_type m \<noteq> MachineType_NUM \<longrightarrow> m \<in> nodes a \<longleftrightarrow> m \<in> nodes b) \<longleftrightarrow> nodes a = nodes b"
    using nodes_NUM [OF assms(1)] nodes_NUM [OF assms(2)] by blast
  ultimately show ?thesis
    using zip_levels [OF assms, of "(=)"] nd_zip_wf [OF assms] by (simp add: nd_isEqual_def)
qed

lemma nd_intersection_wf:
  assumes "nd_wf counts a" and "nd_wf counts b"
  shows "nd_intersectionIsNotEmpty b a = Inr (nodes a \<inter> nodes b \<noteq> {})"
proof -
  have "set_intersectionIsEmpty t s \<longleftrightarrow> (\<forall>j. \<not> (j \<in> elems s \<and> j \<in> elems t))" for s t
    using elems_empty_iff [of "s\<lparr>ns_bits := ns_bits s AND ns_bits t\<rparr>"] by (auto simp: set_intersectionIsEmpty_def ns_elems)
  then have "list_all (\<lambda>(s, t). set_intersectionIsEmpty t s) (zip (m_bits a) (m_bits b)) \<longleftrightarrow>
      (\<forall>m. mid_type m \<noteq> MachineType_NUM \<longrightarrow> \<not> (m \<in> nodes a \<and> m \<in> nodes b))"
    using zip_levels [OF assms, of "\<lambda>x y. \<not> (x \<and> y)"] by simp
  also have "\<dots> \<longleftrightarrow> nodes a \<inter> nodes b = {}" using nodes_NUM [OF assms(1)] by blast
  finally show ?thesis using nd_zip_wf [OF assms] by (simp add: nd_intersectionIsNotEmpty_def)
qed

lemma nd_isEmpty_wf:
  assumes "nd_wf counts a"
  shows "nd_isEmpty a = Inr (nodes a = {})"
proof -
  have "list_all set_isEmpty (m_bits a) \<longleftrightarrow> (\<forall>i < 20. elems (m_bits a ! i) = {})"
    using assms by (simp add: list_all_length nd_wf_def set_isEmpty_def elems_empty_iff)
  also have "\<dots> \<longleftrightarrow> nodes a = {}"
    unfolding all_levels
  proof
    show "nodes a = {}" if "\<forall>t. t \<noteq> MachineType_NUM \<longrightarrow> elems (m_bits a ! base_level t) = {}"
      using that by (auto simp: nodes_wf [OF assms])
    have "\<lparr>mid_type = t, mid_num = j\<rparr> \<in> nodes a" if "t \<noteq> MachineType_NUM" "j \<in> elems (m_bits a ! base_level t)" for t j
      using that by (simp add: nodes_wf [OF assms])
    then show "\<forall>t. t \<noteq> MachineType_NUM \<longrightarrow> elems (m_bits a ! base_level t) = {}" if "nodes a = {}"
      using that by blast
  qed
  finally show ?thesis using assms by (simp add: nd_isEmpty_def nd_wf_def)
qed

lemma nodes_finite: "nd_wf counts a \<Longrightarrow> finite (nodes a)"
  and nd_count_wf: "nd_wf counts a \<Longrightarrow> nd_count a = Inr (card (nodes a))"
proof -
  assume wf: "nd_wf counts a"
  let ?A = "\<lambda>i. (\<lambda>j. \<lparr>mid_type = machine_types ! i, mid_num = j\<rparr>) ` elems (m_bits a ! i)"
  have "m \<in> nodes a \<longleftrightarrow> m \<in> (\<Union>i \<in> {..<20}. ?A i)" for m
  proof
    assume "m \<in> nodes a"
    then have "m \<in> ?A (base_level (mid_type m))" "base_level (mid_type m) \<in> {..<20}"
      by (auto simp: nodes_wf [OF wf] machine_types_base_level base_level_less image_iff machine_id_eq)
    then show "m \<in> (\<Union>i \<in> {..<20}. ?A i)" by blast
  next
    assume "m \<in> (\<Union>i \<in> {..<20}. ?A i)"
    then show "m \<in> nodes a" by (auto simp: nodes_wf [OF wf] base_level_machine_types machine_types_NUM)
  qed
  then have n: "nodes a = (\<Union>i \<in> {..<20}. ?A i)" by blast
  then show "finite (nodes a)" by simp
  have "card (\<Union>i \<in> {..<20}. ?A i) = (\<Sum>i \<in> {..<20}. card (?A i))"
    by (rule card_UN_disjoint) (auto simp: machine_types_inj)
  also have "\<dots> = (\<Sum>i \<in> {..<20}. card (elems (m_bits a ! i)))"
    by (intro sum.cong refl card_image) (simp add: inj_on_def)
  also have "\<dots> = sum_list (map set_count (m_bits a))"
    using wf by (simp add: sum_list_sum_nth set_count_card nd_wf_def atLeast0LessThan)
  finally show "nd_count a = Inr (card (nodes a))" using wf n by (simp add: nd_count_def nd_wf_def)
qed

lemma add_all_wf:
  assumes "nd_wf counts nd" and "set ms \<subseteq> machines counts"
  shows "\<exists>nd'. add_all ms nd = Inr nd' \<and> nd_wf counts nd' \<and> nodes nd' = set ms \<union> nodes nd"
  using assms
proof (induction ms arbitrary: nd)
  case (Cons m ms)
  then obtain nd1 where "nd_add m nd = Inr nd1" "nd_wf counts nd1" "nodes nd1 = insert m (nodes nd)"
    using nd_add_wf [of counts nd m] by auto
  then show ?case using Cons.IH [of nd1] Cons.prems(2) by auto
qed simp

lemma broadcast_types_wf:
  assumes "nd_wf counts nd" and "MachineType_NUM \<notin> set ts"
  shows "\<exists>nd'. broadcast_types ts nd = Inr nd' \<and> nd_wf counts nd' \<and>
    nodes nd' = {m \<in> machines counts. mid_type m \<in> set ts} \<union> nodes nd"
  using assms
proof (induction ts arbitrary: nd)
  case (Cons t ts)
  let ?ms = "map (\<lambda>i. \<lparr>mid_type = t, mid_num = i\<rparr>) [0..<counts t]"
  have set: "set ?ms = {m \<in> machines counts. mid_type m = t}"
    using Cons.prems(2) by (auto simp: machines_def machine_id_eq image_iff)
  then obtain nd1 where "add_all ?ms nd = Inr nd1" "nd_wf counts nd1" "nodes nd1 = set ?ms \<union> nodes nd"
    using add_all_wf [OF Cons.prems(1), of ?ms] by auto
  then have "nd_broadcast_type t nd = Inr nd1" "nd_wf counts nd1" "nodes nd1 = {m \<in> machines counts. mid_type m = t} \<union> nodes nd"
    using Cons.prems(1) set by (simp_all add: nd_broadcast_type_def nd_wf_def)
  then show ?case using Cons.IH [of nd1] Cons.prems(2) by auto
qed simp

lemma nd_broadcast_wf:
  assumes "nd_wf counts nd"
  shows "\<exists>nd'. nd_broadcast nd = Inr nd' \<and> nd_wf counts nd' \<and> nodes nd' = machines counts"
proof -
  have all: "mid_type m \<in> set machine_types" if "m \<in> machines counts" for m
    using that by (cases "mid_type m") (auto simp: machines_def machine_types_def)
  obtain nd' where "broadcast_types machine_types nd = Inr nd'" "nd_wf counts nd'"
    "nodes nd' = {m \<in> machines counts. mid_type m \<in> set machine_types} \<union> nodes nd"
    using broadcast_types_wf [OF assms, of machine_types] by (auto simp: machine_types_def)
  moreover from this(3) have "nodes nd' = machines counts" using nodes_machines [OF assms] all by auto
  ultimately show ?thesis by (simp add: nd_broadcast_def)
qed

lemma smallest_from_spec:
  assumes "\<forall>s \<in> set ss. ns_wf s" and "k + length ss \<le> 20" and "\<exists>i < length ss. elems (ss ! i) \<noteq> {}"
  shows "\<exists>i < length ss. smallest_from (enumerate k ss) = Inr \<lparr>mid_type = machine_types ! (k + i), mid_num = Min (elems (ss ! i))\<rparr> \<and>
    elems (ss ! i) \<noteq> {} \<and> (\<forall>i' < i. elems (ss ! i') = {})"
  using assms
proof (induction ss arbitrary: k)
  case (Cons s ss)
  have "\<forall>i \<in> set [0..<m_nSize s]. i < 64" using Cons.prems(1) by (auto simp: ns_wf_def)
  note f = first_element_Inr [OF this, of s]
  show ?case
  proof (cases "elems s = {}")
    case True
    then have e: "smallest_from (enumerate k (s # ss)) = smallest_from (enumerate (Suc k) ss)"
      using f by (simp add: find_None_iff [THEN iffD2])
    have ex: "\<exists>i < length ss. elems (ss ! i) \<noteq> {}"
      using Cons.prems(3) True by (auto simp: nth_Cons' less_Suc_eq_0_disj split: if_splits)
    have "\<forall>s \<in> set ss. ns_wf s" "Suc k + length ss \<le> 20" using Cons.prems(1,2) by auto
    from Cons.IH [OF this ex] obtain i where "i < length ss"
      "smallest_from (enumerate (Suc k) ss) = Inr \<lparr>mid_type = machine_types ! (Suc k + i), mid_num = Min (elems (ss ! i))\<rparr>"
      "elems (ss ! i) \<noteq> {}" "\<forall>i' < i. elems (ss ! i') = {}" by blast
    then show ?thesis using e True by (intro exI [of _ "Suc i"]) (auto simp: less_Suc_eq_0_disj)
  next
    case False
    have "find (\<lambda>i. i \<in> elems s) [0..<m_nSize s] = Some (Min (elems s))"
      using find_upt_Min [OF _ False, of "m_nSize s"] Cons.prems(1) by (simp add: ns_wf_def)
    then show ?thesis using f False Cons.prems(2) by (intro exI [of _ 0]) (simp add: from_base_level_def)
  qed
qed simp

lemma nd_smallestElement_wf:
  assumes "nd_wf counts a" and "nodes a \<noteq> {}"
  shows "\<exists>m. nd_smallestElement a = Inr m \<and> m \<in> nodes a \<and>
    (\<forall>x \<in> nodes a. base_level (mid_type m) < base_level (mid_type x) \<or>
       mid_type m = mid_type x \<and> mid_num m \<le> mid_num x)"
proof -
  have len: "length (m_bits a) = 20" using assms(1) by (simp add: nd_wf_def)
  have "card (nodes a) \<noteq> 0" using assms(2) nodes_finite [OF assms(1)] by simp
  then have sm: "nd_smallestElement a = smallest_from (enumerate 0 (m_bits a))"
    using nd_count_wf [OF assms(1)] len by (simp add: nd_smallestElement_def)
  obtain y where y: "y \<in> nodes a" using assms(2) by blast
  have "\<forall>s \<in> set (m_bits a). ns_wf s" using nd_level(3) [OF assms(1)] len by (auto simp: in_set_conv_nth)
  moreover have "\<exists>i < length (m_bits a). elems (m_bits a ! i) \<noteq> {}"
    using y len base_level_less by (auto simp: nodes_wf [OF assms(1)])
  ultimately obtain i where i: "i < 20" "elems (m_bits a ! i) \<noteq> {}" "\<forall>i' < i. elems (m_bits a ! i') = {}"
    and r: "smallest_from (enumerate 0 (m_bits a)) = Inr \<lparr>mid_type = machine_types ! i, mid_num = Min (elems (m_bits a ! i))\<rparr>"
    using smallest_from_spec [of "m_bits a" 0] len by auto
  let ?m = "\<lparr>mid_type = machine_types ! i, mid_num = Min (elems (m_bits a ! i))\<rparr>"
  have "?m \<in> nodes a"
    using i(1,2) by (simp add: nodes_wf [OF assms(1)] base_level_machine_types machine_types_NUM)
  moreover have "i < base_level (mid_type x) \<or> machine_types ! i = mid_type x \<and> mid_num ?m \<le> mid_num x"
    if "x \<in> nodes a" for x
  proof -
    have x: "mid_type x \<noteq> MachineType_NUM" "mid_num x \<in> elems (m_bits a ! base_level (mid_type x))"
      using that by (simp_all add: nodes_wf [OF assms(1)])
    then have "\<not> base_level (mid_type x) < i" using i(3) by auto
    then consider "i < base_level (mid_type x)" | "i = base_level (mid_type x)" by linarith
    then show ?thesis by cases (use x in \<open>auto simp: machine_types_base_level\<close>)
  qed
  ultimately show ?thesis using sm r i(1) by (simp add: base_level_machine_types)
qed

text \<open>
  C22. A destination set is a set of machines: in a system with at most 64 controllers of each type, every
  operation of \<^verbatim>\<open>NetDest\<close> on well-formed operands succeeds and is the set operation of its name; adding
  or removing concerns an existing machine, and adding any other machine is refused.
\<close>

theorem netdest_implements_sets:
  assumes "nd_wf counts a" and "nd_wf counts b" and "m \<in> machines counts" and "x \<notin> machines counts"
  shows "(\<exists>c. nd_add m a = Inr c \<and> nd_wf counts c \<and> nodes c = insert m (nodes a)) \<and> isl (nd_add x a) \<and>
    (\<exists>c. nd_remove m a = Inr c \<and> nd_wf counts c \<and> nodes c = nodes a - {m}) \<and>
    (\<exists>c. nd_addNetDest b a = Inr c \<and> nd_wf counts c \<and> nodes c = nodes a \<union> nodes b) \<and>
    (\<exists>c. nd_removeNetDest b a = Inr c \<and> nd_wf counts c \<and> nodes c = nodes a - nodes b) \<and>
    (\<exists>c. nd_OR b a = Inr c \<and> nd_wf counts c \<and> nodes c = nodes a \<union> nodes b) \<and>
    (\<exists>c. nd_AND b a = Inr c \<and> nd_wf counts c \<and> nodes c = nodes a \<inter> nodes b) \<and>
    (\<exists>c. nd_clear a = Inr c \<and> nd_wf counts c \<and> nodes c = {}) \<and>
    (\<exists>c. nd_broadcast a = Inr c \<and> nd_wf counts c \<and> nodes c = machines counts) \<and>
    nd_isElement m a = Inr (m \<in> nodes a) \<and> nd_count a = Inr (card (nodes a)) \<and>
    nd_isEmpty a = Inr (nodes a = {}) \<and> nd_isEqual b a = Inr (nodes a = nodes b) \<and>
    nd_isSuperset b a = Inr (nodes b \<subseteq> nodes a) \<and>
    nd_intersectionIsNotEmpty b a = Inr (nodes a \<inter> nodes b \<noteq> {})"
  using assms
  by (intro conjI nd_add_wf nd_add_outside nd_remove_wf nd_addNetDest_wf nd_removeNetDest_wf nd_OR_wf nd_AND_wf
      nd_clear_wf nd_broadcast_wf nd_isElement_wf nd_count_wf nd_isEmpty_wf nd_isEqual_wf nd_isSuperset_wf
      nd_intersection_wf)

theorem netdest_implements_sets_witness:
  "\<exists>a c. nd_new (\<lambda>_. 4) = Inr a \<and> nd_add \<lparr>mid_type = L1Cache, mid_num = 2\<rparr> a = Inr c \<and>
     nodes c = {\<lparr>mid_type = L1Cache, mid_num = 2\<rparr>} \<and> isl (nd_add \<lparr>mid_type = L1Cache, mid_num = 4\<rparr> a)"
proof -
  obtain a where a: "nd_new (\<lambda>_. 4) = Inr a" "nd_wf (\<lambda>_. 4) a" "nodes a = {}"
    using nd_new_wf [of "\<lambda>_. 4"] by (auto simp: small_system_def list_all_length)
  have "\<lparr>mid_type = L1Cache, mid_num = 2\<rparr> \<in> machines (\<lambda>_. 4)" "\<lparr>mid_type = L1Cache, mid_num = 4\<rparr> \<notin> machines (\<lambda>_. 4)"
    by (simp_all add: machines_def)
  from netdest_implements_sets [OF a(2,2) this] show ?thesis using a(1,3) by auto
qed

end
