(* ===== verification/Data_Block.thy ===== *)
theory Data_Block
  imports Ruby_Address
begin

text \<open>
  Data of a cache line and byte masks (\<^verbatim>\<open>src/gem5/src/mem/ruby/common/WriteMask.hh\<close>, \<^verbatim>\<open>WriteMask.cc\<close>,
  \<^verbatim>\<open>DataBlock.hh\<close> and \<^verbatim>\<open>DataBlock.cc\<close>).  A block owns its bytes and the log of its atomic operations, so
  both are lists of bytes; sizes and offsets are natural numbers.  An atomic operation is a
  function on the bytes from its offset to the end of the block: the functor classes of
  \<^verbatim>\<open>base/amo.hh\<close> that implement it are a parameter.
\<close>

type_synonym byte = "8 word"
type_synonym atomic_op = "nat \<times> (byte list \<Rightarrow> byte list)"

section \<open>Write masks\<close>

record write_mask =
  mSize :: nat
  mMask :: "bool list"
  mAtomic :: bool
  mAtomicOp :: "atomic_op list"

definition wm_default :: write_mask where
  "wm_default = \<lparr>mSize = 0, mMask = [], mAtomic = False, mAtomicOp = []\<rparr>"

definition wm_new :: "nat \<Rightarrow> write_mask" where
  "wm_new n = \<lparr>mSize = n, mMask = replicate n False, mAtomic = False, mAtomicOp = []\<rparr>"

definition wm_new_mask :: "nat \<Rightarrow> bool list \<Rightarrow> write_mask" where
  "wm_new_mask n bs = \<lparr>mSize = n, mMask = bs, mAtomic = False, mAtomicOp = []\<rparr>"

definition wm_new_atomic :: "nat \<Rightarrow> bool list \<Rightarrow> atomic_op list \<Rightarrow> write_mask" where
  "wm_new_atomic n bs ops = \<lparr>mSize = n, mMask = bs, mAtomic = True, mAtomicOp = ops\<rparr>"

definition wm_clear :: "write_mask \<Rightarrow> write_mask" where
  "wm_clear w = w\<lparr>mMask := replicate (mSize w) False\<rparr>"

definition wm_setBlockSize :: "nat \<Rightarrow> write_mask \<Rightarrow> write_mask res" where
  "wm_setBlockSize n w =
     bindE (assertE (mSize w = 0) ''mSize == 0'') (\<lambda>_.
     bindE (assertE (0 < n) ''size > 0'') (\<lambda>_.
     Inr (wm_clear (w\<lparr>mSize := n\<rparr>))))"

definition wm_getBlockSizeBits :: "write_mask \<Rightarrow> nat res" where
  "wm_getBlockSizeBits w = floorLog2 4 (of_nat (mSize w))"

definition wm_test :: "nat \<Rightarrow> write_mask \<Rightarrow> bool res" where
  "wm_test offset w =
     bindE (assertE (0 < mSize w) ''mSize > 0'') (\<lambda>_.
     bindE (assertE (offset < mSize w) ''offset < mSize'') (\<lambda>_. nthE (mMask w) offset))"

fun set_range :: "nat list \<Rightarrow> bool \<Rightarrow> bool list \<Rightarrow> bool list res" where
  "set_range [] val bs = Inr bs"
| "set_range (i # is) val bs = bindE (updE bs i val) (set_range is val)"

definition wm_setMask :: "nat \<Rightarrow> nat \<Rightarrow> bool \<Rightarrow> write_mask \<Rightarrow> write_mask res" where
  "wm_setMask offset len val w =
     bindE (assertE (0 < mSize w) ''mSize > 0'') (\<lambda>_.
     bindE (assertE (offset + len \<le> mSize w) ''mSize >= (offset + len)'') (\<lambda>_.
     bindE (set_range [offset..<offset + len] val (mMask w)) (\<lambda>bs. Inr (w\<lparr>mMask := bs\<rparr>))))"

definition wm_fillMask :: "write_mask \<Rightarrow> write_mask res" where
  "wm_fillMask w =
     bindE (assertE (0 < mSize w) ''mSize > 0'') (\<lambda>_.
     bindE (set_range [0..<mSize w] True (mMask w)) (\<lambda>bs. Inr (w\<lparr>mMask := bs\<rparr>)))"

definition wm_getMask :: "nat \<Rightarrow> nat \<Rightarrow> write_mask \<Rightarrow> bool res" where
  "wm_getMask offset len w =
     bindE (assertE (0 < mSize w) ''mSize > 0'') (\<lambda>_.
     bindE (assertE (offset + len \<le> mSize w) ''mSize >= (offset + len)'') (\<lambda>_.
     bindE (mapE (nthE (mMask w)) [offset..<offset + len]) (\<lambda>bs. Inr (list_all (\<lambda>b. b) bs))))"

text \<open>The loops over two masks of equal size.\<close>

definition wm_pairs :: "write_mask \<Rightarrow> write_mask \<Rightarrow> (bool \<times> bool) list res" where
  "wm_pairs other w =
     bindE (assertE (0 < mSize w) ''mSize > 0'') (\<lambda>_.
     bindE (assertE (mSize w = mSize other) ''mSize == readMask.mSize'') (\<lambda>_.
     bindE (mapE (nthE (mMask w)) [0..<mSize w]) (\<lambda>xs.
     bindE (mapE (nthE (mMask other)) [0..<mSize w]) (\<lambda>ys. Inr (zip xs ys)))))"

text \<open>The bits of \<^verbatim>\<open>mMask\<close> that a loop reads where the bit of \<^verbatim>\<open>readMask\<close> is set.\<close>

fun read_under :: "nat list \<Rightarrow> bool list \<Rightarrow> bool list \<Rightarrow> bool list res" where
  "read_under [] sel bs = Inr []"
| "read_under (i # is) sel bs =
     bindE (nthE sel i) (\<lambda>r.
     bindE (if r then bindE (nthE bs i) (\<lambda>b. Inr [b]) else Inr []) (\<lambda>b.
     bindE (read_under is sel bs) (\<lambda>rest. Inr (b @ rest))))"

definition wm_isOverlap :: "write_mask \<Rightarrow> write_mask \<Rightarrow> bool res" where
  "wm_isOverlap readMask w =
     bindE (assertE (0 < mSize w) ''mSize > 0'') (\<lambda>_.
     bindE (assertE (mSize w = mSize readMask) ''mSize == readMask.mSize'') (\<lambda>_.
     bindE (read_under [0..<mSize w] (mMask readMask) (mMask w)) (\<lambda>bs. Inr (list_ex (\<lambda>b. b) bs))))"

definition wm_containsMask :: "write_mask \<Rightarrow> write_mask \<Rightarrow> bool res" where
  "wm_containsMask readMask w =
     bindE (assertE (0 < mSize w) ''mSize > 0'') (\<lambda>_.
     bindE (assertE (mSize w = mSize readMask) ''mSize == readMask.mSize'') (\<lambda>_.
     bindE (read_under [0..<mSize w] (mMask readMask) (mMask w)) (\<lambda>bs. Inr (list_all (\<lambda>b. b) bs))))"

text \<open>A scan that returns at the first bit that differs from the given value.\<close>

fun all_are :: "bool \<Rightarrow> bool list \<Rightarrow> nat list \<Rightarrow> bool res" where
  "all_are v bs [] = Inr True"
| "all_are v bs (i # is) = bindE (nthE bs i) (\<lambda>b. if b \<noteq> v then Inr False else all_are v bs is)"

definition wm_isEmpty :: "write_mask \<Rightarrow> bool res" where
  "wm_isEmpty w =
     bindE (assertE (0 < mSize w) ''mSize > 0'') (\<lambda>_. all_are False (mMask w) [0..<mSize w])"

definition wm_isFull :: "write_mask \<Rightarrow> bool res" where
  "wm_isFull w =
     bindE (assertE (0 < mSize w) ''mSize > 0'') (\<lambda>_. all_are True (mMask w) [0..<mSize w])"

definition wm_take_ops :: "write_mask \<Rightarrow> write_mask \<Rightarrow> write_mask" where
  "wm_take_ops other w =
     (if mAtomic other then w\<lparr>mAtomic := True, mAtomicOp := mAtomicOp other\<rparr> else w)"

definition wm_andMask :: "write_mask \<Rightarrow> write_mask \<Rightarrow> write_mask res" where
  "wm_andMask writeMask w =
     bindE (wm_pairs writeMask w) (\<lambda>ps.
     Inr (wm_take_ops writeMask (w\<lparr>mMask := map (\<lambda>(x, y). x \<and> y) ps @ drop (mSize w) (mMask w)\<rparr>)))"

definition wm_orMask :: "write_mask \<Rightarrow> write_mask \<Rightarrow> write_mask res" where
  "wm_orMask writeMask w =
     bindE (wm_pairs writeMask w) (\<lambda>ps.
     Inr (wm_take_ops writeMask (w\<lparr>mMask := map (\<lambda>(x, y). x \<or> y) ps @ drop (mSize w) (mMask w)\<rparr>)))"

definition wm_setInvertedMask :: "write_mask \<Rightarrow> write_mask \<Rightarrow> write_mask res" where
  "wm_setInvertedMask writeMask w =
     bindE (wm_pairs writeMask w) (\<lambda>ps.
     Inr (w\<lparr>mMask := map (\<lambda>(x, y). \<not> y) ps @ drop (mSize w) (mMask w)\<rparr>))"

fun first_index :: "bool \<Rightarrow> bool list \<Rightarrow> nat \<Rightarrow> nat list \<Rightarrow> nat res" where
  "first_index val bs n [] = Inr n"
| "first_index val bs n (i # is) =
     bindE (nthE bs i) (\<lambda>b. if b = val then Inr i else first_index val bs n is)"

definition wm_firstBitSet :: "bool \<Rightarrow> nat \<Rightarrow> write_mask \<Rightarrow> nat res" where
  "wm_firstBitSet val offset w =
     bindE (assertE (0 < mSize w) ''mSize > 0'') (\<lambda>_.
     first_index val (mMask w) (mSize w) [offset..<mSize w])"

definition wm_count :: "nat \<Rightarrow> write_mask \<Rightarrow> nat res" where
  "wm_count offset w =
     bindE (assertE (0 < mSize w) ''mSize > 0'') (\<lambda>_.
     bindE (mapE (nthE (mMask w)) [offset..<mSize w]) (\<lambda>bs. Inr (length (filter (\<lambda>b. b) bs))))"

definition wm_setAtomicOps :: "atomic_op list \<Rightarrow> write_mask \<Rightarrow> write_mask" where
  "wm_setAtomicOps ops w = w\<lparr>mAtomic := True, mAtomicOp := ops\<rparr>"

text \<open>The atomic operations in order; each may record the block as it was before it.\<close>

fun apply_atomics ::
  "nat \<Rightarrow> bool \<Rightarrow> atomic_op list \<Rightarrow> byte list \<Rightarrow> byte list list \<Rightarrow> (byte list \<times> byte list list) res" where
  "apply_atomics n noReturn [] p log = Inr (p, log)"
| "apply_atomics n noReturn ((offset, f) # ops) p log =
     bindE (guardE (offset \<le> length p \<and> (noReturn \<or> n \<le> length p)) OutOfRange) (\<lambda>_.
     let log' = (if noReturn then log else log @ [take n p])
     in apply_atomics n noReturn ops (take offset p @ f (drop offset p)) log')"

definition wm_performAtomic ::
  "byte list \<Rightarrow> byte list list \<Rightarrow> bool \<Rightarrow> write_mask \<Rightarrow> (byte list \<times> byte list list) res" where
  "wm_performAtomic p log isAtomicNoReturn w =
     bindE (assertE (0 < mSize w) ''mSize > 0'') (\<lambda>_.
     apply_atomics (mSize w) isAtomicNoReturn (mAtomicOp w) p log)"

section \<open>Data blocks\<close>

record data_block =
  m_data :: "byte list"
  m_alloc :: bool
  m_block_size :: nat
  m_atomicLog :: "byte list list"

definition db_default :: data_block where
  "db_default = \<lparr>m_data = [], m_alloc = False, m_block_size = 0, m_atomicLog = []\<rparr>"

definition db_clear :: "data_block \<Rightarrow> data_block res" where
  "db_clear d =
     bindE (assertE (m_alloc d) ''m_alloc'') (\<lambda>_.
     bindE (assertE (0 < m_block_size d) ''m_block_size > 0'') (\<lambda>_.
     Inr (d\<lparr>m_data := replicate (m_block_size d) 0 @ drop (m_block_size d) (m_data d)\<rparr>)))"

text \<open>\<^verbatim>\<open>new uint8_t[n]\<close> leaves the bytes undefined; they are cleared at once.\<close>

definition db_alloc :: "data_block \<Rightarrow> data_block res" where
  "db_alloc d =
     bindE (assertE (\<not> m_alloc d) ''!m_alloc'') (\<lambda>_.
     if m_block_size d = 0 then Inr d
     else db_clear (d\<lparr>m_data := replicate (m_block_size d) 0, m_alloc := True\<rparr>))"

definition db_new :: "nat \<Rightarrow> data_block res" where
  "db_new blk_size = db_alloc (db_default\<lparr>m_block_size := blk_size\<rparr>)"

text \<open>\<^verbatim>\<open>memcpy\<close> and \<^verbatim>\<open>memcmp\<close> of \<^verbatim>\<open>n\<close> bytes are undefined on a shorter array.\<close>

definition bytes_of :: "nat \<Rightarrow> byte list \<Rightarrow> byte list res" where
  "bytes_of n p = bindE (guardE (n \<le> length p) OutOfRange) (\<lambda>_. Inr (take n p))"

definition db_copy :: "data_block \<Rightarrow> data_block res" where
  "db_copy cp =
     bindE (assertE (m_alloc cp) ''cp.isAlloc()'') (\<lambda>_.
     bindE (assertE (0 < m_block_size cp) ''cp.getBlockSize() > 0'') (\<lambda>_.
     bindE (bytes_of (m_block_size cp) (m_data cp)) (\<lambda>bs.
     bindE (mapE (bytes_of (m_block_size cp)) (m_atomicLog cp)) (\<lambda>log.
     Inr \<lparr>m_data = bs, m_alloc = True, m_block_size = m_block_size cp, m_atomicLog = log\<rparr>))))"

definition db_realloc :: "nat \<Rightarrow> data_block \<Rightarrow> data_block res" where
  "db_realloc blk_size d =
     bindE (assertE (0 < blk_size) ''m_block_size > 0'') (\<lambda>_.
     db_alloc (d\<lparr>m_block_size := blk_size, m_alloc := False\<rparr>))"

definition same_bytes :: "nat \<Rightarrow> byte list \<Rightarrow> byte list \<Rightarrow> bool res" where
  "same_bytes n p q = bindE (bytes_of n p) (\<lambda>x. bindE (bytes_of n q) (\<lambda>y. Inr (x = y)))"

fun same_logs :: "nat \<Rightarrow> (byte list \<times> byte list) list \<Rightarrow> bool res" where
  "same_logs n [] = Inr True"
| "same_logs n ((p, q) # ps) =
     bindE (same_bytes n p q) (\<lambda>e. if \<not> e then Inr False else same_logs n ps)"

definition db_equal :: "data_block \<Rightarrow> data_block \<Rightarrow> bool res" where
  "db_equal obj d =
     bindE (assertE (m_alloc d) ''m_alloc'') (\<lambda>_.
     bindE (assertE (0 < m_block_size d) ''m_block_size > 0'') (\<lambda>_.
     bindE (same_bytes (m_block_size d) (m_data d) (m_data obj)) (\<lambda>e.
     if \<not> e then Inr False
     else if length (m_atomicLog d) \<noteq> length (m_atomicLog obj) then Inr False
     else same_logs (m_block_size d) (zip (m_atomicLog d) (m_atomicLog obj)))))"

fun copy_masked :: "nat list \<Rightarrow> byte list \<Rightarrow> write_mask \<Rightarrow> byte list \<Rightarrow> byte list res" where
  "copy_masked [] src w dst = Inr dst"
| "copy_masked (i # is) src w dst =
     bindE (wm_getMask i 1 w) (\<lambda>b.
     bindE (if b then bindE (nthE src i) (updE dst i) else Inr dst) (copy_masked is src w))"

definition db_copyPartial_mask :: "data_block \<Rightarrow> write_mask \<Rightarrow> data_block \<Rightarrow> data_block res" where
  "db_copyPartial_mask dblk w d =
     bindE (assertE (m_alloc d) ''m_alloc'') (\<lambda>_.
     bindE (assertE (0 < m_block_size d) ''m_block_size > 0'') (\<lambda>_.
     bindE (copy_masked [0..<m_block_size d] (m_data dblk) w (m_data d)) (\<lambda>bs.
     Inr (d\<lparr>m_data := bs\<rparr>))))"

definition db_atomicPartial :: "data_block \<Rightarrow> write_mask \<Rightarrow> bool \<Rightarrow> data_block \<Rightarrow> data_block res" where
  "db_atomicPartial dblk w isAtomicNoReturn d =
     bindE (assertE (m_alloc d) ''m_alloc'') (\<lambda>_.
     bindE (assertE (0 < m_block_size d) ''m_block_size > 0'') (\<lambda>_.
     bindE (mapE (nthE (m_data dblk)) [0..<m_block_size d]) (\<lambda>bs.
     bindE (wm_performAtomic (bs @ drop (m_block_size d) (m_data d)) (m_atomicLog d) isAtomicNoReturn w) (\<lambda>(p, log).
     Inr (d\<lparr>m_data := p, m_atomicLog := log\<rparr>)))))"

definition db_popAtomicLogEntryFront :: "data_block \<Rightarrow> (byte list \<times> data_block) res" where
  "db_popAtomicLogEntryFront d =
     (case m_atomicLog d of
        [] \<Rightarrow> Inl (AssertFail ''m_atomicLog.size() > 0'')
      | x # xs \<Rightarrow> Inr (x, d\<lparr>m_atomicLog := xs\<rparr>))"

definition db_clearAtomicLogEntries :: "data_block \<Rightarrow> data_block res" where
  "db_clearAtomicLogEntries d =
     bindE (assertE (m_alloc d) ''m_alloc'') (\<lambda>_. Inr (d\<lparr>m_atomicLog := []\<rparr>))"

text \<open>The bytes that the returned pointer gives access to.\<close>

definition db_getData :: "nat \<Rightarrow> nat \<Rightarrow> data_block \<Rightarrow> byte list res" where
  "db_getData offset len d =
     bindE (assertE (m_alloc d) ''m_alloc'') (\<lambda>_.
     bindE (assertE (0 < m_block_size d) ''m_block_size > 0'') (\<lambda>_.
     bindE (assertE (offset + len \<le> m_block_size d) ''offset + len <= m_block_size'') (\<lambda>_.
     Inr (take len (drop offset (m_data d))))))"

definition db_getByte :: "nat \<Rightarrow> data_block \<Rightarrow> byte res" where
  "db_getByte i d = bindE (assertE (m_alloc d) ''m_alloc'') (\<lambda>_. nthE (m_data d) i)"

definition db_setByte :: "nat \<Rightarrow> byte \<Rightarrow> data_block \<Rightarrow> data_block res" where
  "db_setByte i v d =
     bindE (assertE (m_alloc d) ''m_alloc'') (\<lambda>_.
     bindE (updE (m_data d) i v) (\<lambda>bs. Inr (d\<lparr>m_data := bs\<rparr>)))"

text \<open>\<^verbatim>\<open>memcpy\<close> outside of the block is undefined.\<close>

definition db_setData :: "byte list \<Rightarrow> nat \<Rightarrow> nat \<Rightarrow> data_block \<Rightarrow> data_block res" where
  "db_setData data offset len d =
     bindE (assertE (m_alloc d) ''m_alloc'') (\<lambda>_.
     bindE (guardE (offset + len \<le> length (m_data d) \<and> len \<le> length data) OutOfRange) (\<lambda>_.
     Inr (d\<lparr>m_data := take offset (m_data d) @ take len data @ drop (offset + len) (m_data d)\<rparr>)))"

definition db_copyPartial :: "data_block \<Rightarrow> nat \<Rightarrow> nat \<Rightarrow> data_block \<Rightarrow> data_block res" where
  "db_copyPartial dblk offset len d =
     bindE (assertE (m_alloc d) ''m_alloc'') (\<lambda>_.
     db_setData (drop offset (m_data dblk)) offset len d)"

record data_packet =
  pkt_addr :: Addr
  pkt_data :: "byte list"

definition db_setData_pkt :: "data_packet \<Rightarrow> data_block \<Rightarrow> data_block res" where
  "db_setData_pkt pkt d =
     bindE (assertE (m_alloc d) ''m_alloc'') (\<lambda>_.
     bindE (assertE (0 < m_block_size d) ''m_block_size > 0'') (\<lambda>_.
     bindE (floorLog2 4 (of_nat (m_block_size d))) (\<lambda>bits.
     bindE (getOffset (pkt_addr pkt) bits) (\<lambda>off.
     bindE (assertE (unat off + length (pkt_data pkt) \<le> m_block_size d) ''offset + pkt->getSize() <= m_block_size'') (\<lambda>_.
     db_setData (pkt_data pkt) (unat off) (length (pkt_data pkt)) d)))))"

text \<open>The pointer handed to \<^verbatim>\<open>assign\<close>, \<^verbatim>\<open>None\<close> for a null pointer.\<close>

definition db_assign_ptr :: "byte list option \<Rightarrow> data_block \<Rightarrow> data_block res" where
  "db_assign_ptr data d =
     (case data of
        None \<Rightarrow> Inl (AssertFail ''data != NULL'')
      | Some bs \<Rightarrow> Inr (d\<lparr>m_data := bs, m_alloc := False\<rparr>))"

text \<open>
  Assignment from another block object.  A block of another size is freed first, but \<^verbatim>\<open>m_alloc\<close> stays
  set, so that \<^verbatim>\<open>alloc\<close> fails.
\<close>

definition db_assign :: "data_block \<Rightarrow> data_block \<Rightarrow> data_block res" where
  "db_assign obj d =
     bindE (if m_alloc d \<and> m_block_size d \<noteq> m_block_size obj
            then db_alloc (d\<lparr>m_block_size := m_block_size obj\<rparr>)
            else if \<not> m_alloc d then db_alloc (d\<lparr>m_block_size := m_block_size obj\<rparr>)
            else Inr d) (\<lambda>d1.
     if \<not> m_alloc d \<and> m_block_size d1 = 0 then Inr d1
     else bindE (assertE (0 < m_block_size d1) ''m_block_size > 0'') (\<lambda>_.
       let n = m_block_size d1 in
       bindE (bytes_of n (m_data obj)) (\<lambda>bs.
       bindE (mapE (bytes_of n) (m_atomicLog obj)) (\<lambda>log.
       Inr (d1\<lparr>m_data := bs @ drop n (m_data d1), m_atomicLog := m_atomicLog d1 @ log\<rparr>)))))"

section \<open>Well-formed masks and blocks\<close>

definition wm_wf :: "write_mask \<Rightarrow> bool" where
  "wm_wf w \<longleftrightarrow> 0 < mSize w \<and> length (mMask w) = mSize w"

definition db_wf :: "data_block \<Rightarrow> bool" where
  "db_wf d \<longleftrightarrow> m_alloc d \<and> 0 < m_block_size d \<and> length (m_data d) = m_block_size d \<and>
     (\<forall>l \<in> set (m_atomicLog d). length l = m_block_size d)"

lemma db_new_wf: "0 < n \<Longrightarrow> \<exists>d. db_new n = Inr d \<and> db_wf d \<and> m_block_size d = n \<and> m_data d = replicate n 0"
  by (simp add: db_new_def db_alloc_def db_clear_def db_default_def db_wf_def)

lemma wm_new_wf: "0 < n \<Longrightarrow> wm_wf (wm_new n)"
  by (simp add: wm_wf_def wm_new_def)

lemma mapE_nthE: "\<forall>i \<in> set is. i < length xs \<Longrightarrow> mapE (nthE xs) is = Inr (map ((!) xs) is)"
  by (rule mapE_all_Inr) (simp add: nthE_def)

lemma map_nth_upt: "n = length xs \<Longrightarrow> map ((!) xs) [0..<n] = xs"
  by (simp add: map_nth)

lemma bytes_of_exact [simp]: "length p = n \<Longrightarrow> bytes_of n p = Inr p"
  by (simp add: bytes_of_def)

lemma bytes_of_all: "\<forall>p \<in> set ps. length p = n \<Longrightarrow> mapE (bytes_of n) ps = Inr ps"
  using mapE_all_Inr [of ps "bytes_of n" "\<lambda>p. p"] by simp

lemma same_logs_refl: "\<forall>p \<in> set ps. length p = n \<Longrightarrow> same_logs n (zip ps ps) = Inr True"
  by (induction ps) (simp_all add: same_bytes_def)

lemma wm_getMask_one:
  assumes "wm_wf w" and "i < mSize w"
  shows "wm_getMask i 1 w = Inr (mMask w ! i)"
  using assms by (simp add: wm_getMask_def wm_wf_def nthE_def)

lemma copy_masked_Inr:
  assumes "wm_wf w" and "\<forall>i \<in> set is. i < mSize w \<and> i < length src \<and> i < length dst" and "distinct is"
  shows "\<exists>dst'. copy_masked is src w dst = Inr dst' \<and> length dst' = length dst \<and>
    (\<forall>j < length dst. dst' ! j = (if j \<in> set is \<and> mMask w ! j then src ! j else dst ! j))"
  using assms
proof (induction "is" arbitrary: dst)
  case (Cons i "is")
  let ?d = "if mMask w ! i then dst[i := src ! i] else dst"
  have len: "length ?d = length dst" by simp
  then obtain dst' where d: "copy_masked is src w ?d = Inr dst'" "length dst' = length dst"
    "\<forall>j < length dst. dst' ! j = (if j \<in> set is \<and> mMask w ! j then src ! j else ?d ! j)"
    using Cons.IH [of ?d] Cons.prems by auto
  have "copy_masked (i # is) src w dst = copy_masked is src w ?d"
    using Cons.prems wm_getMask_one [OF Cons.prems(1), of i] by (simp add: nthE_def updE_def)
  moreover have "dst' ! j = (if j \<in> set (i # is) \<and> mMask w ! j then src ! j else dst ! j)" if "j < length dst" for j
    using d(3) that Cons.prems(3) by (cases "j = i") auto
  ultimately show ?case using d(1,2) by auto
qed simp

lemma wm_pairs_wf:
  assumes "wm_wf a" and "wm_wf b" and "mSize a = mSize b"
  shows "wm_pairs b a = Inr (zip (mMask a) (mMask b))"
  using assms by (simp add: wm_pairs_def wm_wf_def mapE_nthE map_nth_upt)

text \<open>
  C23. A masked copy takes exactly the bytes whose mask bit is set: the block keeps its size and log, each
  byte under the mask comes from the source and every other byte is untouched; copying the rest
  under the inverted mask, which any mask of that size may receive, completes the block to the
  source.
\<close>

theorem masked_copy:
  assumes "db_wf d" and "db_wf src" and "wm_wf w" and "m_block_size src = m_block_size d" and "mSize w = m_block_size d"
    and "wm_wf u" and "mSize u = mSize w"
  shows "\<exists>d1 v d2. db_copyPartial_mask src w d = Inr d1 \<and> wm_setInvertedMask w u = Inr v \<and>
    db_copyPartial_mask src v d1 = Inr d2 \<and> db_wf d1 \<and> m_atomicLog d1 = m_atomicLog d \<and>
    (\<forall>i < m_block_size d. m_data d1 ! i = (if mMask w ! i then m_data src ! i else m_data d ! i)) \<and>
    m_data d2 = m_data src"
proof -
  have len: "length (m_data d) = m_block_size d" "length (m_data src) = m_block_size d"
    using assms(1,2,4) by (simp_all add: db_wf_def)
  have copy: "\<exists>d'. db_copyPartial_mask src u c = Inr d' \<and> db_wf d' \<and> m_atomicLog d' = m_atomicLog c \<and>
      m_block_size d' = m_block_size c \<and>
      (\<forall>i < m_block_size c. m_data d' ! i = (if mMask u ! i then m_data src ! i else m_data c ! i))"
    if "db_wf c" "wm_wf u" "m_block_size c = m_block_size d" "mSize u = m_block_size d" for u c
  proof -
    have "\<exists>bs. copy_masked [0..<m_block_size c] (m_data src) u (m_data c) = Inr bs \<and> length bs = length (m_data c) \<and>
        (\<forall>j < length (m_data c). bs ! j = (if j \<in> set [0..<m_block_size c] \<and> mMask u ! j then m_data src ! j else m_data c ! j))"
      using that len by (intro copy_masked_Inr) (auto simp: db_wf_def)
    then show ?thesis using that by (auto simp: db_copyPartial_mask_def db_wf_def)
  qed
  obtain d1 where d1: "db_copyPartial_mask src w d = Inr d1" "db_wf d1" "m_atomicLog d1 = m_atomicLog d"
    "m_block_size d1 = m_block_size d"
    "\<forall>i < m_block_size d. m_data d1 ! i = (if mMask w ! i then m_data src ! i else m_data d ! i)"
    using copy [OF assms(1,3) refl assms(5)] by blast
  let ?v = "u\<lparr>mMask := map Not (mMask w)\<rparr>"
  have l: "length (mMask u) = length (mMask w)" using assms(3,6,7) by (simp add: wm_wf_def)
  then have "map (\<lambda>(x, y). \<not> y) (zip (mMask u) (mMask w)) = map Not (mMask w)"
    by (intro nth_equalityI) simp_all
  then have v: "wm_setInvertedMask w u = Inr ?v" "wm_wf ?v"
    using assms(3,6,7) l wm_pairs_wf [OF assms(6,3)] by (simp_all add: wm_setInvertedMask_def wm_wf_def)
  obtain d2 where d2: "db_copyPartial_mask src ?v d1 = Inr d2" "db_wf d2" "m_block_size d2 = m_block_size d"
    "\<forall>i < m_block_size d. m_data d2 ! i = (if mMask ?v ! i then m_data src ! i else m_data d1 ! i)"
    using copy [OF d1(2) v(2) d1(4)] assms(5,7) d1(4) by auto
  have "m_data d2 = m_data src"
    using d1(5) d2 len assms(3,5) by (intro nth_equalityI) (auto simp: db_wf_def wm_wf_def)
  then show ?thesis using d1 v(1) d2(1) by blast
qed

theorem masked_copy_witness:
  "\<exists>d src d1 v d2. db_new 4 = Inr d \<and> db_setData [1, 2, 3, 4] 0 4 d = Inr src \<and>
     db_copyPartial_mask src (wm_new_mask 4 [True, False, False, True]) d = Inr d1 \<and> m_data d1 ! 3 = 4 \<and> m_data d1 ! 1 = 0 \<and>
     wm_setInvertedMask (wm_new_mask 4 [True, False, False, True]) (wm_new_mask 4 [True, True, False, False]) = Inr v \<and>
     db_copyPartial_mask src v d1 = Inr d2 \<and> m_data d2 = [1, 2, 3, 4]"
proof -
  obtain d where d: "db_new 4 = Inr d" "db_wf d" "m_block_size d = 4" "m_data d = replicate 4 0" using db_new_wf [of 4] by auto
  let ?src = "d\<lparr>m_data := [1, 2, 3, 4]\<rparr>" let ?w = "wm_new_mask 4 [True, False, False, True]"
  have "db_setData [1, 2, 3, 4] 0 4 d = Inr ?src" using d by (simp add: db_setData_def db_wf_def)
  moreover have "db_wf ?src" "wm_wf ?w" "wm_wf (wm_new_mask 4 [True, True, False, False])" using d by (simp_all add: db_wf_def wm_wf_def wm_new_mask_def)
  ultimately show ?thesis
    using masked_copy [of d ?src ?w "wm_new_mask 4 [True, True, False, False]"] d
    by (auto simp: wm_new_mask_def numeral_nat)
qed

text \<open>
  C24. Assignment of data blocks: between well-formed blocks of the same size the bytes are copied and the
  source's log is appended to the target's, so that the two compare equal exactly when the target
  had no log; an assignment to an allocated block of another size fails its own assertion.
\<close>

theorem block_assignment:
  assumes "db_wf d" and "db_wf obj"
  shows "if m_block_size d = m_block_size obj
    then \<exists>d'. db_assign obj d = Inr d' \<and> db_wf d' \<and> m_data d' = m_data obj \<and>
      m_atomicLog d' = m_atomicLog d @ m_atomicLog obj \<and> db_equal obj d' = Inr (m_atomicLog d = [])
    else db_assign obj d = Inl (AssertFail ''!m_alloc'')"
proof (cases "m_block_size d = m_block_size obj")
  case True
  have logs: "\<forall>p \<in> set (m_atomicLog obj). length p = m_block_size obj" using assms(2) by (simp add: db_wf_def)
  have e: "db_assign obj d = Inr (d\<lparr>m_data := m_data obj, m_atomicLog := m_atomicLog d @ m_atomicLog obj\<rparr>)"
    using assms True bytes_of_all [OF logs] by (simp add: db_assign_def db_wf_def Let_def)
  have "db_equal obj (d\<lparr>m_data := m_data obj, m_atomicLog := m_atomicLog d @ m_atomicLog obj\<rparr>) = Inr (m_atomicLog d = [])"
    using assms True same_logs_refl [OF logs] by (simp add: db_equal_def db_wf_def same_bytes_def)
  then show ?thesis using e True assms by (auto simp: db_wf_def)
next
  case False
  then show ?thesis using assms by (simp add: db_assign_def db_wf_def db_alloc_def)
qed

theorem block_assignment_witness:
  "\<exists>d e. db_new 4 = Inr d \<and> db_new 8 = Inr e \<and> db_assign d e = Inl (AssertFail ''!m_alloc'') \<and>
     (\<exists>d'. db_assign d d = Inr d' \<and> m_data d' = m_data d)"
proof -
  obtain d e where d: "db_new 4 = Inr d" "db_wf d" "m_block_size d = 4" and e: "db_new 8 = Inr e" "db_wf e" "m_block_size e = 8"
    using db_new_wf [of 4] db_new_wf [of 8] by auto
  show ?thesis using d e block_assignment [OF e(2) d(2)] block_assignment [OF d(2) d(2)] by auto
qed

end
