(* ===== verification/L2_Messages.thy ===== *)
theory L2_Messages
  imports Message_Buffer Net_Dest Data_Block
begin

text \<open>
  The messages of the MESI two-level protocol
  (\<^verbatim>\<open>src/gem5/src/mem/ruby/protocol/MESI_Two_Level-msg.sm\<close>) and the enumerations of
  \<^verbatim>\<open>RubySlicc_Exports.sm\<close> that they use.  A message is the record \<open>message\<close> of the buffers extended by
  the structure of the protocol.  The constructor that the protocol compiler generates gives a
  message its time, allocates its data block and sizes its destination set; the members without a
  default, which every sender assigns, are arguments here.
\<close>

datatype CoherenceRequestType =
    GETX | UPGRADE | GETS | GET_INSTR | Req_INV | PUTX | Req_WB_ACK | DMA_READ | DMA_WRITE

datatype CoherenceResponseType =
    MEMORY_ACK | DATA | DATA_EXCLUSIVE | MEMORY_DATA | ACK | WB_ACK | UNBLOCK | EXCLUSIVE_UNBLOCK | INV

datatype MessageSizeType =
    Control | Data | Request_Control | Reissue_Control | Response_Data | ResponseL2hit_Data
  | ResponseLocal_Data | Response_Control | Writeback_Data | Writeback_Control | Broadcast_Control
  | Multicast_Control | Forwarded_Control | Invalidate_Control | Unblock_Control | Persistent_Control
  | Completion_Control

datatype RubyAccessMode = Supervisor | User | Device

datatype PrefetchBit = PrefetchBit_No | PrefetchBit_Yes | PrefetchBit_L1_HW | PrefetchBit_L2_HW

record request_msg =
  rq_addr :: Addr
  rq_Type :: CoherenceRequestType
  rq_AccessMode :: RubyAccessMode
  rq_Requestor :: machine_id
  rq_Destination :: net_dest
  rq_MessageSize :: MessageSizeType
  rq_DataBlk :: data_block
  rq_Len :: int
  rq_Dirty :: bool
  rq_Prefetch :: PrefetchBit

record response_msg =
  rs_addr :: Addr
  rs_Type :: CoherenceResponseType
  rs_Sender :: machine_id
  rs_Destination :: net_dest
  rs_DataBlk :: data_block
  rs_Dirty :: bool
  rs_AckCount :: int
  rs_MessageSize :: MessageSizeType

definition machine_id_default :: machine_id where
  "machine_id_default = \<lparr>mid_type = MachineType_NUM, mid_num = 0\<rparr>"

definition request_new ::
  "(machine_type \<Rightarrow> nat) \<Rightarrow> nat \<Rightarrow> Addr \<Rightarrow> CoherenceRequestType \<Rightarrow> MessageSizeType \<Rightarrow> request_msg res" where
  "request_new counts blk a ty sz =
     bindE (nd_setRubySystem counts nd_default) (\<lambda>dest.
     bindE (db_new blk) (\<lambda>d.
     Inr \<lparr>rq_addr = a, rq_Type = ty, rq_AccessMode = User, rq_Requestor = machine_id_default,
          rq_Destination = dest, rq_MessageSize = sz, rq_DataBlk = d, rq_Len = 0, rq_Dirty = False,
          rq_Prefetch = PrefetchBit_No\<rparr>))"

definition response_new ::
  "(machine_type \<Rightarrow> nat) \<Rightarrow> nat \<Rightarrow> Addr \<Rightarrow> CoherenceResponseType \<Rightarrow> MessageSizeType \<Rightarrow> response_msg res" where
  "response_new counts blk a ty sz =
     bindE (nd_setRubySystem counts nd_default) (\<lambda>dest.
     bindE (db_new blk) (\<lambda>d.
     Inr \<lparr>rs_addr = a, rs_Type = ty, rs_Sender = machine_id_default, rs_Destination = dest,
          rs_DataBlk = d, rs_Dirty = False, rs_AckCount = 0, rs_MessageSize = sz\<rparr>))"

definition message_new :: "Tick \<Rightarrow> 'p \<Rightarrow> 'p message_scheme" where
  "message_new curTime payload =
     \<lparr>m_time = curTime, m_LastEnqueueTime = curTime, m_DelayedTicks = 0, m_msg_counter = 0,
      \<dots> = payload\<rparr>"

end
