(* ===== verification/TBE_Table.thy ===== *)
theory TBE_Table
  imports Ruby_Address
begin

text \<open>
  The table of transaction buffer entries of a controller
  (\<^verbatim>\<open>src/gem5/src/mem/ruby/structures/TBETable.hh\<close>): a map from line addresses to entries with a fixed
  capacity.  The hash map is an association list.  The entry class is generated from a protocol;
  the function that makes a new entry (its constructor and \<^verbatim>\<open>setRubySystem\<close>) is an argument.  A pointer
  to an entry is its address, so an assignment through it is \<open>tt_update\<close>.
\<close>

record 'e tbe_table =
  tt_map :: "(Addr \<times> 'e) list"
  tt_number_of_TBEs :: nat
  tt_block_size :: nat

definition tt_new :: "nat \<Rightarrow> 'e tbe_table" where
  "tt_new number_of_TBEs = \<lparr>tt_map = [], tt_number_of_TBEs = number_of_TBEs, tt_block_size = 0\<rparr>"

definition tt_setRubySystem :: "nat \<Rightarrow> 'e tbe_table \<Rightarrow> 'e tbe_table" where
  "tt_setRubySystem block_size t = t\<lparr>tt_block_size := block_size\<rparr>"

definition tt_isPresent :: "Addr \<Rightarrow> 'e tbe_table \<Rightarrow> bool res" where
  "tt_isPresent address t =
     bindE (floorLog2 4 (of_nat (tt_block_size t))) (\<lambda>b.
     bindE (makeLineAddress address b) (\<lambda>line.
     bindE (assertE (address = line) ''address == makeLineAddress(address, floorLog2(m_block_size))'') (\<lambda>_.
     bindE (assertE (length (tt_map t) \<le> tt_number_of_TBEs t) ''m_map.size() <= m_number_of_TBEs'') (\<lambda>_.
     Inr (map_of (tt_map t) address \<noteq> None)))))"

definition tt_allocate :: "(nat \<Rightarrow> 'e res) \<Rightarrow> Addr \<Rightarrow> 'e tbe_table \<Rightarrow> 'e tbe_table res" where
  "tt_allocate new_entry address t =
     bindE (tt_isPresent address t) (\<lambda>present.
     bindE (assertE (\<not> present) ''!isPresent(address)'') (\<lambda>_.
     bindE (assertE (length (tt_map t) < tt_number_of_TBEs t) ''m_map.size() < m_number_of_TBEs'') (\<lambda>_.
     bindE (assertE (0 < tt_block_size t) ''m_block_size > 0'') (\<lambda>_.
     bindE (new_entry (tt_block_size t)) (\<lambda>e.
     Inr (t\<lparr>tt_map := (address, e) # tt_map t\<rparr>))))))"

definition tt_deallocate :: "Addr \<Rightarrow> 'e tbe_table \<Rightarrow> 'e tbe_table res" where
  "tt_deallocate address t =
     bindE (tt_isPresent address t) (\<lambda>present.
     bindE (assertE present ''isPresent(address)'') (\<lambda>_.
     bindE (assertE (0 < length (tt_map t)) ''m_map.size() > 0'') (\<lambda>_.
     Inr (t\<lparr>tt_map := filter (\<lambda>(a, _). a \<noteq> address) (tt_map t)\<rparr>))))"

text \<open>The subtraction is unsigned: a table with more entries than its capacity would have room.\<close>

definition tt_areNSlotsAvailable :: "nat \<Rightarrow> 'e tbe_table \<Rightarrow> bool" where
  "tt_areNSlotsAvailable n t \<longleftrightarrow>
     (of_nat n :: 64 word) \<le> of_nat (tt_number_of_TBEs t) - of_nat (length (tt_map t))"

definition tt_lookup :: "Addr \<Rightarrow> 'e tbe_table \<Rightarrow> 'e option" where
  "tt_lookup address t = map_of (tt_map t) address"

definition tt_update :: "Addr \<Rightarrow> ('e \<Rightarrow> 'e) \<Rightarrow> 'e tbe_table \<Rightarrow> 'e tbe_table" where
  "tt_update address f t =
     t\<lparr>tt_map := map (\<lambda>(a, e). (a, if a = address then f e else e)) (tt_map t)\<rparr>"

section \<open>The table as a map\<close>

lemma map_of_map_key:
  "map_of (map (\<lambda>(a, e). (a, if a = k then f e else e)) m) b = (if b = k then map_option f (map_of m b) else map_of m b)"
  by (induction m) auto

lemma map_of_drop_key: "map_of (filter (\<lambda>(a, _). a \<noteq> k) m) b = (if b = k then None else map_of m b)"
  by (induction m) auto

lemma tt_lookup_new [simp]: "tt_lookup a (tt_new n) = None"
  by (simp add: tt_lookup_def tt_new_def)

lemma tt_lookup_update: "tt_lookup b (tt_update a f t) = (if b = a then map_option f (tt_lookup b t) else tt_lookup b t)"
  by (simp add: tt_lookup_def tt_update_def map_of_map_key)

lemma tt_lookup_allocate:
  assumes "tt_allocate mk a t = Inr t'"
  obtains e where "mk (tt_block_size t) = Inr e" "tt_lookup a t = None"
    "\<And>b. tt_lookup b t' = (if b = a then Some e else tt_lookup b t)"
    "tt_block_size t' = tt_block_size t"
  using assms by (auto simp: tt_allocate_def tt_isPresent_def tt_lookup_def res_iffs)

lemma tt_lookup_deallocate:
  assumes "tt_deallocate a t = Inr t'"
  shows "tt_lookup b t' = (if b = a then None else tt_lookup b t)" "tt_block_size t' = tt_block_size t"
  using assms by (auto simp: tt_deallocate_def tt_isPresent_def tt_lookup_def res_iffs map_of_drop_key)

lemma tt_update_block_size [simp]: "tt_block_size (tt_update a f t) = tt_block_size t"
  by (simp add: tt_update_def)

end
