(* ===== verification/Waiting_Buffers.thy ===== *)
theory Waiting_Buffers
  imports Ruby_Prelude
begin

text \<open>
  The stalled buffers and the blocked queues of a controller
  (\<^verbatim>\<open>src/gem5/src/mem/ruby/slicc_interface/AbstractController.cc\<close>): for each address, the buffers with
  stalled messages, one slot per in-port.  Both maps are association lists sorted by address as
  \<^verbatim>\<open>std::map\<close> is.  A pointer to a buffer is a name of type \<open>'b\<close>; \<open>None\<close> is the null pointer.  The calls
  of \<^verbatim>\<open>reanalyzeMessages\<close> and \<^verbatim>\<open>reanalyzeAllMessages\<close> act on the buffers, which are part of the state \<open>'s\<close> of
  the controller, and are arguments.
\<close>

record 'b abstract_controller =
  m_is_blocking :: bool
  m_block_map :: "(Addr \<times> 'b) list"
  m_waiting_buffers :: "(Addr \<times> 'b option list) list"
  m_in_ports :: nat
  m_cur_in_port :: nat

definition ac_new :: "nat \<Rightarrow> 'b abstract_controller" where
  "ac_new in_ports =
     \<lparr>m_is_blocking = False, m_block_map = [], m_waiting_buffers = [], m_in_ports = in_ports,
      m_cur_in_port = 0\<rparr>"

section \<open>Sorted association lists\<close>

fun map_put :: "Addr \<Rightarrow> 'v \<Rightarrow> (Addr \<times> 'v) list \<Rightarrow> (Addr \<times> 'v) list" where
  "map_put a v [] = [(a, v)]"
| "map_put a v ((b, w) # m) =
     (if a = b then (a, v) # m else if a < b then (a, v) # (b, w) # m else (b, w) # map_put a v m)"

definition map_drop :: "Addr \<Rightarrow> (Addr \<times> 'v) list \<Rightarrow> (Addr \<times> 'v) list" where
  "map_drop a m = filter (\<lambda>(b, _). b \<noteq> a) m"

lemma map_of_map_put [simp]: "map_of (map_put a v m) b = (if b = a then Some v else map_of m b)"
  by (induction m) auto

lemma map_of_map_drop [simp]: "map_of (map_drop a m) b = (if b = a then None else map_of m b)"
  by (induction m) (auto simp: map_drop_def)

section \<open>Operations\<close>

definition stallBuffer :: "'b \<Rightarrow> Addr \<Rightarrow> 'b abstract_controller \<Rightarrow> 'b abstract_controller res" where
  "stallBuffer buf addr ac =
     (let vec = (case map_of (m_waiting_buffers ac) addr of
                   None \<Rightarrow> replicate (m_in_ports ac) None
                 | Some v \<Rightarrow> v)
      in bindE (assertE (m_cur_in_port ac < m_in_ports ac) ''m_in_ports > m_cur_in_port'') (\<lambda>_.
         bindE (updE vec (m_cur_in_port ac) (Some buf)) (\<lambda>vec'.
         Inr (ac\<lparr>m_waiting_buffers := map_put addr vec' (m_waiting_buffers ac)\<rparr>))))"

text \<open>The loops over the slots of an address, from one rank down to 0.\<close>

fun wake_slots :: "('b \<Rightarrow> 's \<Rightarrow> 's res) \<Rightarrow> 'b option list \<Rightarrow> nat list \<Rightarrow> 's \<Rightarrow> 's res" where
  "wake_slots reanalyze vec [] s = Inr s"
| "wake_slots reanalyze vec (rank # ranks) s =
     bindE (nthE vec rank) (\<lambda>p.
     bindE (case p of None \<Rightarrow> Inr s | Some buf \<Rightarrow> reanalyze buf s) (wake_slots reanalyze vec ranks))"

definition wakeUpBuffers ::
  "('b \<Rightarrow> 's \<Rightarrow> 's res) \<Rightarrow> Addr \<Rightarrow> 'b abstract_controller \<Rightarrow> 's \<Rightarrow> ('b abstract_controller \<times> 's) res" where
  "wakeUpBuffers reanalyze addr ac s =
     (case map_of (m_waiting_buffers ac) addr of
        None \<Rightarrow> Inr (ac, s)
      | Some vec \<Rightarrow>
          bindE (wake_slots reanalyze vec (rev [0..<m_cur_in_port ac]) s) (\<lambda>s'.
          Inr (ac\<lparr>m_waiting_buffers := map_drop addr (m_waiting_buffers ac)\<rparr>, s')))"

definition wakeUpAllBuffers_addr ::
  "('b \<Rightarrow> 's \<Rightarrow> 's res) \<Rightarrow> Addr \<Rightarrow> 'b abstract_controller \<Rightarrow> 's \<Rightarrow> ('b abstract_controller \<times> 's) res" where
  "wakeUpAllBuffers_addr reanalyze addr ac s =
     (case map_of (m_waiting_buffers ac) addr of
        None \<Rightarrow> Inr (ac, s)
      | Some vec \<Rightarrow>
          bindE (wake_slots reanalyze vec (rev [0..<m_in_ports ac]) s) (\<lambda>s'.
          Inr (ac\<lparr>m_waiting_buffers := map_drop addr (m_waiting_buffers ac)\<rparr>, s')))"

text \<open>One buffer: its slots are cleared, and the row is dropped when no other buffer waits.\<close>

fun clear_slots :: "('b \<Rightarrow> 's \<Rightarrow> 's res) \<Rightarrow> 'b \<Rightarrow> 'b option list \<Rightarrow> 's \<Rightarrow> ('b option list \<times> bool \<times> 's) res" where
  "clear_slots reanalyze buf [] s = Inr ([], False, s)"
| "clear_slots reanalyze buf (p # vec) s =
     (if p = Some buf then
        bindE (reanalyze buf s) (\<lambda>s1.
        bindE (clear_slots reanalyze buf vec s1) (\<lambda>(vec', other, s2). Inr (None # vec', other, s2)))
      else
        bindE (clear_slots reanalyze buf vec s) (\<lambda>(vec', other, s1).
        Inr (p # vec', other \<or> p \<noteq> None, s1)))"

definition wakeUpBuffer ::
  "('b \<Rightarrow> 's \<Rightarrow> 's res) \<Rightarrow> 'b \<Rightarrow> Addr \<Rightarrow> 'b abstract_controller \<Rightarrow> 's \<Rightarrow> ('b abstract_controller \<times> 's) res" where
  "wakeUpBuffer reanalyze buf addr ac s =
     (case map_of (m_waiting_buffers ac) addr of
        None \<Rightarrow> Inr (ac, s)
      | Some vec \<Rightarrow>
          bindE (clear_slots reanalyze buf vec s) (\<lambda>(vec', has_other_msgs, s').
          Inr (ac\<lparr>m_waiting_buffers :=
                 (if has_other_msgs then map_put addr vec' (m_waiting_buffers ac)
                  else map_drop addr (m_waiting_buffers ac))\<rparr>, s')))"

text \<open>All buffers of all addresses, each at most once.\<close>

fun wake_each :: "('b \<Rightarrow> 's \<Rightarrow> 's res) \<Rightarrow> 'b option list \<Rightarrow> 'b list \<Rightarrow> 's \<Rightarrow> 's res" where
  "wake_each reanalyze_all [] woken s = Inr s"
| "wake_each reanalyze_all (None # ps) woken s = wake_each reanalyze_all ps woken s"
| "wake_each reanalyze_all (Some buf # ps) woken s =
     (if buf \<in> set woken then wake_each reanalyze_all ps woken s
      else bindE (reanalyze_all buf s) (wake_each reanalyze_all ps (buf # woken)))"

definition wakeUpAllBuffers ::
  "('b \<Rightarrow> 's \<Rightarrow> 's res) \<Rightarrow> 'b abstract_controller \<Rightarrow> 's \<Rightarrow> ('b abstract_controller \<times> 's) res" where
  "wakeUpAllBuffers reanalyze_all ac s =
     bindE (wake_each reanalyze_all (concat (map snd (m_waiting_buffers ac))) [] s) (\<lambda>s'.
     Inr (ac\<lparr>m_waiting_buffers := []\<rparr>, s'))"

definition blockOnQueue :: "Addr \<Rightarrow> 'b \<Rightarrow> 'b abstract_controller \<Rightarrow> 'b abstract_controller" where
  "blockOnQueue addr port ac = ac\<lparr>m_is_blocking := True, m_block_map := map_put addr port (m_block_map ac)\<rparr>"

definition isBlocked_const :: "Addr \<Rightarrow> 'b abstract_controller \<Rightarrow> bool" where
  "isBlocked_const addr ac \<longleftrightarrow> m_is_blocking ac \<and> map_of (m_block_map ac) addr \<noteq> None"

definition unblock :: "Addr \<Rightarrow> 'b abstract_controller \<Rightarrow> 'b abstract_controller" where
  "unblock addr ac =
     (let ac1 = ac\<lparr>m_block_map := map_drop addr (m_block_map ac)\<rparr>
      in if m_block_map ac1 = [] then ac1\<lparr>m_is_blocking := False\<rparr> else ac1)"

definition isBlocked :: "Addr \<Rightarrow> 'b abstract_controller \<Rightarrow> bool" where
  "isBlocked addr ac \<longleftrightarrow> map_of (m_block_map ac) addr \<noteq> None"

section \<open>What they do\<close>

lemma stallBuffer_waiting:
  assumes "stallBuffer buf addr ac = Inr ac'"
  shows "map_of (m_waiting_buffers ac') b =
      (if b = addr
       then Some ((case map_of (m_waiting_buffers ac) addr of None \<Rightarrow> replicate (m_in_ports ac) None | Some v \<Rightarrow> v)
              [m_cur_in_port ac := Some buf])
       else map_of (m_waiting_buffers ac) b)"
    and "m_in_ports ac' = m_in_ports ac" and "m_cur_in_port ac' = m_cur_in_port ac"
  using assms by (auto simp: stallBuffer_def Let_def res_iffs updE_def split: if_splits)

lemma wakeUpBuffers_waiting:
  assumes "wakeUpBuffers f addr ac s = Inr (ac', s')"
  shows "map_of (m_waiting_buffers ac') b = (if b = addr then None else map_of (m_waiting_buffers ac) b)"
    and "m_in_ports ac' = m_in_ports ac" and "m_cur_in_port ac' = m_cur_in_port ac"
  using assms by (auto simp: wakeUpBuffers_def res_iffs split: option.splits)

end
