(* ===== verification/L2_Controller.thy ===== *)
theory L2_Controller
  imports L2_Messages TBE_Table Waiting_Buffers Cache_Memory
begin

text \<open>
  The L2 cache controller of the MESI two-level protocol
  (\<^verbatim>\<open>src/gem5/src/mem/ruby/protocol/MESI_Two_Level-L2cache.sm\<close>), which drives the STT-RAM cache: its
  states and events, its actions, its transitions, the in-ports that turn messages into events, and
  the loop that the protocol compiler (\<^verbatim>\<open>src/gem5/src/mem/slicc/symbols/StateMachine.py\<close>) generates around
  them.

  The controller owns the cache, the table of transaction buffer entries, three incoming and three
  outgoing message buffers, and the record of stalled buffers.  A pointer to a cache entry is its
  position in the cache, a pointer to a transaction buffer entry is its address, and the two pointers
  that the generated code passes to the actions of a transition are the fields \<open>m_cache_entry_ptr\<close> and
  \<open>m_tbe_ptr\<close> of \<open>l2_run\<close>.  The controller runs at its clock edges, so that \<^verbatim>\<open>clockEdge()\<close> and
  \<^verbatim>\<open>curTick()\<close> are the same tick \<open>now\<close>.  The directory an address maps to is part of the network and is
  the function \<open>dir_node\<close>.  Histogram samples and wake-ups of the controller are recorded in its state.
  The members \<^verbatim>\<open>addr\<close> of a transaction buffer entry and \<^verbatim>\<open>read_latency\<close>, \<^verbatim>\<open>write_latency\<close> of the machine are
  never used and left out; comments on transitions are trace output.
\<close>

section \<open>States, events and structures\<close>

datatype l2_state =
    NP | SS | M | MT
  | M_I | MT_I | MCT_I | I_I | S_I
  | ISS | IS | IM
  | SS_MB | MT_MB | MT_IIB | MT_IB | MT_SB

fun l2_state_to_permission :: "l2_state \<Rightarrow> AccessPermission" where
  "l2_state_to_permission NP = PermInvalid"
| "l2_state_to_permission SS = Read_Only"
| "l2_state_to_permission M = Read_Write"
| "l2_state_to_permission MT = Maybe_Stale"
| "l2_state_to_permission M_I = Busy"
| "l2_state_to_permission MT_I = Busy"
| "l2_state_to_permission MCT_I = Busy"
| "l2_state_to_permission I_I = Busy"
| "l2_state_to_permission S_I = Busy"
| "l2_state_to_permission ISS = Busy"
| "l2_state_to_permission IS = Busy"
| "l2_state_to_permission IM = Busy"
| "l2_state_to_permission SS_MB = Busy"
| "l2_state_to_permission MT_MB = Busy"
| "l2_state_to_permission MT_IIB = Busy"
| "l2_state_to_permission MT_IB = Busy"
| "l2_state_to_permission MT_SB = Busy"

datatype l2_event =
    L1_GET_INSTR | L1_GETS | L1_GETX | L1_UPGRADE | L1_PUTX | L1_PUTX_old
  | L2_Replacement | L2_Replacement_clean
  | Mem_Data | Mem_Ack
  | WB_Data | WB_Data_clean | Ack | Ack_all
  | Unblock | Exclusive_Unblock | MEM_Inv

text \<open>The subclass members of a cache entry; the last one is the protocol's own expiry flag.\<close>

record l2_entry =
  CacheState :: l2_state
  Sharers :: net_dest
  Exclusive :: machine_id
  ent_DataBlk :: data_block
  ent_Dirty :: bool
  ent_is_expired :: bool

record l2_tbe =
  TBEState :: l2_state
  tbe_DataBlk :: data_block
  tbe_Dirty :: bool
  L1_GetS_IDs :: net_dest
  L1_GetX_ID :: machine_id
  pendingAcks :: int

datatype l2_port = L1RequestL2Network_in | responseL2Network_in | L1unblockNetwork_in

type_synonym request_buffer = "request_msg message_buffer"
type_synonym response_buffer = "response_msg message_buffer"

record ('d, 'g) l2_controller =
  machineID :: machine_id
  num_controllers :: "machine_type \<Rightarrow> nat"
  ruby_block_size :: nat
  ruby_randomization :: bool
  ruby_warmup :: bool
  clockPeriod :: Tick
  dir_node :: "Addr \<Rightarrow> nat"
  transitions_per_cycle :: nat
  l2_request_latency :: Cycles
  l2_response_latency :: Cycles
  to_l1_latency :: Cycles
  recycle_latency :: Cycles
  L2cache :: "('d, 'g, l2_entry) cache_memory"
  TBEs :: "l2_tbe tbe_table"
  DirRequestFromL2Cache :: request_buffer
  L1RequestFromL2Cache :: request_buffer
  responseFromL2Cache :: response_buffer
  unblockToL2Cache :: response_buffer
  L1RequestToL2Cache :: request_buffer
  responseToL2Cache :: response_buffer
  l2_base :: "l2_port abstract_controller"
  l2_rng :: rng
  delay_samples :: "(nat \<times> Cycles) list"
  l2_wakeups :: "Cycles list"

record ('d, 'g) l2_run =
  this :: "('d, 'g) l2_controller"
  m_tbe_ptr :: "Addr option"
  m_cache_entry_ptr :: "(nat \<times> nat) option"

type_synonym ('d, 'g) l2_step = "('d, 'g) l2_run \<Rightarrow> ('d, 'g) l2_run res"

definition cyclesToTicks :: "Cycles \<Rightarrow> ('d, 'g) l2_controller \<Rightarrow> Tick" where
  "cyclesToTicks c s = clockPeriod s * c"

definition ticksToCycles :: "Tick \<Rightarrow> ('d, 'g) l2_controller \<Rightarrow> Cycles res" where
  "ticksToCycles t s = divCeil t (clockPeriod s)"

definition l2_entry_new :: l2_entry where
  "l2_entry_new =
     \<lparr>CacheState = NP, Sharers = nd_default, Exclusive = machine_id_default,
      ent_DataBlk = db_default, ent_Dirty = False, ent_is_expired = False\<rparr>"

definition l2_entry_setRubySystem :: "(machine_type \<Rightarrow> nat) \<Rightarrow> l2_entry \<Rightarrow> l2_entry res" where
  "l2_entry_setRubySystem counts e =
     bindE (nd_setRubySystem counts (Sharers e)) (\<lambda>nd. Inr (e\<lparr>Sharers := nd\<rparr>))"

definition l2_tbe_new :: "(machine_type \<Rightarrow> nat) \<Rightarrow> nat \<Rightarrow> l2_tbe res" where
  "l2_tbe_new counts block_size =
     bindE (db_new block_size) (\<lambda>d.
     bindE (nd_setRubySystem counts nd_default) (\<lambda>nd.
     Inr \<lparr>TBEState = NP, tbe_DataBlk = d, tbe_Dirty = False, L1_GetS_IDs = nd,
          L1_GetX_ID = machine_id_default, pendingAcks = 0\<rparr>))"

section \<open>Access to the parts of the controller\<close>

definition on_cache ::
  "(('d, 'g, l2_entry) cache_memory \<Rightarrow> ('d, 'g, l2_entry) cache_memory res) \<Rightarrow> ('d, 'g) l2_step" where
  "on_cache f r =
     bindE (f (L2cache (this r))) (\<lambda>c. Inr (r\<lparr>this := (this r)\<lparr>L2cache := c\<rparr>\<rparr>))"

definition the_entry :: "('d, 'g) l2_run \<Rightarrow> l2_entry res" where
  "the_entry r =
     bindE (derefE (m_cache_entry_ptr r)) (\<lambda>loc.
     bindE (entry_at (L2cache (this r)) loc) (\<lambda>e. Inr (cache_entry.more e)))"

definition upd_entry :: "(l2_entry \<Rightarrow> l2_entry res) \<Rightarrow> ('d, 'g) l2_step" where
  "upd_entry f r =
     bindE (derefE (m_cache_entry_ptr r)) (\<lambda>loc.
     on_cache (\<lambda>c.
       bindE (entry_at c loc) (\<lambda>e.
       bindE (f (cache_entry.more e)) (\<lambda>x.
       Inr (set_entry loc (cache_entry.more_update (\<lambda>_. x) e) c)))) r)"

definition the_tbe :: "('d, 'g) l2_run \<Rightarrow> l2_tbe res" where
  "the_tbe r =
     bindE (derefE (m_tbe_ptr r)) (\<lambda>a. derefE (tt_lookup a (TBEs (this r))))"

definition upd_tbe :: "(l2_tbe \<Rightarrow> l2_tbe res) \<Rightarrow> ('d, 'g) l2_step" where
  "upd_tbe f r =
     bindE (derefE (m_tbe_ptr r)) (\<lambda>a.
     bindE (derefE (tt_lookup a (TBEs (this r)))) (\<lambda>t.
     bindE (f t) (\<lambda>t'.
     Inr (r\<lparr>this := (this r)\<lparr>TBEs := tt_update a (\<lambda>_. t') (TBEs (this r))\<rparr>\<rparr>))))"

definition valid_entry :: "('d, 'g) l2_run \<Rightarrow> unit res" where
  "valid_entry r = assertE (m_cache_entry_ptr r \<noteq> None) ''is_valid(cache_entry)''"

definition valid_tbe :: "('d, 'g) l2_run \<Rightarrow> unit res" where
  "valid_tbe r = assertE (m_tbe_ptr r \<noteq> None) ''is_valid(tbe)''"

definition peek_request :: "('d, 'g) l2_run \<Rightarrow> request_msg res" where
  "peek_request r = bindE (mb_peek (L1RequestToL2Cache (this r))) (\<lambda>m. Inr (message.more m))"

definition peek_response :: "('d, 'g) l2_run \<Rightarrow> response_msg res" where
  "peek_response r = bindE (mb_peek (responseToL2Cache (this r))) (\<lambda>m. Inr (message.more m))"

definition peek_unblock :: "('d, 'g) l2_run \<Rightarrow> response_msg res" where
  "peek_unblock r = bindE (mb_peek (unblockToL2Cache (this r))) (\<lambda>m. Inr (message.more m))"

text \<open>The three \<^verbatim>\<open>enqueue\<close> statements; \<open>fill\<close> is their body.\<close>

definition enqueue_dir ::
  "Tick \<Rightarrow> Addr \<Rightarrow> CoherenceRequestType \<Rightarrow> MessageSizeType \<Rightarrow> (request_msg \<Rightarrow> request_msg res) \<Rightarrow> ('d, 'g) l2_step" where
  "enqueue_dir now a ty sz fill r =
     (let s = this r in
      bindE (request_new (num_controllers s) (ruby_block_size s) a ty sz) (\<lambda>m0.
      bindE (fill m0) (\<lambda>m.
      bindE (mb_enqueue (message_new now m) now (cyclesToTicks (l2_request_latency s) s)
               (ruby_randomization s) (ruby_warmup s) False (l2_rng s) (DirRequestFromL2Cache s)) (\<lambda>(b, g).
      Inr (r\<lparr>this := s\<lparr>DirRequestFromL2Cache := b, l2_rng := g\<rparr>\<rparr>)))))"

definition enqueue_l1 ::
  "Tick \<Rightarrow> Addr \<Rightarrow> CoherenceRequestType \<Rightarrow> MessageSizeType \<Rightarrow> (request_msg \<Rightarrow> request_msg res) \<Rightarrow> ('d, 'g) l2_step" where
  "enqueue_l1 now a ty sz fill r =
     (let s = this r in
      bindE (request_new (num_controllers s) (ruby_block_size s) a ty sz) (\<lambda>m0.
      bindE (fill m0) (\<lambda>m.
      bindE (mb_enqueue (message_new now m) now (cyclesToTicks (to_l1_latency s) s)
               (ruby_randomization s) (ruby_warmup s) False (l2_rng s) (L1RequestFromL2Cache s)) (\<lambda>(b, g).
      Inr (r\<lparr>this := s\<lparr>L1RequestFromL2Cache := b, l2_rng := g\<rparr>\<rparr>)))))"

definition enqueue_response ::
  "Tick \<Rightarrow> Addr \<Rightarrow> Cycles \<Rightarrow> CoherenceResponseType \<Rightarrow> MessageSizeType \<Rightarrow> (response_msg \<Rightarrow> response_msg res) \<Rightarrow>
     ('d, 'g) l2_step" where
  "enqueue_response now a latency ty sz fill r =
     (let s = this r in
      bindE (response_new (num_controllers s) (ruby_block_size s) a ty sz) (\<lambda>m0.
      bindE (fill m0) (\<lambda>m.
      bindE (mb_enqueue (message_new now m) now (cyclesToTicks latency s)
               (ruby_randomization s) (ruby_warmup s) False (l2_rng s) (responseFromL2Cache s)) (\<lambda>(b, g).
      Inr (r\<lparr>this := s\<lparr>responseFromL2Cache := b, l2_rng := g\<rparr>\<rparr>)))))"

definition to_request :: "machine_id \<Rightarrow> request_msg \<Rightarrow> request_msg res" where
  "to_request x m = bindE (nd_add x (rq_Destination m)) (\<lambda>d. Inr (m\<lparr>rq_Destination := d\<rparr>))"

definition to_response :: "machine_id \<Rightarrow> response_msg \<Rightarrow> response_msg res" where
  "to_response x m = bindE (nd_add x (rs_Destination m)) (\<lambda>d. Inr (m\<lparr>rs_Destination := d\<rparr>))"

definition with_data :: "data_block \<Rightarrow> response_msg \<Rightarrow> response_msg res" where
  "with_data blk m = bindE (db_assign blk (rs_DataBlk m)) (\<lambda>d. Inr (m\<lparr>rs_DataBlk := d\<rparr>))"

definition directory :: "Addr \<Rightarrow> ('d, 'g) l2_run \<Rightarrow> machine_id" where
  "directory a r = \<lparr>mid_type = Directory, mid_num = dir_node (this r) a\<rparr>"

definition profileMsgDelay :: "nat \<Rightarrow> Tick \<Rightarrow> ('d, 'g) l2_step" where
  "profileMsgDelay vnet delay r =
     bindE (ticksToCycles delay (this r)) (\<lambda>c.
     Inr (r\<lparr>this := (this r)\<lparr>delay_samples := delay_samples (this r) @ [(vnet, c)]\<rparr>\<rparr>))"

definition record_type :: "Tick \<Rightarrow> CacheRequestType \<Rightarrow> Addr \<Rightarrow> ('d, 'g) l2_step" where
  "record_type now t a = on_cache (recordRequestType now t a)"

definition addSharer :: "machine_id \<Rightarrow> ('d, 'g) l2_step" where
  "addSharer requestor r =
     bindE (valid_entry r) (\<lambda>_.
     upd_entry (\<lambda>e. bindE (nd_add requestor (Sharers e)) (\<lambda>nd. Inr (e\<lparr>Sharers := nd\<rparr>))) r)"

definition clear_sharers :: "('d, 'g) l2_step" where
  "clear_sharers = upd_entry (\<lambda>e. bindE (nd_clear (Sharers e)) (\<lambda>nd. Inr (e\<lparr>Sharers := nd\<rparr>)))"

end
