(* ===== verification/L2_Actions.thy ===== *)
theory L2_Actions
  imports L2_Controller
begin

text \<open>
  The actions of the L2 controller (\<^verbatim>\<open>src/gem5/src/mem/ruby/protocol/MESI_Two_Level-L2cache.sm\<close>), one
  definition each, in the order of the source, and the names by which the transitions refer to them.
\<close>

section \<open>Actions that send messages\<close>

definition z_recycleExpiredBlock :: "('d, 'g) repl_policy \<Rightarrow> Tick \<Rightarrow> Addr \<Rightarrow> ('d, 'g) l2_step" where
  "z_recycleExpiredBlock P now a r =
     (if m_cache_entry_ptr r = None then Inr r
      else bindE (the_entry r) (\<lambda>e.
        if ent_is_expired e
        then bindE (on_cache (deallocate P now a) r) (\<lambda>r1. Inr (r1\<lparr>m_cache_entry_ptr := None\<rparr>))
        else Inr r))"

definition a_issueFetchToMemory :: "Tick \<Rightarrow> Addr \<Rightarrow> ('d, 'g) l2_step" where
  "a_issueFetchToMemory now a r0 =
     bindE (record_type now TagArrayRead a r0) (\<lambda>r.
     bindE (peek_request r) (\<lambda>in_msg.
     enqueue_dir now a (rq_Type in_msg) Control (\<lambda>m.
       bindE (to_request (directory a r) (m\<lparr>rq_Requestor := machineID (this r)\<rparr>)) (\<lambda>m1.
       Inr (m1\<lparr>rq_AccessMode := rq_AccessMode in_msg, rq_Prefetch := rq_Prefetch in_msg\<rparr>))) r))"

definition b_forwardRequestToExclusive :: "Tick \<Rightarrow> Addr \<Rightarrow> ('d, 'g) l2_step" where
  "b_forwardRequestToExclusive now a r0 =
     bindE (record_type now TagArrayRead a r0) (\<lambda>r.
     bindE (peek_request r) (\<lambda>in_msg.
     enqueue_l1 now a (rq_Type in_msg) Request_Control (\<lambda>m.
       bindE (valid_entry r) (\<lambda>_.
       bindE (the_entry r) (\<lambda>e.
       to_request (Exclusive e) (m\<lparr>rq_Requestor := rq_Requestor in_msg\<rparr>)))) r))"

definition c_exclusiveReplacement :: "Tick \<Rightarrow> Addr \<Rightarrow> ('d, 'g) l2_step" where
  "c_exclusiveReplacement now a r0 =
     bindE (record_type now TagArrayRead a r0) (\<lambda>r1.
     bindE (record_type now DataArrayRead a r1) (\<lambda>r.
     enqueue_response now a (l2_response_latency (this r)) MEMORY_DATA Response_Data (\<lambda>m.
       bindE (valid_entry r) (\<lambda>_.
       bindE (the_entry r) (\<lambda>e.
       bindE (to_response (directory a r) (m\<lparr>rs_Sender := machineID (this r)\<rparr>)) (\<lambda>m1.
       bindE (with_data (ent_DataBlk e) m1) (\<lambda>m2. Inr (m2\<lparr>rs_Dirty := ent_Dirty e\<rparr>)))))) r))"

definition c_exclusiveCleanReplacement :: "Tick \<Rightarrow> Addr \<Rightarrow> ('d, 'g) l2_step" where
  "c_exclusiveCleanReplacement now a r0 =
     bindE (record_type now TagArrayRead a r0) (\<lambda>r.
     enqueue_response now a (l2_response_latency (this r)) ACK Response_Control (\<lambda>m.
       to_response (directory a r) (m\<lparr>rs_Sender := machineID (this r)\<rparr>)) r)"

definition ct_exclusiveReplacementFromTBE :: "Tick \<Rightarrow> Addr \<Rightarrow> ('d, 'g) l2_step" where
  "ct_exclusiveReplacementFromTBE now a r =
     enqueue_response now a (l2_response_latency (this r)) MEMORY_DATA Response_Data (\<lambda>m.
       bindE (valid_tbe r) (\<lambda>_.
       bindE (the_tbe r) (\<lambda>t.
       bindE (to_response (directory a r) (m\<lparr>rs_Sender := machineID (this r)\<rparr>)) (\<lambda>m1.
       bindE (with_data (tbe_DataBlk t) m1) (\<lambda>m2. Inr (m2\<lparr>rs_Dirty := tbe_Dirty t\<rparr>)))))) r"

text \<open>The answers to a requestor out of the cache, with the number of acknowledgements it has to expect.\<close>

definition ack_count :: "machine_id \<Rightarrow> l2_entry \<Rightarrow> int res" where
  "ack_count requestor e =
     bindE (nd_count (Sharers e)) (\<lambda>n.
     bindE (nd_isElement requestor (Sharers e)) (\<lambda>b. Inr (0 - int n + (if b then 1 else 0))))"

definition send_entry_data ::
  "CoherenceResponseType \<Rightarrow> bool \<Rightarrow> Tick \<Rightarrow> Addr \<Rightarrow> ('d, 'g) l2_step" where
  "send_entry_data ty acks now a r0 =
     bindE (record_type now TagArrayRead a r0) (\<lambda>r1.
     bindE (record_type now DataArrayRead a r1) (\<lambda>r.
     bindE (peek_request r) (\<lambda>in_msg.
     enqueue_response now a (l2_response_latency (this r)) ty Response_Data (\<lambda>m.
       bindE (valid_entry r) (\<lambda>_.
       bindE (the_entry r) (\<lambda>e.
       bindE (to_response (rq_Requestor in_msg) (m\<lparr>rs_Sender := machineID (this r)\<rparr>)) (\<lambda>m1.
       bindE (with_data (ent_DataBlk e) m1) (\<lambda>m2.
       bindE (if acks then ack_count (rq_Requestor in_msg) e else Inr 0) (\<lambda>n.
       Inr (m2\<lparr>rs_AckCount := n\<rparr>))))))) r)))"

definition d_sendDataToRequestor :: "Tick \<Rightarrow> Addr \<Rightarrow> ('d, 'g) l2_step" where
  "d_sendDataToRequestor = send_entry_data DATA True"

definition dd_sendExclusiveDataToRequestor :: "Tick \<Rightarrow> Addr \<Rightarrow> ('d, 'g) l2_step" where
  "dd_sendExclusiveDataToRequestor = send_entry_data DATA_EXCLUSIVE True"

definition ds_sendSharedDataToRequestor :: "Tick \<Rightarrow> Addr \<Rightarrow> ('d, 'g) l2_step" where
  "ds_sendSharedDataToRequestor = send_entry_data DATA False"

text \<open>The answers to the requestors recorded in the transaction buffer entry.\<close>

definition send_to_gets ::
  "CoherenceResponseType \<Rightarrow> (nat \<Rightarrow> bool) \<Rightarrow> string \<Rightarrow> Tick \<Rightarrow> Addr \<Rightarrow> ('d, 'g) l2_step" where
  "send_to_gets ty wanted txt now a r0 =
     bindE (valid_tbe r0) (\<lambda>_.
     bindE (the_tbe r0) (\<lambda>t0.
     bindE (nd_count (L1_GetS_IDs t0)) (\<lambda>n.
     bindE (assertE (wanted n) txt) (\<lambda>_.
     bindE (record_type now TagArrayRead a r0) (\<lambda>r1.
     bindE (record_type now DataArrayRead a r1) (\<lambda>r.
     enqueue_response now a (to_l1_latency (this r)) ty Response_Data (\<lambda>m.
       bindE (valid_entry r) (\<lambda>_.
       bindE (the_tbe r) (\<lambda>t.
       bindE (the_entry r) (\<lambda>e.
       with_data (ent_DataBlk e) (m\<lparr>rs_Sender := machineID (this r), rs_Destination := L1_GetS_IDs t\<rparr>))))) r))))))"

definition e_sendDataToGetSRequestors :: "Tick \<Rightarrow> Addr \<Rightarrow> ('d, 'g) l2_step" where
  "e_sendDataToGetSRequestors = send_to_gets DATA (\<lambda>n. 0 < n) ''tbe.L1_GetS_IDs.count() > 0''"

definition ex_sendExclusiveDataToGetSRequestors :: "Tick \<Rightarrow> Addr \<Rightarrow> ('d, 'g) l2_step" where
  "ex_sendExclusiveDataToGetSRequestors =
     send_to_gets DATA_EXCLUSIVE (\<lambda>n. n = 1) ''tbe.L1_GetS_IDs.count() == 1''"

definition ee_sendDataToGetXRequestor :: "Tick \<Rightarrow> Addr \<Rightarrow> ('d, 'g) l2_step" where
  "ee_sendDataToGetXRequestor now a r0 =
     bindE (record_type now TagArrayRead a r0) (\<lambda>r1.
     bindE (record_type now DataArrayRead a r1) (\<lambda>r.
     enqueue_response now a (to_l1_latency (this r)) DATA Response_Data (\<lambda>m.
       bindE (valid_tbe r) (\<lambda>_.
       bindE (valid_entry r) (\<lambda>_.
       bindE (the_tbe r) (\<lambda>t.
       bindE (the_entry r) (\<lambda>e.
       bindE (to_response (L1_GetX_ID t) (m\<lparr>rs_Sender := machineID (this r)\<rparr>)) (with_data (ent_DataBlk e))))))) r))"

definition f_sendInvToSharers :: "Tick \<Rightarrow> Addr \<Rightarrow> ('d, 'g) l2_step" where
  "f_sendInvToSharers now a r0 =
     bindE (record_type now TagArrayRead a r0) (\<lambda>r.
     enqueue_l1 now a Req_INV Request_Control (\<lambda>m.
       bindE (valid_entry r) (\<lambda>_.
       bindE (the_entry r) (\<lambda>e.
       Inr (m\<lparr>rq_Requestor := machineID (this r), rq_Destination := Sharers e\<rparr>)))) r)"

definition fw_sendFwdInvToSharers :: "Tick \<Rightarrow> Addr \<Rightarrow> ('d, 'g) l2_step" where
  "fw_sendFwdInvToSharers now a r0 =
     bindE (record_type now TagArrayRead a r0) (\<lambda>r.
     bindE (peek_request r) (\<lambda>in_msg.
     enqueue_l1 now a Req_INV Request_Control (\<lambda>m.
       bindE (valid_entry r) (\<lambda>_.
       bindE (the_entry r) (\<lambda>e.
       Inr (m\<lparr>rq_Requestor := rq_Requestor in_msg, rq_Destination := Sharers e\<rparr>)))) r))"

definition fwm_sendFwdInvToSharersMinusRequestor :: "Tick \<Rightarrow> Addr \<Rightarrow> ('d, 'g) l2_step" where
  "fwm_sendFwdInvToSharersMinusRequestor now a r0 =
     bindE (record_type now TagArrayRead a r0) (\<lambda>r.
     bindE (peek_request r) (\<lambda>in_msg.
     enqueue_l1 now a Req_INV Request_Control (\<lambda>m.
       bindE (valid_entry r) (\<lambda>_.
       bindE (the_entry r) (\<lambda>e.
       bindE (nd_remove (rq_Requestor in_msg) (Sharers e)) (\<lambda>d.
       Inr (m\<lparr>rq_Requestor := rq_Requestor in_msg, rq_Destination := d\<rparr>))))) r))"

section \<open>Actions on the cache, the transaction buffer entries and the queues\<close>

definition i_allocateTBE :: "Addr \<Rightarrow> ('d, 'g) l2_step" where
  "i_allocateTBE a r =
     bindE (valid_entry r) (\<lambda>_.
     bindE (tt_allocate (l2_tbe_new (num_controllers (this r))) a (TBEs (this r))) (\<lambda>tt.
     let r1 = r\<lparr>this := (this r)\<lparr>TBEs := tt\<rparr>, m_tbe_ptr := map_option (\<lambda>_. a) (tt_lookup a tt)\<rparr> in
     bindE (upd_tbe (\<lambda>t. bindE (nd_clear (L1_GetS_IDs t)) (\<lambda>nd. Inr (t\<lparr>L1_GetS_IDs := nd\<rparr>))) r1) (\<lambda>r2.
     bindE (the_entry r2) (\<lambda>e.
     bindE (if CacheState e \<noteq> NP
            then upd_tbe (\<lambda>t. bindE (db_assign (ent_DataBlk e) (tbe_DataBlk t)) (\<lambda>d.
                   Inr (t\<lparr>tbe_DataBlk := d, tbe_Dirty := ent_Dirty e\<rparr>))) r2
            else Inr r2) (\<lambda>r3.
     bindE (nd_count (Sharers e)) (\<lambda>n.
     upd_tbe (\<lambda>t. Inr (t\<lparr>pendingAcks := int n\<rparr>)) r3))))))"

definition s_deallocateTBE :: "Addr \<Rightarrow> ('d, 'g) l2_step" where
  "s_deallocateTBE a r =
     bindE (tt_deallocate a (TBEs (this r))) (\<lambda>tt.
     Inr (r\<lparr>this := (this r)\<lparr>TBEs := tt\<rparr>, m_tbe_ptr := None\<rparr>))"

definition jj_popL1RequestQueue :: "Tick \<Rightarrow> ('d, 'g) l2_step" where
  "jj_popL1RequestQueue now r =
     bindE (mb_dequeue now now True (L1RequestToL2Cache (this r))) (\<lambda>(delay, b).
     profileMsgDelay 0 delay (r\<lparr>this := (this r)\<lparr>L1RequestToL2Cache := b\<rparr>\<rparr>))"

definition k_popUnblockQueue :: "Tick \<Rightarrow> ('d, 'g) l2_step" where
  "k_popUnblockQueue now r =
     bindE (mb_dequeue now now True (unblockToL2Cache (this r))) (\<lambda>(delay, b).
     profileMsgDelay 0 delay (r\<lparr>this := (this r)\<lparr>unblockToL2Cache := b\<rparr>\<rparr>))"

definition o_popIncomingResponseQueue :: "Tick \<Rightarrow> ('d, 'g) l2_step" where
  "o_popIncomingResponseQueue now r =
     bindE (mb_dequeue now now True (responseToL2Cache (this r))) (\<lambda>(delay, b).
     profileMsgDelay 1 delay (r\<lparr>this := (this r)\<lparr>responseToL2Cache := b\<rparr>\<rparr>))"

definition m_writeDataToCache :: "Tick \<Rightarrow> Addr \<Rightarrow> ('d, 'g) l2_step" where
  "m_writeDataToCache now a r0 =
     bindE (record_type now TagArrayRead a r0) (\<lambda>r1.
     bindE (record_type now DataArrayWrite a r1) (\<lambda>r.
     bindE (peek_response r) (\<lambda>in_msg.
     bindE (valid_entry r) (\<lambda>_.
     upd_entry (\<lambda>e. bindE (db_assign (rs_DataBlk in_msg) (ent_DataBlk e)) (\<lambda>d.
       Inr (e\<lparr>ent_DataBlk := d, ent_Dirty := (if rs_Dirty in_msg then rs_Dirty in_msg else ent_Dirty e)\<rparr>))) r))))"

definition mr_writeDataToCacheFromRequest :: "('d, 'g) l2_step" where
  "mr_writeDataToCacheFromRequest r =
     bindE (peek_request r) (\<lambda>in_msg.
     bindE (valid_entry r) (\<lambda>_.
     if rq_Dirty in_msg
     then upd_entry (\<lambda>e. bindE (db_assign (rq_DataBlk in_msg) (ent_DataBlk e)) (\<lambda>d.
            Inr (e\<lparr>ent_DataBlk := d, ent_Dirty := rq_Dirty in_msg\<rparr>))) r
     else Inr r))"

definition q_updateAck :: "('d, 'g) l2_step" where
  "q_updateAck r =
     bindE (peek_response r) (\<lambda>in_msg.
     bindE (valid_tbe r) (\<lambda>_.
     upd_tbe (\<lambda>t. Inr (t\<lparr>pendingAcks := pendingAcks t - rs_AckCount in_msg\<rparr>)) r))"

definition qq_writeDataToTBE :: "('d, 'g) l2_step" where
  "qq_writeDataToTBE r =
     bindE (peek_response r) (\<lambda>in_msg.
     bindE (valid_tbe r) (\<lambda>_.
     upd_tbe (\<lambda>t. bindE (db_assign (rs_DataBlk in_msg) (tbe_DataBlk t)) (\<lambda>d.
       Inr (t\<lparr>tbe_DataBlk := d, tbe_Dirty := rs_Dirty in_msg\<rparr>))) r))"

definition ss_recordGetSL1ID :: "('d, 'g) l2_step" where
  "ss_recordGetSL1ID r =
     bindE (peek_request r) (\<lambda>in_msg.
     bindE (valid_tbe r) (\<lambda>_.
     upd_tbe (\<lambda>t. bindE (nd_add (rq_Requestor in_msg) (L1_GetS_IDs t)) (\<lambda>nd. Inr (t\<lparr>L1_GetS_IDs := nd\<rparr>))) r))"

definition xx_recordGetXL1ID :: "('d, 'g) l2_step" where
  "xx_recordGetXL1ID r =
     bindE (peek_request r) (\<lambda>in_msg.
     bindE (valid_tbe r) (\<lambda>_. upd_tbe (\<lambda>t. Inr (t\<lparr>L1_GetX_ID := rq_Requestor in_msg\<rparr>)) r))"

definition set_setMRU :: "('d, 'g) repl_policy \<Rightarrow> Tick \<Rightarrow> Addr \<Rightarrow> ('d, 'g) l2_step" where
  "set_setMRU P now a = on_cache (setMRU P now a)"

text \<open>
  \<^verbatim>\<open>set_cache_entry\<close> gives the new entry its Ruby system.  The constructor leaves two integers of the
  entry indeterminate that nothing here reads; they are 0.
\<close>

definition qq_allocateL2CacheBlock :: "('d, 'g) repl_policy \<Rightarrow> Tick \<Rightarrow> Addr \<Rightarrow> ('d, 'g) l2_step" where
  "qq_allocateL2CacheBlock P now a r =
     (if m_cache_entry_ptr r \<noteq> None then Inr r
      else bindE (allocate P now a (entry_new now 0 0 l2_entry_new) (L2cache (this r))) (\<lambda>(loc, c).
        upd_entry (l2_entry_setRubySystem (num_controllers (this r)))
          (r\<lparr>this := (this r)\<lparr>L2cache := c\<rparr>, m_cache_entry_ptr := Some loc\<rparr>)))"

definition rr_deallocateL2CacheBlock :: "('d, 'g) repl_policy \<Rightarrow> Tick \<Rightarrow> Addr \<Rightarrow> ('d, 'g) l2_step" where
  "rr_deallocateL2CacheBlock P now a r =
     bindE (on_cache (deallocate P now a) r) (\<lambda>r1. Inr (r1\<lparr>m_cache_entry_ptr := None\<rparr>))"

definition t_sendWBAck :: "Tick \<Rightarrow> Addr \<Rightarrow> ('d, 'g) l2_step" where
  "t_sendWBAck now a r =
     bindE (peek_request r) (\<lambda>in_msg.
     enqueue_response now a (to_l1_latency (this r)) WB_ACK Response_Control (\<lambda>m.
       to_response (rq_Requestor in_msg) (m\<lparr>rs_Sender := machineID (this r)\<rparr>)) r)"

definition ts_sendInvAckToUpgrader :: "Tick \<Rightarrow> Addr \<Rightarrow> ('d, 'g) l2_step" where
  "ts_sendInvAckToUpgrader now a r =
     bindE (peek_request r) (\<lambda>in_msg.
     enqueue_response now a (to_l1_latency (this r)) ACK Response_Control (\<lambda>m.
       bindE (valid_entry r) (\<lambda>_.
       bindE (the_entry r) (\<lambda>e.
       bindE (to_response (rq_Requestor in_msg) (m\<lparr>rs_Sender := machineID (this r)\<rparr>)) (\<lambda>m1.
       bindE (nd_count (Sharers e)) (\<lambda>n. Inr (m1\<lparr>rs_AckCount := 0 - int n + 1\<rparr>)))))) r)"

definition uu_profileMiss :: "('d, 'g) l2_step" where
  "uu_profileMiss = on_cache (\<lambda>c. Inr (profileDemandMiss c))"

definition uu_profileHit :: "('d, 'g) l2_step" where
  "uu_profileHit = on_cache (\<lambda>c. Inr (profileDemandHit c))"

definition nn_addSharer :: "('d, 'g) l2_step" where
  "nn_addSharer r =
     bindE (peek_request r) (\<lambda>in_msg. bindE (valid_entry r) (\<lambda>_. addSharer (rq_Requestor in_msg) r))"

definition nnu_addSharerFromUnblock :: "('d, 'g) l2_step" where
  "nnu_addSharerFromUnblock r =
     bindE (peek_unblock r) (\<lambda>in_msg. bindE (valid_entry r) (\<lambda>_. addSharer (rs_Sender in_msg) r))"

definition kk_removeRequestSharer :: "('d, 'g) l2_step" where
  "kk_removeRequestSharer r =
     bindE (peek_request r) (\<lambda>in_msg.
     bindE (valid_entry r) (\<lambda>_.
     upd_entry (\<lambda>e. bindE (nd_remove (rq_Requestor in_msg) (Sharers e)) (\<lambda>nd. Inr (e\<lparr>Sharers := nd\<rparr>))) r))"

definition ll_clearSharers :: "('d, 'g) l2_step" where
  "ll_clearSharers r =
     bindE (peek_request r) (\<lambda>_. bindE (valid_entry r) (\<lambda>_. clear_sharers r))"

definition mark_exclusive :: "machine_id \<Rightarrow> ('d, 'g) l2_step" where
  "mark_exclusive x r =
     bindE (valid_entry r) (\<lambda>_.
     bindE (clear_sharers r) (\<lambda>r1.
     bindE (upd_entry (\<lambda>e. Inr (e\<lparr>Exclusive := x\<rparr>)) r1) (addSharer x)))"

definition mm_markExclusive :: "('d, 'g) l2_step" where
  "mm_markExclusive r = bindE (peek_request r) (\<lambda>in_msg. mark_exclusive (rq_Requestor in_msg) r)"

definition mmu_markExclusiveFromUnblock :: "('d, 'g) l2_step" where
  "mmu_markExclusiveFromUnblock r = bindE (peek_unblock r) (\<lambda>in_msg. mark_exclusive (rs_Sender in_msg) r)"

definition qqr_writeDataToTBEFromPUTX :: "('d, 'g) l2_step" where
  "qqr_writeDataToTBEFromPUTX r =
     bindE (peek_request r) (\<lambda>in_msg.
     bindE (valid_tbe r) (\<lambda>_.
     if rq_Dirty in_msg
     then upd_tbe (\<lambda>t. bindE (db_assign (rq_DataBlk in_msg) (tbe_DataBlk t)) (\<lambda>d.
            Inr (t\<lparr>tbe_DataBlk := d, tbe_Dirty := True\<rparr>))) r
     else Inr r))"

definition zz_stallAndWaitL1RequestQueue :: "Tick \<Rightarrow> Addr \<Rightarrow> ('d, 'g) l2_step" where
  "zz_stallAndWaitL1RequestQueue now a r =
     (let s = this r in
      bindE (stallBuffer L1RequestL2Network_in a (l2_base s)) (\<lambda>ac.
      bindE (mb_stallMessage a now now (L1RequestToL2Cache s)) (\<lambda>b.
      Inr (r\<lparr>this := s\<lparr>l2_base := ac, L1RequestToL2Cache := b\<rparr>\<rparr>))))"

definition zn_recycleResponseNetwork :: "Tick \<Rightarrow> ('d, 'g) l2_step" where
  "zn_recycleResponseNetwork now r =
     (let s = this r in
      bindE (mb_recycle now (cyclesToTicks (recycle_latency s) s) (responseToL2Cache s)) (\<lambda>b.
      Inr (r\<lparr>this := s\<lparr>responseToL2Cache := b\<rparr>\<rparr>)))"

text \<open>\<^verbatim>\<open>reanalyzeMessages\<close> on the buffer that a slot names.\<close>

fun l2_reanalyze :: "Addr \<Rightarrow> Tick \<Rightarrow> l2_port \<Rightarrow> ('d, 'g) l2_controller \<Rightarrow> ('d, 'g) l2_controller res" where
  "l2_reanalyze a now L1RequestL2Network_in s =
     bindE (mb_reanalyzeMessages a now (L1RequestToL2Cache s)) (\<lambda>b. Inr (s\<lparr>L1RequestToL2Cache := b\<rparr>))"
| "l2_reanalyze a now responseL2Network_in s =
     bindE (mb_reanalyzeMessages a now (responseToL2Cache s)) (\<lambda>b. Inr (s\<lparr>responseToL2Cache := b\<rparr>))"
| "l2_reanalyze a now L1unblockNetwork_in s =
     bindE (mb_reanalyzeMessages a now (unblockToL2Cache s)) (\<lambda>b. Inr (s\<lparr>unblockToL2Cache := b\<rparr>))"

definition kd_wakeUpDependents :: "Tick \<Rightarrow> Addr \<Rightarrow> ('d, 'g) l2_step" where
  "kd_wakeUpDependents now a r =
     bindE (wakeUpBuffers (l2_reanalyze a now) a (l2_base (this r)) (this r)) (\<lambda>(ac, s).
     Inr (r\<lparr>this := s\<lparr>l2_base := ac\<rparr>\<rparr>))"

section \<open>The names of the actions\<close>

datatype l2_action =
    Z_recycleExpiredBlock | A_issueFetchToMemory | B_forwardRequestToExclusive
  | C_exclusiveReplacement | C_exclusiveCleanReplacement | CT_exclusiveReplacementFromTBE
  | D_sendDataToRequestor | DD_sendExclusiveDataToRequestor | DS_sendSharedDataToRequestor
  | E_sendDataToGetSRequestors | EX_sendExclusiveDataToGetSRequestors | EE_sendDataToGetXRequestor
  | F_sendInvToSharers | FW_sendFwdInvToSharers | FWM_sendFwdInvToSharersMinusRequestor
  | I_allocateTBE | S_deallocateTBE | JJ_popL1RequestQueue | K_popUnblockQueue
  | O_popIncomingResponseQueue | M_writeDataToCache | MR_writeDataToCacheFromRequest
  | Q_updateAck | QQ_writeDataToTBE | SS_recordGetSL1ID | XX_recordGetXL1ID | SET_setMRU
  | QQ_allocateL2CacheBlock | RR_deallocateL2CacheBlock | T_sendWBAck | TS_sendInvAckToUpgrader
  | UU_profileMiss | UU_profileHit | NN_addSharer | NNU_addSharerFromUnblock
  | KK_removeRequestSharer | LL_clearSharers | MM_markExclusive | MMU_markExclusiveFromUnblock
  | QQR_writeDataToTBEFromPUTX | ZZ_stallAndWaitL1RequestQueue | ZN_recycleResponseNetwork
  | KD_wakeUpDependents

fun run_action :: "('d, 'g) repl_policy \<Rightarrow> Tick \<Rightarrow> Addr \<Rightarrow> l2_action \<Rightarrow> ('d, 'g) l2_step" where
  "run_action P now a Z_recycleExpiredBlock = z_recycleExpiredBlock P now a"
| "run_action P now a A_issueFetchToMemory = a_issueFetchToMemory now a"
| "run_action P now a B_forwardRequestToExclusive = b_forwardRequestToExclusive now a"
| "run_action P now a C_exclusiveReplacement = c_exclusiveReplacement now a"
| "run_action P now a C_exclusiveCleanReplacement = c_exclusiveCleanReplacement now a"
| "run_action P now a CT_exclusiveReplacementFromTBE = ct_exclusiveReplacementFromTBE now a"
| "run_action P now a D_sendDataToRequestor = d_sendDataToRequestor now a"
| "run_action P now a DD_sendExclusiveDataToRequestor = dd_sendExclusiveDataToRequestor now a"
| "run_action P now a DS_sendSharedDataToRequestor = ds_sendSharedDataToRequestor now a"
| "run_action P now a E_sendDataToGetSRequestors = e_sendDataToGetSRequestors now a"
| "run_action P now a EX_sendExclusiveDataToGetSRequestors = ex_sendExclusiveDataToGetSRequestors now a"
| "run_action P now a EE_sendDataToGetXRequestor = ee_sendDataToGetXRequestor now a"
| "run_action P now a F_sendInvToSharers = f_sendInvToSharers now a"
| "run_action P now a FW_sendFwdInvToSharers = fw_sendFwdInvToSharers now a"
| "run_action P now a FWM_sendFwdInvToSharersMinusRequestor = fwm_sendFwdInvToSharersMinusRequestor now a"
| "run_action P now a I_allocateTBE = i_allocateTBE a"
| "run_action P now a S_deallocateTBE = s_deallocateTBE a"
| "run_action P now a JJ_popL1RequestQueue = jj_popL1RequestQueue now"
| "run_action P now a K_popUnblockQueue = k_popUnblockQueue now"
| "run_action P now a O_popIncomingResponseQueue = o_popIncomingResponseQueue now"
| "run_action P now a M_writeDataToCache = m_writeDataToCache now a"
| "run_action P now a MR_writeDataToCacheFromRequest = mr_writeDataToCacheFromRequest"
| "run_action P now a Q_updateAck = q_updateAck"
| "run_action P now a QQ_writeDataToTBE = qq_writeDataToTBE"
| "run_action P now a SS_recordGetSL1ID = ss_recordGetSL1ID"
| "run_action P now a XX_recordGetXL1ID = xx_recordGetXL1ID"
| "run_action P now a SET_setMRU = set_setMRU P now a"
| "run_action P now a QQ_allocateL2CacheBlock = qq_allocateL2CacheBlock P now a"
| "run_action P now a RR_deallocateL2CacheBlock = rr_deallocateL2CacheBlock P now a"
| "run_action P now a T_sendWBAck = t_sendWBAck now a"
| "run_action P now a TS_sendInvAckToUpgrader = ts_sendInvAckToUpgrader now a"
| "run_action P now a UU_profileMiss = uu_profileMiss"
| "run_action P now a UU_profileHit = uu_profileHit"
| "run_action P now a NN_addSharer = nn_addSharer"
| "run_action P now a NNU_addSharerFromUnblock = nnu_addSharerFromUnblock"
| "run_action P now a KK_removeRequestSharer = kk_removeRequestSharer"
| "run_action P now a LL_clearSharers = ll_clearSharers"
| "run_action P now a MM_markExclusive = mm_markExclusive"
| "run_action P now a MMU_markExclusiveFromUnblock = mmu_markExclusiveFromUnblock"
| "run_action P now a QQR_writeDataToTBEFromPUTX = qqr_writeDataToTBEFromPUTX"
| "run_action P now a ZZ_stallAndWaitL1RequestQueue = zz_stallAndWaitL1RequestQueue now a"
| "run_action P now a ZN_recycleResponseNetwork = zn_recycleResponseNetwork now"
| "run_action P now a KD_wakeUpDependents = kd_wakeUpDependents now a"

fun run_actions :: "('d, 'g) repl_policy \<Rightarrow> Tick \<Rightarrow> Addr \<Rightarrow> l2_action list \<Rightarrow> ('d, 'g) l2_step" where
  "run_actions P now a [] r = Inr r"
| "run_actions P now a (x # xs) r = bindE (run_action P now a x r) (run_actions P now a xs)"

end
