(* ===== verification/L2_Machine.thy ===== *)
theory L2_Machine
  imports L2_Actions
begin

text \<open>
  The transitions of the L2 controller, its in-ports and its wake-up loop
  (\<^verbatim>\<open>src/gem5/src/mem/ruby/protocol/MESI_Two_Level-L2cache.sm\<close> and the code that
  \<^verbatim>\<open>src/gem5/src/mem/slicc/symbols/StateMachine.py\<close> generates for it).
\<close>

section \<open>Transitions\<close>

text \<open>
  A rule lists its states, its events, its next state (\<open>None\<close> where the source names none, so that
  the state stays) and its actions, in the order of the source.
\<close>

type_synonym l2_rule = "l2_state list \<times> l2_event list \<times> l2_state option \<times> l2_action list"

definition l2_rules :: "l2_rule list" where
  "l2_rules =
   [([NP, IS, ISS, IM, SS, M, M_I, I_I, S_I, MT_IB, MT_SB], [L1_PUTX], None,
       [T_sendWBAck, JJ_popL1RequestQueue]),
    ([NP, SS, M, MT, M_I, I_I, S_I, IS, ISS, IM, MT_IB, MT_SB], [L1_PUTX_old], None,
       [T_sendWBAck, JJ_popL1RequestQueue]),
    ([IM, IS, ISS, SS_MB, MT_MB, MT_IIB, MT_IB, MT_SB], [L2_Replacement, L2_Replacement_clean], None,
       [ZZ_stallAndWaitL1RequestQueue]),
    ([SS_MB, MT_MB, MT_IIB, MT_IB, MT_SB], [MEM_Inv], None, [ZN_recycleResponseNetwork]),
    ([NP, IM, IS, ISS], [MEM_Inv], None, [C_exclusiveCleanReplacement, O_popIncomingResponseQueue]),
    ([I_I, S_I, M_I, MT_I, MCT_I], [MEM_Inv], None, [O_popIncomingResponseQueue]),
    ([NP, IM, IS, ISS], [Mem_Ack], None, [O_popIncomingResponseQueue]),
    ([SS_MB, MT_MB, MT_IIB, MT_IB, MT_SB], [L1_GETS, L1_GET_INSTR, L1_GETX, L1_UPGRADE], None,
       [ZZ_stallAndWaitL1RequestQueue]),
    ([NP], [L1_GETS], Some ISS,
       [QQ_allocateL2CacheBlock, LL_clearSharers, NN_addSharer, I_allocateTBE, SS_recordGetSL1ID,
        A_issueFetchToMemory, UU_profileMiss, JJ_popL1RequestQueue]),
    ([NP], [L1_GET_INSTR], Some IS,
       [QQ_allocateL2CacheBlock, LL_clearSharers, NN_addSharer, I_allocateTBE, SS_recordGetSL1ID,
        A_issueFetchToMemory, UU_profileMiss, JJ_popL1RequestQueue]),
    ([NP], [L1_GETX], Some IM,
       [QQ_allocateL2CacheBlock, LL_clearSharers, I_allocateTBE, XX_recordGetXL1ID,
        A_issueFetchToMemory, UU_profileMiss, JJ_popL1RequestQueue]),
    ([ISS], [Mem_Data], Some MT_MB,
       [M_writeDataToCache, EX_sendExclusiveDataToGetSRequestors, S_deallocateTBE,
        O_popIncomingResponseQueue]),
    ([IS], [Mem_Data], Some SS,
       [M_writeDataToCache, E_sendDataToGetSRequestors, S_deallocateTBE, O_popIncomingResponseQueue,
        KD_wakeUpDependents]),
    ([IM], [Mem_Data], Some MT_MB,
       [M_writeDataToCache, EE_sendDataToGetXRequestor, S_deallocateTBE, O_popIncomingResponseQueue]),
    ([IS, ISS], [L1_GETS, L1_GET_INSTR], Some IS,
       [NN_addSharer, SS_recordGetSL1ID, UU_profileMiss, JJ_popL1RequestQueue]),
    ([IS, ISS], [L1_GETX], None, [ZZ_stallAndWaitL1RequestQueue]),
    ([IM], [L1_GETX, L1_GETS, L1_GET_INSTR], None, [ZZ_stallAndWaitL1RequestQueue]),
    ([SS], [L1_GETS, L1_GET_INSTR], None,
       [DS_sendSharedDataToRequestor, NN_addSharer, SET_setMRU, UU_profileHit, JJ_popL1RequestQueue]),
    ([SS], [L1_GETX], Some SS_MB,
       [D_sendDataToRequestor, FWM_sendFwdInvToSharersMinusRequestor, SET_setMRU, UU_profileHit,
        JJ_popL1RequestQueue]),
    ([SS], [L1_UPGRADE], Some SS_MB,
       [FWM_sendFwdInvToSharersMinusRequestor, TS_sendInvAckToUpgrader, SET_setMRU, UU_profileHit,
        JJ_popL1RequestQueue]),
    ([SS], [L2_Replacement_clean], Some I_I, [I_allocateTBE, F_sendInvToSharers, RR_deallocateL2CacheBlock]),
    ([SS], [L2_Replacement, MEM_Inv], Some S_I,
       [I_allocateTBE, F_sendInvToSharers, RR_deallocateL2CacheBlock]),
    ([M], [L1_GETX], Some MT_MB, [D_sendDataToRequestor, SET_setMRU, UU_profileHit, JJ_popL1RequestQueue]),
    ([M], [L1_GET_INSTR], Some SS,
       [D_sendDataToRequestor, NN_addSharer, SET_setMRU, UU_profileHit, JJ_popL1RequestQueue]),
    ([M], [L1_GETS], Some MT_MB,
       [DD_sendExclusiveDataToRequestor, SET_setMRU, UU_profileHit, JJ_popL1RequestQueue]),
    ([M], [L2_Replacement, MEM_Inv], Some M_I,
       [I_allocateTBE, C_exclusiveReplacement, RR_deallocateL2CacheBlock]),
    ([M], [L2_Replacement_clean], Some M_I,
       [I_allocateTBE, C_exclusiveCleanReplacement, RR_deallocateL2CacheBlock]),
    ([MT], [L1_GETX], Some MT_MB,
       [B_forwardRequestToExclusive, UU_profileMiss, SET_setMRU, JJ_popL1RequestQueue]),
    ([MT], [L1_GETS, L1_GET_INSTR], Some MT_IIB,
       [B_forwardRequestToExclusive, UU_profileMiss, SET_setMRU, JJ_popL1RequestQueue]),
    ([MT], [L2_Replacement, MEM_Inv], Some MT_I,
       [I_allocateTBE, F_sendInvToSharers, RR_deallocateL2CacheBlock]),
    ([MT], [L2_Replacement_clean], Some MCT_I,
       [I_allocateTBE, F_sendInvToSharers, RR_deallocateL2CacheBlock]),
    ([MT], [L1_PUTX], Some M,
       [LL_clearSharers, MR_writeDataToCacheFromRequest, T_sendWBAck, JJ_popL1RequestQueue]),
    ([SS_MB, MT_MB], [Exclusive_Unblock], Some MT,
       [MMU_markExclusiveFromUnblock, K_popUnblockQueue, KD_wakeUpDependents]),
    ([MT_IIB], [L1_PUTX, L1_PUTX_old], None, [ZZ_stallAndWaitL1RequestQueue]),
    ([MT_IIB], [Unblock], Some MT_IB, [NNU_addSharerFromUnblock, K_popUnblockQueue]),
    ([MT_IIB], [WB_Data, WB_Data_clean], Some MT_SB, [M_writeDataToCache, O_popIncomingResponseQueue]),
    ([MT_IB], [WB_Data, WB_Data_clean], Some SS,
       [M_writeDataToCache, O_popIncomingResponseQueue, KD_wakeUpDependents]),
    ([MT_SB], [Unblock], Some SS, [NNU_addSharerFromUnblock, K_popUnblockQueue, KD_wakeUpDependents]),
    ([I_I, S_I, MT_I, MCT_I, M_I], [L1_GETX, L1_UPGRADE, L1_GETS, L1_GET_INSTR], None,
       [ZZ_stallAndWaitL1RequestQueue]),
    ([I_I], [Ack], None, [Q_updateAck, O_popIncomingResponseQueue]),
    ([I_I], [Ack_all], Some M_I, [C_exclusiveCleanReplacement, O_popIncomingResponseQueue]),
    ([MT_I, MCT_I], [WB_Data], Some M_I,
       [QQ_writeDataToTBE, CT_exclusiveReplacementFromTBE, O_popIncomingResponseQueue]),
    ([MCT_I], [WB_Data_clean, Ack_all], Some M_I, [C_exclusiveCleanReplacement, O_popIncomingResponseQueue]),
    ([MCT_I], [L1_PUTX, L1_PUTX_old], Some M_I,
       [QQR_writeDataToTBEFromPUTX, CT_exclusiveReplacementFromTBE, T_sendWBAck, JJ_popL1RequestQueue]),
    ([MT_I], [L1_PUTX, L1_PUTX_old], Some M_I,
       [QQR_writeDataToTBEFromPUTX, CT_exclusiveReplacementFromTBE, T_sendWBAck, JJ_popL1RequestQueue]),
    ([MT_MB, SS_MB], [L1_PUTX, L1_PUTX_old], None, [ZZ_stallAndWaitL1RequestQueue]),
    ([S_I], [Ack], None, [Q_updateAck, O_popIncomingResponseQueue]),
    ([S_I], [Ack_all], Some M_I, [CT_exclusiveReplacementFromTBE, O_popIncomingResponseQueue]),
    ([M_I], [Mem_Ack], Some NP, [S_deallocateTBE, O_popIncomingResponseQueue, KD_wakeUpDependents]),
    ([M_I], [Ack, Ack_all], None, [O_popIncomingResponseQueue]),
    ([NP], [WB_Data, WB_Data_clean], None, [O_popIncomingResponseQueue]),
    ([NP], [Ack, Ack_all], None, [O_popIncomingResponseQueue]),
    ([M_I], [WB_Data, WB_Data_clean], None, [O_popIncomingResponseQueue]),
    ([NP], [Exclusive_Unblock, Unblock], None, [K_popUnblockQueue]),
    ([MT_I], [WB_Data_clean, Ack_all], Some M_I, [CT_exclusiveReplacementFromTBE, O_popIncomingResponseQueue]),
    ([MT_I], [Ack], None, [Q_updateAck, O_popIncomingResponseQueue])]"

definition rule_applies :: "l2_state \<Rightarrow> l2_event \<Rightarrow> l2_rule \<Rightarrow> bool" where
  "rule_applies st ev rl = (case rl of (sts, evs, _, _) \<Rightarrow> st \<in> set sts \<and> ev \<in> set evs)"

definition l2_transition :: "l2_state \<Rightarrow> l2_event \<Rightarrow> (l2_state \<times> l2_action list) option" where
  "l2_transition st ev =
     (case find (rule_applies st ev) l2_rules of
        None \<Rightarrow> None
      | Some (_, _, nxt, acts) \<Rightarrow> Some (case nxt of None \<Rightarrow> st | Some st' \<Rightarrow> st', acts))"

text \<open>The resources the compiler adds up over the actions of a transition.\<close>

fun dir_slots :: "l2_action \<Rightarrow> nat" where
  "dir_slots A_issueFetchToMemory = 1"
| "dir_slots _ = 0"

fun l1_slots :: "l2_action \<Rightarrow> nat" where
  "l1_slots B_forwardRequestToExclusive = 1"
| "l1_slots F_sendInvToSharers = 1"
| "l1_slots FW_sendFwdInvToSharers = 1"
| "l1_slots FWM_sendFwdInvToSharersMinusRequestor = 1"
| "l1_slots _ = 0"

fun tbe_slots :: "l2_action \<Rightarrow> nat" where
  "tbe_slots I_allocateTBE = 1"
| "tbe_slots _ = 0"

fun response_slots :: "l2_action \<Rightarrow> nat" where
  "response_slots C_exclusiveReplacement = 1"
| "response_slots C_exclusiveCleanReplacement = 1"
| "response_slots CT_exclusiveReplacementFromTBE = 1"
| "response_slots D_sendDataToRequestor = 1"
| "response_slots DD_sendExclusiveDataToRequestor = 1"
| "response_slots DS_sendSharedDataToRequestor = 1"
| "response_slots E_sendDataToGetSRequestors = 1"
| "response_slots EX_sendExclusiveDataToGetSRequestors = 1"
| "response_slots EE_sendDataToGetXRequestor = 1"
| "response_slots T_sendWBAck = 1"
| "response_slots TS_sendInvAckToUpgrader = 1"
| "response_slots _ = 0"

definition total :: "(l2_action \<Rightarrow> nat) \<Rightarrow> l2_action list \<Rightarrow> nat" where
  "total f acts = sum_list (map f acts)"

text \<open>A buffer that a transition needs \<open>n\<close> slots of; one it does not use is not asked.\<close>

definition slots :: "nat \<Rightarrow> Tick \<Rightarrow> 'm message_buffer \<Rightarrow> bool \<times> 'm message_buffer" where
  "slots n now b = (if n = 0 then (True, b) else areNSlotsAvailable n now b)"

definition l2_resources ::
  "Tick \<Rightarrow> l2_action list \<Rightarrow> ('d, 'g) l2_controller \<Rightarrow> bool \<times> ('d, 'g) l2_controller" where
  "l2_resources now acts s =
     (let (ok1, b1) = slots (total dir_slots acts) now (DirRequestFromL2Cache s);
          s1 = s\<lparr>DirRequestFromL2Cache := b1\<rparr>
      in if \<not> ok1 then (False, s1)
      else let (ok2, b2) = slots (total l1_slots acts) now (L1RequestFromL2Cache s1);
          s2 = s1\<lparr>L1RequestFromL2Cache := b2\<rparr>
      in if \<not> ok2 then (False, s2)
      else if total tbe_slots acts \<noteq> 0 \<and> \<not> tt_areNSlotsAvailable (total tbe_slots acts) (TBEs s2) then (False, s2)
      else let (ok3, b3) = slots (total response_slots acts) now (responseFromL2Cache s2)
      in (ok3, s2\<lparr>responseFromL2Cache := b3\<rparr>))"

datatype TransitionResult = Valid | ResourceStall

definition l2_getState :: "('d, 'g) l2_run \<Rightarrow> l2_state res" where
  "l2_getState r =
     (if m_tbe_ptr r \<noteq> None then bindE (the_tbe r) (\<lambda>t. Inr (TBEState t))
      else if m_cache_entry_ptr r \<noteq> None then bindE (the_entry r) (\<lambda>e. Inr (CacheState e))
      else Inr NP)"

definition l2_setState :: "l2_state \<Rightarrow> ('d, 'g) l2_step" where
  "l2_setState st r =
     bindE (if m_tbe_ptr r \<noteq> None then upd_tbe (\<lambda>t. Inr (t\<lparr>TBEState := st\<rparr>)) r else Inr r) (\<lambda>r1.
     if m_cache_entry_ptr r1 \<noteq> None then upd_entry (\<lambda>e. Inr (e\<lparr>CacheState := st\<rparr>)) r1 else Inr r1)"

definition l2_setAccessPermission :: "l2_state \<Rightarrow> ('d, 'g) l2_step" where
  "l2_setAccessPermission st r =
     (case m_cache_entry_ptr r of
        None \<Rightarrow> Inr r
      | Some loc \<Rightarrow> on_cache (mod_entry (entry_changePermission (l2_state_to_permission st)) loc) r)"

definition doTransition ::
  "('d, 'g) repl_policy \<Rightarrow> Tick \<Rightarrow> l2_event \<Rightarrow> Addr \<Rightarrow> ('d, 'g) l2_run \<Rightarrow>
     (TransitionResult \<times> ('d, 'g) l2_controller) res" where
  "doTransition P now ev a r =
     bindE (l2_getState r) (\<lambda>st.
     case l2_transition st ev of
       None \<Rightarrow> Inl (Panic ''Invalid transition'')
     | Some (next_state, acts) \<Rightarrow>
         let (ok, s1) = l2_resources now acts (this r) in
         if \<not> ok then Inr (ResourceStall, s1)
         else bindE (run_actions P now a acts (r\<lparr>this := s1\<rparr>)) (\<lambda>r1.
              bindE (l2_setState next_state r1) (\<lambda>r2.
              bindE (l2_setAccessPermission next_state r2) (\<lambda>r3. Inr (Valid, this r3)))))"

section \<open>In-ports\<close>

text \<open>
  An in-port returns the result of the transition it triggered, or \<open>None\<close> when it triggered none.
  \<open>lookup_run\<close> looks up the two pointers of an address.
\<close>

type_synonym ('d, 'g) l2_port_step = "('d, 'g) l2_controller \<Rightarrow> (TransitionResult option \<times> ('d, 'g) l2_controller) res"

definition getCacheEntry ::
  "Tick \<Rightarrow> Addr \<Rightarrow> ('d, 'g) l2_controller \<Rightarrow> ((nat \<times> nat) option \<times> ('d, 'g) l2_controller) res" where
  "getCacheEntry now a s =
     bindE (cm_lookup now a (L2cache s)) (\<lambda>(p, c). Inr (p, s\<lparr>L2cache := c\<rparr>))"

definition lookup_run :: "Tick \<Rightarrow> Addr \<Rightarrow> ('d, 'g) l2_controller \<Rightarrow> ('d, 'g) l2_run res" where
  "lookup_run now a s =
     bindE (getCacheEntry now a s) (\<lambda>(p, s1).
     Inr \<lparr>this = s1, m_tbe_ptr = map_option (\<lambda>_. a) (tt_lookup a (TBEs s1)), m_cache_entry_ptr = p\<rparr>)"

definition trigger ::
  "('d, 'g) repl_policy \<Rightarrow> Tick \<Rightarrow> l2_event \<Rightarrow> Addr \<Rightarrow> ('d, 'g) l2_run \<Rightarrow>
     (TransitionResult option \<times> ('d, 'g) l2_controller) res" where
  "trigger P now ev a r = bindE (doTransition P now ev a r) (\<lambda>(res, s). Inr (Some res, s))"

definition dest_is_me :: "net_dest \<Rightarrow> ('d, 'g) l2_controller \<Rightarrow> unit res" where
  "dest_is_me nd s =
     bindE (nd_isElement (machineID s) nd) (\<lambda>b. assertE b ''in_msg.Destination.isElement(machineID)'')"

definition unblock_in_port :: "('d, 'g) repl_policy \<Rightarrow> Tick \<Rightarrow> ('d, 'g) l2_port_step" where
  "unblock_in_port P now s0 =
     bindE (mb_isReady now (unblockToL2Cache s0)) (\<lambda>(ready, b).
     let s = s0\<lparr>unblockToL2Cache := b\<rparr> in
     if \<not> ready then Inr (None, s)
     else bindE (mb_peek (unblockToL2Cache s)) (\<lambda>m.
       let in_msg = message.more m; a = rs_addr in_msg in
       bindE (lookup_run now a s) (\<lambda>r.
       bindE (dest_is_me (rs_Destination in_msg) s) (\<lambda>_.
       if rs_Type in_msg = EXCLUSIVE_UNBLOCK then trigger P now Exclusive_Unblock a r
       else if rs_Type in_msg = UNBLOCK then trigger P now Unblock a r
       else Inl (Panic ''unknown unblock message'')))))"

text \<open>The event of a response; an acknowledgement counts against the pending ones of the entry.\<close>

definition response_event :: "response_msg \<Rightarrow> ('d, 'g) l2_run \<Rightarrow> l2_event res" where
  "response_event in_msg r =
     (if mid_type (rs_Sender in_msg) = L1Cache then
        if rs_Type in_msg = DATA then Inr (if rs_Dirty in_msg then WB_Data else WB_Data_clean)
        else if rs_Type in_msg = ACK then
          if m_tbe_ptr r \<noteq> None then
            bindE (the_tbe r) (\<lambda>t. Inr (if pendingAcks t - rs_AckCount in_msg = 0 then Ack_all else Ack))
          else Inr Ack
        else Inl (Panic ''unknown message type'')
      else if rs_Type in_msg = MEMORY_DATA then Inr Mem_Data
      else if rs_Type in_msg = MEMORY_ACK then Inr Mem_Ack
      else if rs_Type in_msg = INV then Inr MEM_Inv
      else Inl (Panic ''unknown message type''))"

definition response_in_port :: "('d, 'g) repl_policy \<Rightarrow> Tick \<Rightarrow> ('d, 'g) l2_port_step" where
  "response_in_port P now s0 =
     bindE (mb_isReady now (responseToL2Cache s0)) (\<lambda>(ready, b).
     let s = s0\<lparr>responseToL2Cache := b\<rparr> in
     if \<not> ready then Inr (None, s)
     else bindE (mb_peek (responseToL2Cache s)) (\<lambda>m.
       let in_msg = message.more m; a = rs_addr in_msg in
       bindE (checkResourceAvailable now DataArray a (L2cache s)) (\<lambda>(avail, c).
       let s1 = s\<lparr>L2cache := c\<rparr> in
       if \<not> avail then
         bindE (mb_recycle now (cyclesToTicks (recycle_latency s1) s1) (responseToL2Cache s1)) (\<lambda>b1.
         Inr (None, s1\<lparr>responseToL2Cache := b1\<rparr>))
       else
         bindE (dest_is_me (rs_Destination in_msg) s1) (\<lambda>_.
         bindE (lookup_run now a s1) (\<lambda>r.
         bindE (response_event in_msg r) (\<lambda>ev. trigger P now ev a r))))))"

definition isSharer :: "machine_id \<Rightarrow> ('d, 'g) l2_run \<Rightarrow> bool res" where
  "isSharer requestor r =
     (if m_cache_entry_ptr r \<noteq> None
      then bindE (the_entry r) (\<lambda>e. nd_isElement requestor (Sharers e)) else Inr False)"

definition L1Cache_request_type_to_event ::
  "CoherenceRequestType \<Rightarrow> machine_id \<Rightarrow> ('d, 'g) l2_run \<Rightarrow> l2_event res" where
  "L1Cache_request_type_to_event ty requestor r =
     (if ty = GETS then Inr L1_GETS
      else if ty = GET_INSTR then Inr L1_GET_INSTR
      else if ty = GETX then Inr L1_GETX
      else if ty = UPGRADE then
        bindE (isSharer requestor r) (\<lambda>b. Inr (if b then L1_UPGRADE else L1_GETX))
      else if ty = PUTX then
        bindE (isSharer requestor r) (\<lambda>b. Inr (if b then L1_PUTX else L1_PUTX_old))
      else Inl (Panic ''Invalid L1 forwarded request type''))"

definition recycle_request :: "Tick \<Rightarrow> ('d, 'g) l2_port_step" where
  "recycle_request now s =
     bindE (mb_recycle now (cyclesToTicks (recycle_latency s) s) (L1RequestToL2Cache s)) (\<lambda>b.
     Inr (None, s\<lparr>L1RequestToL2Cache := b\<rparr>))"

text \<open>A replacement is dirty or clean by the flag of the entry.\<close>

definition replacement_event :: "('d, 'g) l2_run \<Rightarrow> l2_event res" where
  "replacement_event r =
     bindE (valid_entry r) (\<lambda>_.
     bindE (the_entry r) (\<lambda>e. Inr (if ent_Dirty e then L2_Replacement else L2_Replacement_clean)))"

text \<open>A miss: in a full set the victim is replaced first.\<close>

definition request_miss ::
  "('d, 'g) repl_policy \<Rightarrow> Tick \<Rightarrow> request_msg \<Rightarrow> ('d, 'g) l2_run \<Rightarrow>
     (TransitionResult option \<times> ('d, 'g) l2_controller) res" where
  "request_miss P now in_msg r =
     (let a = rq_addr in_msg; s = this r in
      bindE (cacheAvail a (L2cache s)) (\<lambda>avail.
      if avail then
        bindE (L1Cache_request_type_to_event (rq_Type in_msg) (rq_Requestor in_msg) r) (\<lambda>ev. trigger P now ev a r)
      else
        bindE (cacheProbe P now a (L2cache s)) (\<lambda>(victim, c).
        bindE (lookup_run now victim (s\<lparr>L2cache := c\<rparr>)) (\<lambda>v.
        if m_tbe_ptr v \<noteq> None then recycle_request now (this v)
        else bindE (replacement_event v) (\<lambda>ev. trigger P now ev victim v)))))"

text \<open>A hit: an entry marked as expired is replaced, else the request is served.\<close>

definition serve_request ::
  "('d, 'g) repl_policy \<Rightarrow> Tick \<Rightarrow> request_msg \<Rightarrow> ('d, 'g) l2_run \<Rightarrow>
     (TransitionResult option \<times> ('d, 'g) l2_controller) res" where
  "serve_request P now in_msg r =
     (let a = rq_addr in_msg in
      if m_cache_entry_ptr r = None then request_miss P now in_msg r
      else bindE (the_entry r) (\<lambda>e.
        if ent_is_expired e then bindE (replacement_event r) (\<lambda>ev. trigger P now ev a r)
        else bindE (L1Cache_request_type_to_event (rq_Type in_msg) (rq_Requestor in_msg) r) (\<lambda>ev.
             trigger P now ev a r)))"

definition request_in_port :: "('d, 'g) repl_policy \<Rightarrow> Tick \<Rightarrow> ('d, 'g) l2_port_step" where
  "request_in_port P now s0 =
     bindE (mb_isReady now (L1RequestToL2Cache s0)) (\<lambda>(ready, b).
     let s = s0\<lparr>L1RequestToL2Cache := b\<rparr> in
     if \<not> ready then Inr (None, s)
     else bindE (mb_peek (L1RequestToL2Cache s)) (\<lambda>m.
       let in_msg = message.more m; a = rq_addr in_msg in
       bindE (checkResourceAvailable now DataArray a (L2cache s)) (\<lambda>(avail, c).
       let s1 = s\<lparr>L2cache := c\<rparr> in
       if \<not> avail then recycle_request now s1
       else
         bindE (lookup_run now a s1) (\<lambda>r.
         bindE (assertE (mid_type (rq_Requestor in_msg) = L1Cache)
                  ''machineIDToMachineType(in_msg.Requestor) == MachineType:L1Cache'') (\<lambda>_.
         bindE (dest_is_me (rq_Destination in_msg) s1) (\<lambda>_. serve_request P now in_msg r))))))"

section \<open>The wake-up loop\<close>

definition enter_port :: "nat \<Rightarrow> ('d, 'g) l2_controller \<Rightarrow> ('d, 'g) l2_controller" where
  "enter_port rank s = s\<lparr>l2_base := (l2_base s)\<lparr>m_cur_in_port := rank\<rparr>\<rparr>"

definition scheduleEvent :: "Cycles \<Rightarrow> ('d, 'g) l2_controller \<Rightarrow> ('d, 'g) l2_controller" where
  "scheduleEvent c s = s\<lparr>l2_wakeups := l2_wakeups s @ [c]\<rparr>"

text \<open>After a valid transition the loop starts over, else it goes on with the next port.\<close>

definition next_port ::
  "('d, 'g) l2_port_step \<Rightarrow> TransitionResult option \<times> ('d, 'g) l2_controller \<Rightarrow>
     (TransitionResult option \<times> ('d, 'g) l2_controller) res" where
  "next_port port rs =
     (case rs of
        (Some Valid, s) \<Rightarrow> Inr (Some Valid, s)
      | (Some ResourceStall, s) \<Rightarrow> port (scheduleEvent 1 s)
      | (None, s) \<Rightarrow> port s)"

definition check_ports :: "('d, 'g) repl_policy \<Rightarrow> Tick \<Rightarrow> ('d, 'g) l2_port_step" where
  "check_ports P now s =
     bindE (unblock_in_port P now (enter_port 2 s)) (\<lambda>r2.
     bindE (next_port (\<lambda>s. response_in_port P now (enter_port 1 s)) r2) (\<lambda>r1.
     bindE (next_port (\<lambda>s. request_in_port P now (enter_port 0 s)) r1) (\<lambda>r0.
     next_port (\<lambda>s. Inr (None, s)) r0)))"

fun wakeup_loop :: "('d, 'g) repl_policy \<Rightarrow> Tick \<Rightarrow> nat \<Rightarrow> ('d, 'g) l2_controller \<Rightarrow> ('d, 'g) l2_controller res" where
  "wakeup_loop P now 0 s = Inr (scheduleEvent 1 s)"
| "wakeup_loop P now (Suc left) s =
     bindE (check_ports P now s) (\<lambda>(res, s1).
     if res = Some Valid then wakeup_loop P now left s1 else Inr s1)"

definition l2_wakeup :: "('d, 'g) repl_policy \<Rightarrow> Tick \<Rightarrow> ('d, 'g) l2_controller \<Rightarrow> ('d, 'g) l2_controller res" where
  "l2_wakeup P now s = wakeup_loop P now (transitions_per_cycle s) s"

section \<open>The table\<close>

lemma l2_transition_rule:
  assumes "l2_transition st ev = Some (nxt, acts)"
  obtains sts evs n where "(sts, evs, n, acts) \<in> set l2_rules" "st \<in> set sts" "ev \<in> set evs"
    "nxt = (case n of None \<Rightarrow> st | Some st' \<Rightarrow> st')"
proof -
  obtain rl where rl: "find (rule_applies st ev) l2_rules = Some rl"
    using assms by (auto simp: l2_transition_def split: option.splits)
  obtain sts evs n acts' where c: "rl = (sts, evs, n, acts')" by (cases rl) auto
  have "rl \<in> set l2_rules" "rule_applies st ev rl"
    using rl by (auto simp: find_Some_iff)
  then show thesis
    using that [of sts evs n] assms rl c by (auto simp: rule_applies_def l2_transition_def)
qed

end
