(* ===== verification/L2_Array.thy ===== *)
theory L2_Array
  imports L2_Machine Cache_Machine
begin

text \<open>
  The cache as the L2 controller sees it: a map from addresses to the permission of an entry and the
  members of the protocol.  The bookkeeping operations of the cache leave this map alone, and the
  controller never leaves a tag behind without a present block, so that \<open>allocate\<close> always installs
  the entry it is given.
\<close>

definition live_tags :: "('d, 'g, 'e) cache_memory \<Rightarrow> bool" where
  "live_tags c \<longleftrightarrow> (\<forall>a. m_tag_index c a \<noteq> None \<longrightarrow> blocks c a \<noteq> None)"

definition array_ok :: "('g \<Rightarrow> 'd list list \<Rightarrow> bool) \<Rightarrow> ('d, 'g, 'e) cache_memory \<Rightarrow> bool" where
  "array_ok ok c \<longleftrightarrow> cm_ok ok c \<and> live_tags c"

definition ents :: "('d, 'g, 'e) cache_memory \<Rightarrow> Addr \<rightharpoonup> AccessPermission \<times> 'e" where
  "ents c a = map_option (\<lambda>x. (m_Permission x, cache_entry.more x)) (blocks c a)"

definition same_ents ::
  "('g \<Rightarrow> 'd list list \<Rightarrow> bool) \<Rightarrow> ('d, 'g, 'e) cache_memory \<Rightarrow> ('d, 'g, 'e) cache_memory \<Rightarrow> bool" where
  "same_ents ok c c' \<longleftrightarrow>
     array_ok ok c' \<and> (\<forall>a. ents c' a = ents c a) \<and> (\<forall>a. present_loc c' a = present_loc c a)"

lemma array_okD: "array_ok ok c \<Longrightarrow> cm_ok ok c" "array_ok ok c \<Longrightarrow> cm_inv c" "array_ok ok c \<Longrightarrow> live_tags c"
  by (simp_all add: array_ok_def cm_ok_def)

lemma live_present_loc: "live_tags c \<Longrightarrow> present_loc c a = map_option decode_loc (m_tag_index c a)"
  by (cases "m_tag_index c a") (auto simp: present_loc_def live_tags_def)

lemma same_ents_refl: "array_ok ok c \<Longrightarrow> same_ents ok c c"
  by (simp add: same_ents_def)

lemma same_ents_trans: "same_ents ok c c' \<Longrightarrow> same_ents ok c' c'' \<Longrightarrow> same_ents ok c c''"
  by (simp add: same_ents_def)

lemma ents_None [simp]: "ents c a = None \<longleftrightarrow> blocks c a = None"
  by (simp add: ents_def)

lemma same_entsI:
  assumes "array_ok ok c" and "cm_ok ok c'" and "m_tag_index c' = m_tag_index c" and "\<And>a. ents c' a = ents c a"
  shows "same_ents ok c c'"
proof -
  have dom: "blocks c' a = None \<longleftrightarrow> blocks c a = None" for a
    using assms(4) [of a] ents_None [of c' a] ents_None [of c a] by simp
  then have "live_tags c'" using assms(1,3) by (simp add: live_tags_def array_ok_def)
  moreover have "present_loc c' a = present_loc c a" for a using dom assms(3) by (simp add: present_loc_def)
  ultimately show ?thesis using assms by (simp add: same_ents_def array_ok_def)
qed

lemma fields_kept [simp]:
  "m_Permission (expire_entry now x) = m_Permission x" "cache_entry.more (expire_entry now x) = cache_entry.more x"
  "m_Permission (touched now x) = m_Permission x" "cache_entry.more (touched now x) = cache_entry.more x"
  "m_Permission (recorded now t l1 l2 x) = m_Permission x" "cache_entry.more (recorded now t l1 l2 x) = cache_entry.more x"
  by (simp_all add: expire_entry_def touched_def entry_setLastAccess_def recorded_def refresh_entry_def
      split: CacheRequestType.splits)

section \<open>Operations that leave the entries alone\<close>

lemma lookup_same:
  assumes "array_ok ok c" and "cm_lookup now a c = Inr (p, c')"
  shows "same_ents ok c c'" and "p = present_loc c a" and "is_line c a"
proof -
  note inv = array_okD(2) [OF assms(1)]
  show l: "is_line c a" using needs_line(1) [OF inv assms(2)] .
  obtain p1 c1 where *: "cm_lookup now a c = Inr (p1, c1)" "cm_inv c1"
    "blocks c1 = (blocks c)(a := map_option (expire_entry now) (blocks c a))" "p1 = present_loc c a"
    "replacement_data c1 = replacement_data c" "repl_state c1 = repl_state c" "m_tag_index c1 = m_tag_index c"
    by (rule cm_lookup_spec [OF inv l, of now]) (rule that)
  then have eq: "p1 = p" "c1 = c'" using assms(2) by simp_all
  show "p = present_loc c a" using * eq by simp
  have "ents c' b = ents c b" for b using * eq by (cases "blocks c a") (auto simp: ents_def)
  moreover have "cm_ok ok c'" using * eq array_okD(1) [OF assms(1)] by (simp add: cm_ok_def)
  ultimately show "same_ents ok c c'" using same_entsI [OF assms(1)] * eq by blast
qed

lemma record_same:
  assumes "array_ok ok c" and "recordRequestType now t a c = Inr c'"
  shows "same_ents ok c c'"
proof -
  note inv = array_okD(2) [OF assms(1)]
  have l: "is_line c a" using needs_line(5) [OF inv assms(2)] .
  obtain s where s: "addressToCacheSet c a = Inr s" using addressToCacheSet_inv [OF inv l] .
  obtain c1 where c1: "recordRequestType now t a c = Inr c1" "frame c c1"
    "\<And>b. b \<noteq> a \<Longrightarrow> blocks c1 b = blocks c b"
    "\<And>x loc. blocks c a = Some x \<Longrightarrow> present_loc c a = Some loc \<Longrightarrow>
      blocks c1 a = Some (recorded now t (limit_at c s) (limit_at c (fst loc)) x)"
    by (rule recordRequestType_spec [OF inv l s, of now t]) (rule that)
  have eq: "c1 = c'" using c1(1) assms(2) by simp
  have dom: "blocks c' a = None" if "blocks c a = None"
  proof -
    have "m_tag_index c a = None" using that array_okD(3) [OF assms(1)] by (auto simp: live_tags_def)
    then show ?thesis using frameD(2) [OF c1(2)] eq by (simp add: blocks_def)
  qed
  have "ents c' b = ents c b" for b
  proof (cases "b = a")
    case True
    show ?thesis
    proof (cases "blocks c a")
      case (Some x)
      then obtain loc where "present_loc c a = Some loc" using present_loc_None [of c a] by auto
      from c1(4) [OF Some this] show ?thesis using Some True eq by (simp add: ents_def)
    qed (use dom True in \<open>simp add: ents_def\<close>)
  qed (use c1(3) eq in \<open>simp add: ents_def\<close>)
  then show ?thesis
    using same_entsI [OF assms(1)] frame_ok [OF c1(2) array_okD(1) [OF assms(1)]] frameD(2) [OF c1(2)] eq by blast
qed

lemma calm_same: "array_ok ok c \<Longrightarrow> calm c c' \<Longrightarrow> same_ents ok c c'"
  by (rule same_entsI) (auto simp: calm_def ents_def frame_def array_ok_def cm_ok_def)

lemma check_same:
  assumes "array_ok ok c" and "checkResourceAvailable now r a c = Inr (b, c')"
  shows "same_ents ok c c'"
proof -
  note inv = array_okD(2) [OF assms(1)]
  have "enabled (OpCheck now r a) c"
    using assms(2) addressToCacheSet_Inr(1) [OF cm_inv_dims(3) [OF inv], of a]
    by (cases r) (auto simp: res_iffs checkResourceAvailable_def)
  then obtain b1 c1 where "checkResourceAvailable now r a c = Inr (b1, c1)" "calm c c1"
    using checkResourceAvailable_spec [OF inv, of r a now] by auto
  then show ?thesis using assms calm_same by simp
qed

lemma profile_same:
  assumes "array_ok ok c"
  shows "same_ents ok c (profileDemandHit c)" "same_ents ok c (profileDemandMiss c)"
  by (rule calm_same [OF assms], simp add: profileDemandHit_def profileDemandMiss_def,
      intro calm_stats array_okD(2) [OF assms], simp_all)+

section \<open>An assignment through a pointer\<close>

lemma present_entry:
  assumes "array_ok ok c" and "present_loc c a = Some loc"
  obtains x where "blocks c a = Some x" "entry_at c loc = Inr x" "ents c a = Some (m_Permission x, cache_entry.more x)"
    "m_Permission x \<noteq> NotPresent"
proof -
  note inv = array_okD(2) [OF assms(1)]
  obtain x where x: "blocks c a = Some x" using assms(2) by (cases "blocks c a") (auto simp: present_loc_def)
  obtain e where "m_tag_index c a = Some e" "in_range c (decode_loc e)" "slot c (decode_loc e) = Some x"
    "m_Permission x \<noteq> NotPresent" using blocks_Some [OF inv x] .
  then show thesis using that [OF x] x assms(2) entry_at_slot [OF inv] by (simp add: ents_def present_loc_def)
qed

lemma set_entry_ents:
  assumes "array_ok ok c" and "present_loc c a = Some loc" and "blocks c a = Some x"
    and "same_place x x'" and "m_Permission x' \<noteq> NotPresent"
  shows "array_ok ok (set_entry loc x' c)"
    and "ents (set_entry loc x' c) b = (if b = a then Some (m_Permission x', cache_entry.more x') else ents c b)"
    and "present_loc (set_entry loc x' c) b = present_loc c b"
proof -
  note inv = array_okD(2) [OF assms(1)]
  obtain e where e: "m_tag_index c a = Some e" "slot c (decode_loc e) = Some x" using blocks_Some [OF inv assms(3)] .
  have loc: "loc = decode_loc e" using assms(2,3) e(1) by (simp add: present_loc_def)
  have b: "blocks (set_entry loc x' c) = (blocks c)(a := Some x')"
    using blocks_set_entry [OF inv e(1), of x'] assms(5) loc by simp
  have i: "cm_inv (set_entry loc x' c)" using set_entry_inv [OF inv e assms(4)] loc by simp
  have t: "m_tag_index (set_entry loc x' c) = m_tag_index c" by (simp add: set_entry_def)
  show "array_ok ok (set_entry loc x' c)"
    using assms(1) i b t by (auto simp: array_ok_def cm_ok_def live_tags_def set_entry_def)
  show "ents (set_entry loc x' c) b = (if b = a then Some (m_Permission x', cache_entry.more x') else ents c b)"
    using b by (simp add: ents_def)
  show "present_loc (set_entry loc x' c) b = present_loc c b"
    using b t assms(3) by (auto simp: present_loc_def)
qed

lemma same_place_more [simp]: "same_place x (cache_entry.more_update f x)" "m_Permission (cache_entry.more_update f x) = m_Permission x"
  by (cases x; simp add: same_place_def)+

section \<open>Operations that call the policy\<close>

lemma call_policy_tags: "call_policy f p c = Inr c' \<Longrightarrow> m_tag_index c' = m_tag_index c"
  by (auto simp: call_policy_def res_iffs)

lemma set_entry_tags [simp]: "m_tag_index (set_entry loc e c) = m_tag_index c"
  by (simp add: set_entry_def)

lemma cm_lookup_tags: "cm_lookup now a c = Inr (p, c') \<Longrightarrow> m_tag_index c' = m_tag_index c"
  unfolding cm_lookup_def bindE_eq_Inr by (auto simp: bindE_eq_Inr split: option.splits)

lemma touch_entry_tags: "touch_entry P now loc c = Inr c' \<Longrightarrow> m_tag_index c' = m_tag_index c"
  by (auto simp: touch_entry_def mod_entry_def res_iffs dest: call_policy_tags)

lemma setMRU_tags: "setMRU P now a c = Inr c' \<Longrightarrow> m_tag_index c' = m_tag_index c"
  unfolding setMRU_def bindE_eq_Inr
  by (auto split: option.splits dest!: cm_lookup_tags touch_entry_tags)

lemma allocate_new_tags:
  assumes "allocate_new P now a e loc c = Inr (l, c')" and "live_tags c" and "in_range c loc" and "cm_inv c"
    and "slot_free (slot c loc)"
  shows "m_tag_index c' = (m_tag_index c)(a \<mapsto> encode_loc (fst loc) (snd loc))"
proof -
  have e: "erase_stale_tag loc old d = d" if sl: "slot c loc = Some old" and tg: "m_tag_index d = m_tag_index c" for old d
  proof (rule ccontr)
    assume "\<not> ?thesis"
    then obtain enc where enc: "m_tag_index c (m_Address old) = Some enc" "decode_loc enc = loc"
      using tg by (cases loc) (fastforce simp: erase_stale_tag_def decode_loc_def split: option.splits if_splits)
    then have "blocks c (m_Address old) = None" using sl assms(5) by (simp add: blocks_def slot_free_def)
    then show False using enc assms(2) by (auto simp: live_tags_def)
  qed
  have n: "nth2E (m_cache c) (fst loc) (snd loc) = Inr (slot c loc)" by (rule nth2E_slot [OF assms(4,3)])
  have b: "m_tag_index (bump_zombies old c) = m_tag_index c" for old by (simp add: bump_zombies_def)
  have e': "m_tag_index (erase_stale_tag loc old (bump_zombies old c)) = m_tag_index c" if "slot c loc = Some old" for old
    using e [OF that b] b by simp
  show ?thesis
    using assms(1) n e'
    by (cases "slot c loc") (auto simp: allocate_new_def Let_def res_iffs dest!: call_policy_tags)
qed

context replacement_policy
begin

lemma setMRU_same:
  assumes "array_ok ok c" and "setMRU P now a c = Inr c'"
  shows "same_ents ok c c'"
proof -
  obtain c1 where "setMRU P now a c = Inr c1" "cm_ok ok c1"
    "abs_step id (line_bits c) (OpSetMRU now a) (blocks c) (blocks c1)"
    using run_op_policy [OF array_okD(1) [OF assms(1)], of "OpSetMRU now a" id] by auto
  then have "cm_ok ok c'" "\<And>b. ents c' b = ents c b"
    using assms(2) by (auto simp: ents_def Let_def option.map_comp comp_def)
  then show ?thesis using same_entsI [OF assms(1)] setMRU_tags [OF assms(2)] by blast
qed

lemma probe_same:
  assumes "array_ok ok c" and "cacheProbe P now a c = Inr (v, c')"
  shows "same_ents ok c c'"
proof -
  note inv = array_okD(2) [OF assms(1)]
  have l: "is_line c a" using needs_line(4) [OF inv assms(2)] .
  have av: "cacheAvail a c = Inr False" by (rule cacheProbe_needs_full [OF assms(2)])
  obtain s where s: "addressToCacheSet c a = Inr s" using addressToCacheSet_inv [OF inv l] .
  obtain v1 c1 where c1: "cacheProbe P now a c = Inr (v1, c1)" "cm_ok ok c1" "\<exists>rd g. c1 = with_policy rd g c"
    by (rule cacheProbe_spec [OF array_okD(1) [OF assms(1)] l av s, of now]) (rule that)
  then have "c1 = c'" "m_tag_index c1 = m_tag_index c" "blocks c1 = blocks c"
    using assms(2) by auto
  then show ?thesis using same_entsI [OF assms(1)] c1(2) by (auto simp: ents_def)
qed

lemma deallocate_ents:
  assumes "array_ok ok c" and "deallocate P now a c = Inr c'"
  shows "array_ok ok c'" and "ents c' b = (if b = a then None else ents c b)"
    and "present_loc c' b = (if b = a then None else present_loc c b)"
proof -
  note inv = array_okD(2) [OF assms(1)]
  have l: "is_line c a" using needs_line(3) [OF inv assms(2)] .
  obtain c1 where c1: "deallocate P now a c = Inr c1" "cm_ok ok c1" "blocks c1 = (blocks c)(a := None)"
    "m_tag_index c1 = (m_tag_index c)(a := None)"
    by (rule deallocate_spec [OF array_okD(1) [OF assms(1)] l, of now]) (rule that)
  then have eq: "c1 = c'" using assms(2) by simp
  show "array_ok ok c'" using c1 eq assms(1) by (auto simp: array_ok_def live_tags_def)
  show "ents c' b = (if b = a then None else ents c b)" using c1 eq by (simp add: ents_def)
  show "present_loc c' b = (if b = a then None else present_loc c b)" using c1 eq by (simp add: present_loc_def)
qed

lemma allocate_ents:
  assumes "array_ok ok c" and "allocate P now a e c = Inr (loc, c')" and "blocks c a = None"
  shows "array_ok ok c'" and "ents c' b = (if b = a then Some (PermInvalid, cache_entry.more e) else ents c b)"
    and "present_loc c' b = (if b = a then Some loc else present_loc c b)"
proof -
  note inv = array_okD(2) [OF assms(1)]
  have l: "is_line c a" using needs_line(2) [OF inv assms(2)] .
  have none: "m_tag_index c a = None" using assms(3) array_okD(3) [OF assms(1)] by (auto simp: live_tags_def)
  have "enabled (OpAllocate now a e) c"
    using run_op_iff [OF array_okD(1) [OF assms(1)], of id "OpAllocate now a e"] assms(2) by auto
  then have av: "cacheAvail a c = Inr True" by simp
  obtain s where s: "addressToCacheSet c a = Inr s" "s < m_cache_num_sets c" using addressToCacheSet_inv [OF inv l] .
  obtain loc1 c1 where c1: "allocate P now a e c = Inr (loc1, c1)" "cm_ok ok c1"
    "blocks c1 = (blocks c)(a \<mapsto> allocate_result now a e loc1 c)" "present_loc c1 a = Some loc1"
    by (rule allocate_spec [OF array_okD(1) [OF assms(1)] l av, of now e]) (rule that)
  then have eq: "c1 = c'" "loc1 = loc" using assms(2) by simp_all
  have x: "m_Permission (allocate_result now a e loc c) = PermInvalid"
    "cache_entry.more (allocate_result now a e loc c) = cache_entry.more e"
    using none by (simp_all add: allocate_result_def allocated_def)
  have row: "length (m_cache c ! s) = m_cache_assoc c"
    using cm_inv_dims(1) [OF inv] s(2) by (simp add: dims_length)
  obtain w where w: "findE slot_free (m_cache c ! s) (m_cache_assoc c) = Inr (Some w)"
    "allocate_new P now a e (s, w) c = Inr (loc, c')"
    using assms(2) s none findTagInSetIgnorePermissions_inv [OF inv l]
    by (auto simp: allocate_def res_iffs nthE_def split: if_splits option.splits)
  have wr: "w < m_cache_assoc c \<and> slot_free (m_cache c ! s ! w)"
    using w(1) by (auto simp: findE_length [OF row] dest: find_idx_Some)
  have t: "m_tag_index c' = (m_tag_index c)(a \<mapsto> encode_loc s w)"
    using allocate_new_tags [OF w(2) array_okD(3) [OF assms(1)] _ inv] wr s(2) by simp
  show "array_ok ok c'" using c1 eq assms(1) t by (auto simp: array_ok_def live_tags_def)
  show "ents c' b = (if b = a then Some (PermInvalid, cache_entry.more e) else ents c b)"
    using c1 eq x by (simp add: ents_def)
  show "present_loc c' b = (if b = a then Some loc else present_loc c b)"
    using c1 eq t by (simp add: present_loc_def)
qed

end

end
