(* ===== verification/L2_Lines.thy ===== *)
theory L2_Lines
  imports L2_Array
begin

text \<open>
  What the actions of the L2 controller do to a line.  The view of a line is its entry in the cache and
  its transaction buffer entry; most actions leave every line alone (\<open>quiet\<close>), the others act on the
  line of the transition.  A shape says which of the two a line has and what its sharers are, and
  \<open>act_shape\<close> gives the shape after an action.
\<close>

type_synonym l2_line = "(AccessPermission \<times> l2_entry) option \<times> l2_tbe option"

definition line :: "('d, 'g) l2_controller \<Rightarrow> Addr \<Rightarrow> l2_line" where
  "line s b = (ents (L2cache s) b, tt_lookup b (TBEs s))"

text \<open>The stalled requests, as the buffer and as the controller record them.\<close>

definition waits ::
  "('d, 'g) l2_controller \<Rightarrow> (Addr \<times> request_msg message_scheme list) list \<times> l2_port abstract_controller" where
  "waits s = (m_stall_msg_map (L1RequestToL2Cache s), l2_base s)"

definition run_ok :: "('g \<Rightarrow> 'd list list \<Rightarrow> bool) \<Rightarrow> Addr \<Rightarrow> ('d, 'g) l2_run \<Rightarrow> bool" where
  "run_ok ok a r \<longleftrightarrow>
     array_ok ok (L2cache (this r)) \<and>
     m_cache_entry_ptr r = present_loc (L2cache (this r)) a \<and>
     m_tbe_ptr r = map_option (\<lambda>_. a) (tt_lookup a (TBEs (this r)))"

definition quiet :: "('g \<Rightarrow> 'd list list \<Rightarrow> bool) \<Rightarrow> Addr \<Rightarrow> ('d, 'g) l2_run \<Rightarrow> ('d, 'g) l2_run \<Rightarrow> bool" where
  "quiet ok a r r' \<longleftrightarrow>
     run_ok ok a r' \<and> (\<forall>b. line (this r') b = line (this r) b) \<and>
     num_controllers (this r') = num_controllers (this r) \<and> waits (this r') = waits (this r)"

lemma quiet_refl: "run_ok ok a r \<Longrightarrow> quiet ok a r r"
  by (simp add: quiet_def)

lemma quiet_trans: "quiet ok a r r' \<Longrightarrow> quiet ok a r' r'' \<Longrightarrow> quiet ok a r r''"
  by (simp add: quiet_def)

lemma quiet_ok: "quiet ok a r r' \<Longrightarrow> run_ok ok a r'"
  by (simp add: quiet_def)

lemma run_okD:
  "run_ok ok a r \<Longrightarrow> array_ok ok (L2cache (this r))"
  "run_ok ok a r \<Longrightarrow> m_cache_entry_ptr r = present_loc (L2cache (this r)) a"
  "run_ok ok a r \<Longrightarrow> m_tbe_ptr r = map_option (\<lambda>_. a) (tt_lookup a (TBEs (this r)))"
  by (simp_all add: run_ok_def)

section \<open>Actions that leave every line alone\<close>

lemma on_cache_quiet:
  assumes "run_ok ok a r" and "on_cache f r = Inr r'"
    and "\<And>c'. f (L2cache (this r)) = Inr c' \<Longrightarrow> same_ents ok (L2cache (this r)) c'"
  shows "quiet ok a r r'"
  using assms by (auto simp: on_cache_def bindE_eq_Inr quiet_def run_ok_def same_ents_def line_def waits_def)

lemma record_quiet:
  assumes "run_ok ok a r" and "record_type now t x r = Inr r'"
  shows "quiet ok a r r'"
  by (rule on_cache_quiet [OF assms(1) assms(2) [unfolded record_type_def]]) (rule record_same [OF run_okD(1) [OF assms(1)]])

lemma quiet_buffers:
  assumes "run_ok ok a r" and "L2cache s' = L2cache (this r)" and "TBEs s' = TBEs (this r)"
    and "num_controllers s' = num_controllers (this r)" and "waits s' = waits (this r)"
  shows "quiet ok a r (r\<lparr>this := s'\<rparr>)"
  using assms by (simp add: quiet_def run_ok_def line_def)

lemma enqueue_quiet:
  "run_ok ok a r \<Longrightarrow> enqueue_dir now x ty sz fill r = Inr r' \<Longrightarrow> quiet ok a r r'"
  "run_ok ok a r \<Longrightarrow> enqueue_l1 now x ty sz fill r = Inr r' \<Longrightarrow> quiet ok a r r'"
  "run_ok ok a r \<Longrightarrow> enqueue_response now x lat rty sz rfill r = Inr r' \<Longrightarrow> quiet ok a r r'"
  by (auto simp: enqueue_dir_def enqueue_l1_def enqueue_response_def Let_def bindE_eq_Inr waits_def intro!: quiet_buffers)

lemmas quiet_steps = record_quiet enqueue_quiet

lemma quiet2: "run_ok ok a r \<Longrightarrow> f r = Inr r1 \<Longrightarrow> (run_ok ok a r \<Longrightarrow> f r = Inr r1 \<Longrightarrow> quiet ok a r r1) \<Longrightarrow>
  (run_ok ok a r1 \<Longrightarrow> quiet ok a r1 r2) \<Longrightarrow> quiet ok a r r2"
  using quiet_trans quiet_ok by metis

lemma send_quiet:
  assumes "run_ok ok a r"
  shows "a_issueFetchToMemory now a r = Inr r' \<Longrightarrow> quiet ok a r r'"
    and "b_forwardRequestToExclusive now a r = Inr r' \<Longrightarrow> quiet ok a r r'"
    and "c_exclusiveCleanReplacement now a r = Inr r' \<Longrightarrow> quiet ok a r r'"
    and "ct_exclusiveReplacementFromTBE now a r = Inr r' \<Longrightarrow> quiet ok a r r'"
    and "f_sendInvToSharers now a r = Inr r' \<Longrightarrow> quiet ok a r r'"
    and "fw_sendFwdInvToSharers now a r = Inr r' \<Longrightarrow> quiet ok a r r'"
    and "fwm_sendFwdInvToSharersMinusRequestor now a r = Inr r' \<Longrightarrow> quiet ok a r r'"
    and "t_sendWBAck now a r = Inr r' \<Longrightarrow> quiet ok a r r'"
    and "ts_sendInvAckToUpgrader now a r = Inr r' \<Longrightarrow> quiet ok a r r'"
proof -
  note q = quiet2 [OF assms _ record_quiet]
  show "quiet ok a r r'" if "a_issueFetchToMemory now a r = Inr r'"
    using that unfolding a_issueFetchToMemory_def bindE_eq_Inr by (auto elim!: q intro: enqueue_quiet)
  show "quiet ok a r r'" if "b_forwardRequestToExclusive now a r = Inr r'"
    using that unfolding b_forwardRequestToExclusive_def bindE_eq_Inr by (auto elim!: q intro: enqueue_quiet)
  show "quiet ok a r r'" if "c_exclusiveCleanReplacement now a r = Inr r'"
    using that unfolding c_exclusiveCleanReplacement_def bindE_eq_Inr by (auto elim!: q intro: enqueue_quiet)
  show "quiet ok a r r'" if "ct_exclusiveReplacementFromTBE now a r = Inr r'"
    using that unfolding ct_exclusiveReplacementFromTBE_def by (rule enqueue_quiet(3) [OF assms])
  show "quiet ok a r r'" if "f_sendInvToSharers now a r = Inr r'"
    using that unfolding f_sendInvToSharers_def bindE_eq_Inr by (auto elim!: q intro: enqueue_quiet)
  show "quiet ok a r r'" if "fw_sendFwdInvToSharers now a r = Inr r'"
    using that unfolding fw_sendFwdInvToSharers_def bindE_eq_Inr by (auto elim!: q intro: enqueue_quiet)
  show "quiet ok a r r'" if "fwm_sendFwdInvToSharersMinusRequestor now a r = Inr r'"
    using that unfolding fwm_sendFwdInvToSharersMinusRequestor_def bindE_eq_Inr by (auto elim!: q intro: enqueue_quiet)
  show "quiet ok a r r'" if "t_sendWBAck now a r = Inr r'"
    using that unfolding t_sendWBAck_def bindE_eq_Inr by (auto intro: enqueue_quiet [OF assms])
  show "quiet ok a r r'" if "ts_sendInvAckToUpgrader now a r = Inr r'"
    using that unfolding ts_sendInvAckToUpgrader_def bindE_eq_Inr by (auto intro: enqueue_quiet [OF assms])
qed

lemma record_twice_quiet:
  assumes "run_ok ok a r" and "record_type now t a r = Inr r1" and "record_type now u a r1 = Inr r2"
    and "run_ok ok a r2 \<Longrightarrow> quiet ok a r2 r'"
  shows "quiet ok a r r'"
proof -
  have 1: "quiet ok a r r1" by (rule record_quiet [OF assms(1,2)])
  have 2: "quiet ok a r1 r2" by (rule record_quiet [OF quiet_ok [OF 1] assms(3)])
  show ?thesis by (rule quiet_trans [OF quiet_trans [OF 1 2] assms(4) [OF quiet_ok [OF 2]]])
qed

lemma send_data_quiet:
  assumes "run_ok ok a r"
  shows "c_exclusiveReplacement now a r = Inr r' \<Longrightarrow> quiet ok a r r'"
    and "send_entry_data ty acks now a r = Inr r' \<Longrightarrow> quiet ok a r r'"
    and "send_to_gets ty wanted txt now a r = Inr r' \<Longrightarrow> quiet ok a r r'"
    and "ee_sendDataToGetXRequestor now a r = Inr r' \<Longrightarrow> quiet ok a r r'"
proof -
  note q = record_twice_quiet [OF assms]
  show "quiet ok a r r'" if "c_exclusiveReplacement now a r = Inr r'"
    using that unfolding c_exclusiveReplacement_def bindE_eq_Inr by (auto elim!: q intro: enqueue_quiet)
  show "quiet ok a r r'" if "send_entry_data ty acks now a r = Inr r'"
    using that unfolding send_entry_data_def bindE_eq_Inr by (auto elim!: q intro: enqueue_quiet)
  show "quiet ok a r r'" if "send_to_gets ty wanted txt now a r = Inr r'"
    using that unfolding send_to_gets_def bindE_eq_Inr by (auto elim!: q intro: enqueue_quiet)
  show "quiet ok a r r'" if "ee_sendDataToGetXRequestor now a r = Inr r'"
    using that unfolding ee_sendDataToGetXRequestor_def bindE_eq_Inr by (auto elim!: q intro: enqueue_quiet)
qed

section \<open>Buffers and their stalled messages\<close>

lemma note_stalls [simp]:
  "m_stall_msg_map (mb_pop_heap b) = m_stall_msg_map b" "m_stall_msg_map (mb_note_pop now b) = m_stall_msg_map b"
  "m_stall_msg_map (mb_note_departure now m b) = m_stall_msg_map b"
  "m_stall_msg_map (mb_run_callback b) = m_stall_msg_map b"
  "m_stall_msg_map (mb_note_enqueue now b) = m_stall_msg_map b"
  by (simp_all add: mb_pop_heap_def mb_note_pop_def mb_note_departure_def mb_run_callback_def mb_note_enqueue_def Let_def)

lemma wake_stalls: "wake w b = Inr b' \<Longrightarrow> m_stall_msg_map b' = m_stall_msg_map b"
  by (auto simp: wake_def bindE_eq_Inr)

lemma isReady_stalls: "mb_isReady now b = Inr (x, b') \<Longrightarrow> m_stall_msg_map b' = m_stall_msg_map b"
  by (auto simp: mb_isReady_def Let_def bindE_eq_Inr split: if_splits dest: wake_stalls)

lemma dequeue_stalls:
  assumes "mb_dequeue cur now dec b = Inr (d, b')"
  shows "m_stall_msg_map b' = m_stall_msg_map b"
proof -
  obtain q b0 m1 where "mb_isReady now b = Inr (q, b0)"
    "b' = mb_run_callback (if dec then mb_note_departure cur m1 (mb_pop_heap (mb_note_pop now b0)) else mb_pop_heap (mb_note_pop now b0))"
    using assms unfolding mb_dequeue_def bindE_eq_Inr by (auto simp: Let_def bindE_eq_Inr)
  then show ?thesis using isReady_stalls by simp
qed

lemma recycle_stalls:
  assumes "mb_recycle now lat b = Inr b'"
  shows "m_stall_msg_map b' = m_stall_msg_map b"
proof -
  obtain q b0 h where "mb_isReady now b = Inr (q, b0)"
    "wake (WakeAt (now + lat)) ((mb_pop_heap b0)\<lparr>m_prio_heap := h\<rparr>) = Inr b'"
    using assms unfolding mb_recycle_def bindE_eq_Inr by (auto simp: Let_def bindE_eq_Inr)
  then show ?thesis using isReady_stalls wake_stalls by fastforce
qed

lemma stall_stalls:
  assumes "mb_stallMessage a cur now b = Inr b'"
  obtains m where "m_stall_msg_map b' = map_append a m (m_stall_msg_map b)"
proof -
  obtain q b0 m d b1 where "mb_isReady now b = Inr (q, b0)" "mb_dequeue cur now False b0 = Inr (d, b1)"
    "m_stall_msg_map b' = map_append a m (m_stall_msg_map b1)"
    using assms unfolding mb_stallMessage_def bindE_eq_Inr by (auto simp: bindE_eq_Inr)
  then show thesis using that isReady_stalls dequeue_stalls by metis
qed

lemma arrival_stalls: "mb_arrival now delta rr g b = Inr (t, b', g') \<Longrightarrow> m_stall_msg_map b' = m_stall_msg_map b"
  by (auto simp: mb_arrival_def Let_def bindE_eq_Inr split: if_splits)

lemma enqueue_stalls:
  assumes "mb_enqueue m now delta rr rw bp g b = Inr (b', g')"
  shows "m_stall_msg_map b' = m_stall_msg_map b"
proof -
  obtain t b3 g3 b6 where "mb_arrival now delta rr g (mb_note_enqueue now b) = Inr (t, b3, g3)"
    "wake (WakeAt t) b6 = Inr b'" "m_stall_msg_map b6 = m_stall_msg_map b3"
    using assms unfolding mb_enqueue_def Let_def bindE_eq_Inr by (auto simp: bindE_eq_Inr)
  then show ?thesis using arrival_stalls wake_stalls note_stalls(5) by metis
qed

lemma reanalyzeList_stalls: "mb_reanalyzeList lt t b = Inr b' \<Longrightarrow> m_stall_msg_map b' = m_stall_msg_map b"
proof (induction lt arbitrary: b)
  case (Cons m lt)
  then obtain b1 where "wake (WakeAt t) (b\<lparr>m_prio_heap := push_heap msg_key m (m_prio_heap b)\<rparr>) = Inr b1"
    "mb_reanalyzeList lt t b1 = Inr b'"
    by (auto simp: bindE_eq_Inr)
  then show ?case using Cons.IH wake_stalls by fastforce
qed simp

lemma reanalyze_stalls:
  "mb_reanalyzeMessages a now b = Inr b' \<Longrightarrow> m_stall_msg_map b' = map_erase a (m_stall_msg_map b)"
  by (auto simp: mb_reanalyzeMessages_def Let_def bindE_eq_Inr split: option.splits dest!: reanalyzeList_stalls)

lemma pop_quiet:
  assumes "run_ok ok a r"
  shows "jj_popL1RequestQueue now r = Inr r' \<Longrightarrow> quiet ok a r r'"
    and "k_popUnblockQueue now r = Inr r' \<Longrightarrow> quiet ok a r r'"
    and "o_popIncomingResponseQueue now r = Inr r' \<Longrightarrow> quiet ok a r r'"
    and "zn_recycleResponseNetwork now r = Inr r' \<Longrightarrow> quiet ok a r r'"
  using assms
  by (auto simp: jj_popL1RequestQueue_def k_popUnblockQueue_def o_popIncomingResponseQueue_def
      zn_recycleResponseNetwork_def profileMsgDelay_def bindE_eq_Inr Let_def waits_def
      intro!: quiet_buffers dest: dequeue_stalls)

lemma profile_quiet:
  assumes "run_ok ok a r"
  shows "uu_profileMiss r = Inr r' \<Longrightarrow> quiet ok a r r'" and "uu_profileHit r = Inr r' \<Longrightarrow> quiet ok a r r'"
  unfolding uu_profileMiss_def uu_profileHit_def
  by (rule on_cache_quiet [OF assms], assumption, use profile_same [OF run_okD(1) [OF assms]] in simp)+

section \<open>Actions on the line of the transition\<close>

definition only_line :: "('g \<Rightarrow> 'd list list \<Rightarrow> bool) \<Rightarrow> Addr \<Rightarrow> ('d, 'g) l2_run \<Rightarrow> ('d, 'g) l2_run \<Rightarrow> bool" where
  "only_line ok a r r' \<longleftrightarrow>
     run_ok ok a r' \<and> (\<forall>b. b \<noteq> a \<longrightarrow> line (this r') b = line (this r) b) \<and>
     num_controllers (this r') = num_controllers (this r)"

lemma only_line_trans: "only_line ok a r r' \<Longrightarrow> only_line ok a r' r'' \<Longrightarrow> only_line ok a r r''"
  by (simp add: only_line_def)

lemma only_line_ok: "only_line ok a r r' \<Longrightarrow> run_ok ok a r'"
  by (simp add: only_line_def)

lemma quietD:
  assumes "quiet ok a r r'"
  shows "only_line ok a r r'" "line (this r') b = line (this r) b" "waits (this r') = waits (this r)"
  using assms by (simp_all add: quiet_def only_line_def)

lemma entry_ptr:
  assumes "run_ok ok a r" and "m_cache_entry_ptr r = Some loc"
  obtains y where "present_loc (L2cache (this r)) a = Some loc" "blocks (L2cache (this r)) a = Some y"
    "entry_at (L2cache (this r)) loc = Inr y"
    "fst (line (this r) a) = Some (m_Permission y, cache_entry.more y)" "m_Permission y \<noteq> NotPresent"
proof -
  have l: "present_loc (L2cache (this r)) a = Some loc" using assms by (simp add: run_ok_def)
  show thesis by (rule present_entry [OF run_okD(1) [OF assms(1)] l]) (use that l in \<open>auto simp: line_def\<close>)
qed

lemma set_entry_line:
  assumes "run_ok ok a r" and "m_cache_entry_ptr r = Some loc" and "entry_at (L2cache (this r)) loc = Inr y"
    and "same_place y y'" and "m_Permission y' \<noteq> NotPresent"
    and "r' = r\<lparr>this := (this r)\<lparr>L2cache := set_entry loc y' (L2cache (this r))\<rparr>\<rparr>"
  shows "only_line ok a r r'" "line (this r') a = (Some (m_Permission y', cache_entry.more y'), snd (line (this r) a))"
    "waits (this r') = waits (this r)"
proof -
  obtain z where z: "present_loc (L2cache (this r)) a = Some loc" "blocks (L2cache (this r)) a = Some z"
    "entry_at (L2cache (this r)) loc = Inr z"
    by (rule entry_ptr [OF assms(1,2)]) (rule that)
  then have "blocks (L2cache (this r)) a = Some y" using assms(3) by simp
  note s = set_entry_ents [OF run_okD(1) [OF assms(1)] z(1) this assms(4,5)]
  show "only_line ok a r r'" using assms(1) s unfolding assms(6) only_line_def run_ok_def by (simp add: line_def)
  show "line (this r') a = (Some (m_Permission y', cache_entry.more y'), snd (line (this r) a))"
    unfolding assms(6) using s by (simp add: line_def)
  show "waits (this r') = waits (this r)" unfolding assms(6) by (simp add: waits_def)
qed

lemma upd_entry_line:
  assumes "run_ok ok a r" and "upd_entry f r = Inr r'"
  obtains p x x' where "fst (line (this r) a) = Some (p, x)" "f x = Inr x'" "only_line ok a r r'"
    "line (this r') a = (Some (p, x'), snd (line (this r) a))" "waits (this r') = waits (this r)"
proof -
  obtain loc y x' where l: "m_cache_entry_ptr r = Some loc" "entry_at (L2cache (this r)) loc = Inr y"
    "f (cache_entry.more y) = Inr x'"
    "r' = r\<lparr>this := (this r)\<lparr>L2cache := set_entry loc (cache_entry.more_update (\<lambda>_. x') y) (L2cache (this r))\<rparr>\<rparr>"
    using assms(2) unfolding upd_entry_def on_cache_def bindE_eq_Inr by (auto simp: derefE_def bindE_eq_Inr split: option.splits)
  obtain z where z: "entry_at (L2cache (this r)) loc = Inr z"
    "fst (line (this r) a) = Some (m_Permission z, cache_entry.more z)" "m_Permission z \<noteq> NotPresent"
    by (rule entry_ptr [OF assms(1) l(1)]) (rule that)
  have eq: "z = y" using z(1) l(2) by simp
  have m: "cache_entry.more (cache_entry.more_update (\<lambda>_. x') y) = x'" by (cases y) simp
  note s = set_entry_line [OF assms(1) l(1,2) same_place_more(1) _ l(4)]
  show thesis by (rule that [of "m_Permission y" "cache_entry.more y" x']) (use z l(3) s m eq in auto)
qed

lemma the_entry_line:
  assumes "run_ok ok a r" and "the_entry r = Inr x"
  obtains p where "fst (line (this r) a) = Some (p, x)"
proof -
  obtain loc y where l: "m_cache_entry_ptr r = Some loc" "entry_at (L2cache (this r)) loc = Inr y" "x = cache_entry.more y"
    using assms(2) unfolding the_entry_def bindE_eq_Inr by (auto simp: derefE_def split: option.splits)
  obtain z where "entry_at (L2cache (this r)) loc = Inr z" "fst (line (this r) a) = Some (m_Permission z, cache_entry.more z)"
    by (rule entry_ptr [OF assms(1) l(1)]) (rule that)
  then show thesis using that l by simp
qed

lemma tbe_ptr:
  assumes "run_ok ok a r"
  shows "m_tbe_ptr r = Some b \<longleftrightarrow> b = a \<and> snd (line (this r) a) \<noteq> None"
  using assms by (auto simp: run_ok_def line_def)

lemma the_tbe_line:
  assumes "run_ok ok a r" and "the_tbe r = Inr t"
  shows "snd (line (this r) a) = Some t"
  using assms tbe_ptr [OF assms(1)]
  by (auto simp: the_tbe_def bindE_eq_Inr derefE_def line_def split: option.splits)

lemma upd_tbe_line:
  assumes "run_ok ok a r" and "upd_tbe f r = Inr r'"
  obtains t t' where "snd (line (this r) a) = Some t" "f t = Inr t'" "only_line ok a r r'"
    "line (this r') a = (fst (line (this r) a), Some t')" "waits (this r') = waits (this r)"
proof -
  obtain b t t' where l: "m_tbe_ptr r = Some b" "tt_lookup b (TBEs (this r)) = Some t" "f t = Inr t'"
    "r' = r\<lparr>this := (this r)\<lparr>TBEs := tt_update b (\<lambda>_. t') (TBEs (this r))\<rparr>\<rparr>"
    using assms(2) unfolding upd_tbe_def bindE_eq_Inr by (auto simp: derefE_def bindE_eq_Inr split: option.splits)
  have b: "b = a" using l(1) tbe_ptr [OF assms(1)] by simp
  show thesis
    by (rule that [of t t']) (use l b assms(1) in \<open>auto simp: line_def only_line_def run_ok_def tt_lookup_update waits_def\<close>)
qed

lemma deallocate_tbe_line:
  assumes "run_ok ok a r" and "s_deallocateTBE a r = Inr r'"
  shows "only_line ok a r r'" "line (this r') a = (fst (line (this r) a), None)" "waits (this r') = waits (this r)"
proof -
  obtain tt where l: "tt_deallocate a (TBEs (this r)) = Inr tt" "r' = r\<lparr>this := (this r)\<lparr>TBEs := tt\<rparr>, m_tbe_ptr := None\<rparr>"
    using assms(2) unfolding s_deallocateTBE_def bindE_eq_Inr by auto
  note d = tt_lookup_deallocate(1) [OF l(1)]
  show "only_line ok a r r'" "line (this r') a = (fst (line (this r) a), None)" "waits (this r') = waits (this r)"
    using assms(1) d unfolding l(2) by (simp_all add: only_line_def run_ok_def line_def waits_def)
qed

text \<open>Stalling and waking up leave every line alone, but not the stalled requests.\<close>

lemma same_lines:
  assumes "run_ok ok a r" and "L2cache s' = L2cache (this r)" and "TBEs s' = TBEs (this r)"
    and "num_controllers s' = num_controllers (this r)"
  shows "only_line ok a r (r\<lparr>this := s'\<rparr>)" "line s' b = line (this r) b"
  using assms by (simp_all add: only_line_def run_ok_def line_def)

lemma stall_line:
  assumes "run_ok ok a r" and "zz_stallAndWaitL1RequestQueue now a r = Inr r'"
  shows "only_line ok a r r'" "line (this r') b = line (this r) b"
proof -
  obtain ac q where "r' = r\<lparr>this := (this r)\<lparr>l2_base := ac, L1RequestToL2Cache := q\<rparr>\<rparr>"
    using assms(2) unfolding zz_stallAndWaitL1RequestQueue_def Let_def bindE_eq_Inr by auto
  then show "only_line ok a r r'" "line (this r') b = line (this r) b"
    using same_lines [OF assms(1), of "(this r)\<lparr>l2_base := ac, L1RequestToL2Cache := q\<rparr>"] by simp_all
qed

definition same_parts :: "('d, 'g) l2_controller \<Rightarrow> ('d, 'g) l2_controller \<Rightarrow> bool" where
  "same_parts s s' \<longleftrightarrow> L2cache s' = L2cache s \<and> TBEs s' = TBEs s \<and> num_controllers s' = num_controllers s"

lemma same_parts_refl: "same_parts s s"
  by (simp add: same_parts_def)

lemma same_parts_trans: "same_parts s s' \<Longrightarrow> same_parts s' s'' \<Longrightarrow> same_parts s s''"
  by (simp add: same_parts_def)

lemma reanalyze_parts: "l2_reanalyze a now p s = Inr s' \<Longrightarrow> same_parts s s'"
  by (cases p) (auto simp: bindE_eq_Inr same_parts_def)

lemma wake_slots_parts: "wake_slots (l2_reanalyze a now) vec ranks s = Inr s' \<Longrightarrow> same_parts s s'"
proof (induction ranks arbitrary: s)
  case Nil
  then show ?case by (simp add: same_parts_def)
next
  case (Cons rank ranks)
  then obtain p s1 where "(case p of None \<Rightarrow> Inr s | Some buf \<Rightarrow> l2_reanalyze a now buf s) = Inr s1"
    "wake_slots (l2_reanalyze a now) vec ranks s1 = Inr s'"
    by (auto simp: bindE_eq_Inr)
  then have "same_parts s s1" "same_parts s1 s'"
    using Cons.IH by (auto split: option.splits intro: reanalyze_parts same_parts_refl)
  then show ?case by (rule same_parts_trans)
qed

lemma wake_line:
  assumes "run_ok ok a r" and "kd_wakeUpDependents now x r = Inr r'"
  shows "only_line ok a r r'" "line (this r') b = line (this r) b"
proof -
  obtain ac s where l: "wakeUpBuffers (l2_reanalyze x now) x (l2_base (this r)) (this r) = Inr (ac, s)"
    "r' = r\<lparr>this := s\<lparr>l2_base := ac\<rparr>\<rparr>"
    using assms(2) unfolding kd_wakeUpDependents_def bindE_eq_Inr by auto
  have "same_parts (this r) s"
    using l(1) unfolding wakeUpBuffers_def
    by (auto simp: bindE_eq_Inr split: option.splits intro: wake_slots_parts same_parts_refl)
  then show "only_line ok a r r'" "line (this r') b = line (this r) b"
    using same_lines [OF assms(1), of "s\<lparr>l2_base := ac\<rparr>"] unfolding l(2) by (simp_all add: same_parts_def)
qed

context replacement_policy
begin

lemma setMRU_quiet:
  assumes "run_ok ok a r" and "set_setMRU P now x r = Inr r'"
  shows "quiet ok a r r'"
  by (rule on_cache_quiet [OF assms(1) assms(2) [unfolded set_setMRU_def]]) (rule setMRU_same [OF run_okD(1) [OF assms(1)]])

lemma allocate_line:
  assumes "run_ok ok a r" and "qq_allocateL2CacheBlock P now a r = Inr r'" and "fst (line (this r) a) = None"
  obtains x' where "only_line ok a r r'" "l2_entry_setRubySystem (num_controllers (this r)) l2_entry_new = Inr x'"
    "line (this r') a = (Some (PermInvalid, x'), snd (line (this r) a))" "waits (this r') = waits (this r)"
proof -
  let ?c = "L2cache (this r)"
  have b: "blocks ?c a = None" using assms(3) by (simp add: line_def)
  then have n: "m_cache_entry_ptr r = None" using assms(1) present_loc_None [of ?c a] by (simp add: run_ok_def)
  obtain loc c where l: "allocate P now a (entry_new now 0 0 l2_entry_new) ?c = Inr (loc, c)"
    "upd_entry (l2_entry_setRubySystem (num_controllers (this r)))
       (r\<lparr>this := (this r)\<lparr>L2cache := c\<rparr>, m_cache_entry_ptr := Some loc\<rparr>) = Inr r'"
    using assms(2) n unfolding qq_allocateL2CacheBlock_def by (auto simp: bindE_eq_Inr)
  let ?r1 = "r\<lparr>this := (this r)\<lparr>L2cache := c\<rparr>, m_cache_entry_ptr := Some loc\<rparr>"
  note e = allocate_ents [OF run_okD(1) [OF assms(1)] l(1) b]
  have m: "cache_entry.more (entry_new now 0 0 l2_entry_new) = l2_entry_new" by (simp add: entry_new_def)
  have 1: "only_line ok a r ?r1" "line (this ?r1) a = (Some (PermInvalid, l2_entry_new), snd (line (this r) a))"
    "waits (this ?r1) = waits (this r)"
    using assms(1) e m by (simp_all add: only_line_def run_ok_def line_def waits_def)
  show thesis
    by (rule upd_entry_line [OF only_line_ok [OF 1(1)] l(2)])
      (rule that; use 1 in \<open>auto intro: only_line_trans [OF 1(1)]\<close>)
qed

lemma deallocate_line:
  assumes "run_ok ok a r" and "rr_deallocateL2CacheBlock P now a r = Inr r'"
  shows "only_line ok a r r'" "line (this r') a = (None, snd (line (this r) a))" "waits (this r') = waits (this r)"
proof -
  obtain c where l: "deallocate P now a (L2cache (this r)) = Inr c"
    "r' = r\<lparr>this := (this r)\<lparr>L2cache := c\<rparr>, m_cache_entry_ptr := None\<rparr>"
    using assms(2) unfolding rr_deallocateL2CacheBlock_def on_cache_def by (auto simp: bindE_eq_Inr)
  note e = deallocate_ents [OF run_okD(1) [OF assms(1)] l(1)]
  show "only_line ok a r r'" "line (this r') a = (None, snd (line (this r) a))" "waits (this r') = waits (this r)"
    using assms(1) e unfolding l(2) by (simp_all add: only_line_def run_ok_def line_def waits_def)
qed

end

end
