(* ===== verification/L2_Shapes.thy ===== *)
theory L2_Shapes
  imports L2_Lines
begin

text \<open>
  The shape of a line: whether it has a cache entry and a transaction buffer entry, and how many
  machines the two directory fields hold, the sharers of the entry and the recorded requestors of
  the transaction.  \<open>act_shape\<close> is what an action does to the shape, and \<open>shape_of\<close> is the shape that
  goes with a state of the protocol.
\<close>

datatype crowd = Nobody | Owner | Single | Somebody | Anybody

type_synonym l2_shape = "crowd option \<times> crowd option"

fun in_crowd :: "machine_id option \<Rightarrow> crowd \<Rightarrow> machine_id set \<Rightarrow> bool" where
  "in_crowd x Nobody N \<longleftrightarrow> N = {}"
| "in_crowd x Owner N \<longleftrightarrow> (case x of None \<Rightarrow> False | Some m \<Rightarrow> N = {m})"
| "in_crowd x Single N \<longleftrightarrow> (\<exists>m. N = {m})"
| "in_crowd x Somebody N \<longleftrightarrow> N \<noteq> {}"
| "in_crowd x Anybody N \<longleftrightarrow> True"

fun one_more :: "crowd \<Rightarrow> crowd" where
  "one_more Nobody = Single"
| "one_more _ = Somebody"

definition crowd_le :: "crowd \<Rightarrow> crowd \<Rightarrow> bool" where
  "crowd_le c d \<longleftrightarrow>
     d = Anybody \<or> c = d \<or> (c = Owner \<and> d = Single) \<or> (c \<in> {Owner, Single} \<and> d = Somebody)"

fun part_le :: "crowd option \<Rightarrow> crowd option \<Rightarrow> bool" where
  "part_le None None \<longleftrightarrow> True"
| "part_le (Some c) (Some d) \<longleftrightarrow> crowd_le c d"
| "part_le _ _ \<longleftrightarrow> False"

definition shape_le :: "l2_shape \<Rightarrow> l2_shape \<Rightarrow> bool" where
  "shape_le sh sh' \<longleftrightarrow> part_le (fst sh) (fst sh') \<and> part_le (snd sh) (snd sh')"

text \<open>The lines of a shape, in a system with the given number of controllers of each type.\<close>

definition entry_fits :: "(machine_type \<Rightarrow> nat) \<Rightarrow> crowd \<Rightarrow> l2_entry \<Rightarrow> bool" where
  "entry_fits counts c x \<longleftrightarrow>
     \<not> ent_is_expired x \<and> nd_wf counts (Sharers x) \<and> in_crowd (Some (Exclusive x)) c (nodes (Sharers x))"

definition tbe_fits :: "(machine_type \<Rightarrow> nat) \<Rightarrow> crowd \<Rightarrow> l2_tbe \<Rightarrow> bool" where
  "tbe_fits counts c t \<longleftrightarrow> nd_wf counts (L1_GetS_IDs t) \<and> in_crowd None c (nodes (L1_GetS_IDs t))"

definition has_shape :: "(machine_type \<Rightarrow> nat) \<Rightarrow> l2_shape \<Rightarrow> l2_line \<Rightarrow> bool" where
  "has_shape counts sh l \<longleftrightarrow>
     rel_option (\<lambda>c px. entry_fits counts c (snd px)) (fst sh) (fst l) \<and>
     rel_option (tbe_fits counts) (snd sh) (snd l)"

text \<open>An action that no transition has and that may leave any crowd behind has no shape.\<close>

definition act_shape :: "l2_action \<Rightarrow> l2_shape \<Rightarrow> l2_shape option" where
  "act_shape x sh =
     (case x of
        I_allocateTBE \<Rightarrow> Some (fst sh, Some Nobody)
      | S_deallocateTBE \<Rightarrow> Some (fst sh, None)
      | QQ_allocateL2CacheBlock \<Rightarrow> Some (case fst sh of None \<Rightarrow> Some Nobody | Some c \<Rightarrow> Some c, snd sh)
      | RR_deallocateL2CacheBlock \<Rightarrow> Some (None, snd sh)
      | NN_addSharer \<Rightarrow> Some (map_option one_more (fst sh), snd sh)
      | NNU_addSharerFromUnblock \<Rightarrow> Some (map_option one_more (fst sh), snd sh)
      | KK_removeRequestSharer \<Rightarrow> None
      | LL_clearSharers \<Rightarrow> Some (map_option (\<lambda>_. Nobody) (fst sh), snd sh)
      | MM_markExclusive \<Rightarrow> Some (map_option (\<lambda>_. Owner) (fst sh), snd sh)
      | MMU_markExclusiveFromUnblock \<Rightarrow> Some (map_option (\<lambda>_. Owner) (fst sh), snd sh)
      | SS_recordGetSL1ID \<Rightarrow> Some (fst sh, map_option one_more (snd sh))
      | _ \<Rightarrow> Some sh)"

fun acts_shape :: "l2_action list \<Rightarrow> l2_shape \<Rightarrow> l2_shape option" where
  "acts_shape [] sh = Some sh"
| "acts_shape (x # xs) sh = (case act_shape x sh of None \<Rightarrow> None | Some sh' \<Rightarrow> acts_shape xs sh')"

fun shape_of :: "l2_state \<Rightarrow> l2_shape" where
  "shape_of NP = (None, None)"
| "shape_of SS = (Some Somebody, None)"
| "shape_of M = (Some Nobody, None)"
| "shape_of MT = (Some Owner, None)"
| "shape_of M_I = (None, Some Anybody)"
| "shape_of MT_I = (None, Some Anybody)"
| "shape_of MCT_I = (None, Some Anybody)"
| "shape_of I_I = (None, Some Anybody)"
| "shape_of S_I = (None, Some Anybody)"
| "shape_of ISS = (Some Single, Some Single)"
| "shape_of IS = (Some Somebody, Some Somebody)"
| "shape_of IM = (Some Nobody, Some Nobody)"
| "shape_of SS_MB = (Some Somebody, None)"
| "shape_of MT_MB = (Some Anybody, None)"
| "shape_of MT_IIB = (Some Somebody, None)"
| "shape_of MT_IB = (Some Somebody, None)"
| "shape_of MT_SB = (Some Somebody, None)"

section \<open>The table keeps the shapes\<close>

definition rule_shape :: "l2_rule \<Rightarrow> bool" where
  "rule_shape rl =
     (case rl of (sts, evs, nxt, acts) \<Rightarrow>
        list_all (\<lambda>st. case acts_shape acts (shape_of st) of
            None \<Rightarrow> False
          | Some sh \<Rightarrow> shape_le sh (shape_of (case nxt of None \<Rightarrow> st | Some st' \<Rightarrow> st'))) sts)"

lemma rules_shape: "list_all rule_shape l2_rules"
  by code_simp

lemma transition_shape:
  assumes "l2_transition st ev = Some (nxt, acts)"
  obtains sh where "acts_shape acts (shape_of st) = Some sh" "shape_le sh (shape_of nxt)"
proof -
  obtain sts evs n where r: "(sts, evs, n, acts) \<in> set l2_rules" "st \<in> set sts"
    "nxt = (case n of None \<Rightarrow> st | Some st' \<Rightarrow> st')"
    by (rule l2_transition_rule [OF assms]) (rule that)
  have "rule_shape (sts, evs, n, acts)" using rules_shape r(1) by (simp add: list_all_iff)
  then show thesis using that r(2,3) by (auto simp: rule_shape_def list_all_iff split: option.splits)
qed

lemma in_crowd_le: "crowd_le c d \<Longrightarrow> in_crowd x c N \<Longrightarrow> in_crowd x d N"
  by (auto simp: crowd_le_def split: option.splits)

lemma part_le_cases: "part_le p q \<Longrightarrow> (p = None \<and> q = None) \<or> (\<exists>c d. p = Some c \<and> q = Some d \<and> crowd_le c d)"
  by (cases p; cases q) auto

lemma has_shape_le:
  assumes "shape_le sh sh'" and "has_shape counts sh l"
  shows "has_shape counts sh' l"
  using assms part_le_cases [of "fst sh" "fst sh'"] part_le_cases [of "snd sh" "snd sh'"]
  by (auto simp: shape_le_def has_shape_def option_rel_Some1 entry_fits_def tbe_fits_def)
    (rule in_crowd_le, assumption+)+

section \<open>The directory fields\<close>

lemma nd_add_fits:
  assumes "nd_wf counts nd" and "nd_add m nd = Inr nd'"
  shows "nd_wf counts nd'" "nodes nd' = insert m (nodes nd)"
proof -
  have "m \<in> machines counts" using nd_add_outside [OF assms(1), of m] assms(2) by auto
  then show "nd_wf counts nd'" "nodes nd' = insert m (nodes nd)" using nd_add_wf [OF assms(1), of m] assms(2) by auto
qed

lemma nd_clear_fits:
  "nd_wf counts nd \<Longrightarrow> nd_clear nd = Inr nd' \<Longrightarrow> nd_wf counts nd' \<and> nodes nd' = {}"
  using nd_clear_wf by fastforce

lemma setSize_small: "mapE (\<lambda>t. set_setSize (counts t)) ts = Inr ss \<Longrightarrow> list_all (\<lambda>t. counts t \<le> 64) ts"
  by (induction ts arbitrary: ss) (auto simp: bindE_eq_Inr set_setSize_def bits_per_set_def guardE_def split: if_splits)

lemma nd_setRubySystem_fits:
  assumes "nd_setRubySystem counts nd = Inr nd'"
  shows "nd_wf counts nd'" "nodes nd' = {}"
proof -
  have "small_system counts"
    using assms setSize_small [of counts machine_types] by (auto simp: nd_setRubySystem_def nd_resize_def bindE_eq_Inr small_system_def)
  then show "nd_wf counts nd'" "nodes nd' = {}"
    using nd_resize_wf [of counts "nd\<lparr>m_ruby_system := Some counts\<rparr>"] assms by (auto simp: nd_setRubySystem_def)
qed

lemma in_crowd_insert: "in_crowd x c N \<Longrightarrow> in_crowd y (one_more c) (insert m N)"
  by (cases c) auto

section \<open>An action and its shape\<close>

definition moves ::
  "('g \<Rightarrow> 'd list list \<Rightarrow> bool) \<Rightarrow> Addr \<Rightarrow> l2_shape \<Rightarrow> ('d, 'g) l2_run \<Rightarrow> ('d, 'g) l2_run \<Rightarrow> bool" where
  "moves ok a sh' r r' \<longleftrightarrow>
     only_line ok a r r' \<and> has_shape (num_controllers (this r')) sh' (line (this r') a) \<and>
     waits (this r') = waits (this r)"

definition shaped :: "('g \<Rightarrow> 'd list list \<Rightarrow> bool) \<Rightarrow> Addr \<Rightarrow> l2_shape \<Rightarrow> ('d, 'g) l2_run \<Rightarrow> bool" where
  "shaped ok a sh r \<longleftrightarrow> run_ok ok a r \<and> has_shape (num_controllers (this r)) sh (line (this r) a)"

lemma shaped_ok: "shaped ok a sh r \<Longrightarrow> run_ok ok a r"
  by (simp add: shaped_def)

lemma moves_shaped: "moves ok a sh' r r' \<Longrightarrow> shaped ok a sh' r'"
  unfolding moves_def shaped_def by (auto dest: only_line_ok)

lemma moves_trans: "moves ok a sh1 r r1 \<Longrightarrow> moves ok a sh2 r1 r2 \<Longrightarrow> moves ok a sh2 r r2"
  using only_line_trans unfolding moves_def by fastforce

lemma quiet_moves: "shaped ok a sh r \<Longrightarrow> quiet ok a r r' \<Longrightarrow> moves ok a sh r r'"
  unfolding moves_def shaped_def quiet_def only_line_def by simp

lemma stay_moves: "shaped ok a sh r \<Longrightarrow> moves ok a sh r r"
  by (simp add: moves_def shaped_def only_line_def)

lemma same_counts: "only_line ok a r r' \<Longrightarrow> num_controllers (this r') = num_controllers (this r)"
  by (simp add: only_line_def)

lemma upd_entry_shape:
  assumes "shaped ok a (e, t) r" and "upd_entry f r = Inr r'"
    and "\<And>c x x'. entry_fits (num_controllers (this r)) c x \<Longrightarrow> f x = Inr x' \<Longrightarrow> entry_fits (num_controllers (this r)) (h c) x'"
  shows "moves ok a (map_option h e, t) r r'"
proof -
  obtain p x x' where x: "fst (line (this r) a) = Some (p, x)" "f x = Inr x'" "only_line ok a r r'"
    "line (this r') a = (Some (p, x'), snd (line (this r) a))" "waits (this r') = waits (this r)"
    by (rule upd_entry_line [OF shaped_ok [OF assms(1)] assms(2)]) (rule that)
  then show ?thesis
    using assms(1) assms(3) [of _ x x'] same_counts [OF x(3)]
    by (auto simp: moves_def shaped_def has_shape_def option_rel_Some2)
qed

lemma upd_tbe_shape:
  assumes "shaped ok a (e, t) r" and "upd_tbe f r = Inr r'"
    and "\<And>c x x'. tbe_fits (num_controllers (this r)) c x \<Longrightarrow> f x = Inr x' \<Longrightarrow> tbe_fits (num_controllers (this r)) (h c) x'"
  shows "moves ok a (e, map_option h t) r r'"
proof -
  obtain x x' where x: "snd (line (this r) a) = Some x" "f x = Inr x'" "only_line ok a r r'"
    "line (this r') a = (fst (line (this r) a), Some x')" "waits (this r') = waits (this r)"
    by (rule upd_tbe_line [OF shaped_ok [OF assms(1)] assms(2)]) (rule that)
  then show ?thesis
    using assms(1) assms(3) [of _ x x'] same_counts [OF x(3)]
    by (auto simp: moves_def shaped_def has_shape_def option_rel_Some2)
qed

lemma entry_data_shape:
  assumes "shaped ok a sh r" and "upd_entry f r = Inr r'"
    and "\<And>x x'. f x = Inr x' \<Longrightarrow> Sharers x' = Sharers x \<and> Exclusive x' = Exclusive x \<and> ent_is_expired x' = ent_is_expired x"
  shows "moves ok a sh r r'"
  using upd_entry_shape [of ok a "fst sh" "snd sh" r f r' "\<lambda>c. c"] assms by (simp add: entry_fits_def option.map_ident)

lemma tbe_data_shape:
  assumes "shaped ok a sh r" and "upd_tbe f r = Inr r'" and "\<And>x x'. f x = Inr x' \<Longrightarrow> L1_GetS_IDs x' = L1_GetS_IDs x"
  shows "moves ok a sh r r'"
  using upd_tbe_shape [of ok a "fst sh" "snd sh" r f r' "\<lambda>c. c"] assms by (simp add: tbe_fits_def option.map_ident)

lemma addSharer_shape:
  assumes "shaped ok a sh r" and "addSharer m r = Inr r'"
  shows "moves ok a (map_option one_more (fst sh), snd sh) r r'"
proof (rule upd_entry_shape)
  show "shaped ok a (fst sh, snd sh) r" using assms(1) by simp
  show "upd_entry (\<lambda>e. bindE (nd_add m (Sharers e)) (\<lambda>nd. Inr (e\<lparr>Sharers := nd\<rparr>))) r = Inr r'"
    using assms(2) by (auto simp: addSharer_def bindE_eq_Inr)
qed (auto simp: bindE_eq_Inr entry_fits_def nd_add_fits intro: in_crowd_insert)

lemma clear_sharers_shape:
  assumes "shaped ok a sh r" and "clear_sharers r = Inr r'"
  shows "moves ok a (map_option (\<lambda>_. Nobody) (fst sh), snd sh) r r'"
proof (rule upd_entry_shape)
  show "shaped ok a (fst sh, snd sh) r" using assms(1) by simp
  show "upd_entry (\<lambda>e. bindE (nd_clear (Sharers e)) (\<lambda>nd. Inr (e\<lparr>Sharers := nd\<rparr>))) r = Inr r'"
    using assms(2) by (simp add: clear_sharers_def)
qed (auto simp: bindE_eq_Inr entry_fits_def dest: nd_clear_fits)

text \<open>Clearing the sharers, naming the owner and adding it leaves the owner as the only sharer.\<close>

lemma mark_exclusive_shape:
  assumes "shaped ok a sh r" and "mark_exclusive m r = Inr r'"
  shows "moves ok a (map_option (\<lambda>_. Owner) (fst sh), snd sh) r r'"
proof -
  obtain r1 r2 where l: "clear_sharers r = Inr r1" "upd_entry (\<lambda>e. Inr (e\<lparr>Exclusive := m\<rparr>)) r1 = Inr r2"
    "upd_entry (\<lambda>e. bindE (nd_add m (Sharers e)) (\<lambda>nd. Inr (e\<lparr>Sharers := nd\<rparr>))) r2 = Inr r'"
    using assms(2) unfolding mark_exclusive_def addSharer_def bindE_eq_Inr by blast
  have m1: "moves ok a (map_option (\<lambda>_. Nobody) (fst sh), snd sh) r r1" by (rule clear_sharers_shape [OF assms(1) l(1)])
  obtain p x where x: "fst (line (this r1) a) = Some (p, x)" "only_line ok a r1 r2"
    "line (this r2) a = (Some (p, x\<lparr>Exclusive := m\<rparr>), snd (line (this r1) a))" "waits (this r2) = waits (this r1)"
    by (rule upd_entry_line [OF shaped_ok [OF moves_shaped [OF m1]] l(2)]) (use that in auto)
  obtain q y y' where y: "fst (line (this r2) a) = Some (q, y)"
    "bindE (nd_add m (Sharers y)) (\<lambda>nd. Inr (y\<lparr>Sharers := nd\<rparr>)) = Inr y'"
    "only_line ok a r2 r'" "line (this r') a = (Some (q, y'), snd (line (this r2) a))" "waits (this r') = waits (this r2)"
    by (rule upd_entry_line [OF only_line_ok [OF x(2)] l(3)]) (rule that)
  obtain c where c: "fst sh = Some c" "entry_fits (num_controllers (this r1)) Nobody x"
    "rel_option (tbe_fits (num_controllers (this r1))) (snd sh) (snd (line (this r1) a))"
    using m1 x(1) by (auto simp: moves_def has_shape_def option_rel_Some2)
  obtain nd where nd: "nd_add m (Sharers x) = Inr nd" "y' = x\<lparr>Exclusive := m, Sharers := nd\<rparr>"
    using x(3) y(1,2) by (auto simp: bindE_eq_Inr)
  have "entry_fits (num_controllers (this r1)) Owner y'"
    using c(2) nd_add_fits [OF _ nd(1), of "num_controllers (this r1)"] nd(2) by (simp add: entry_fits_def)
  moreover have "only_line ok a r r'" "num_controllers (this r') = num_controllers (this r1)"
    using only_line_trans [OF only_line_trans [of ok a r r1 r2] y(3)] x(2) m1 same_counts [OF x(2)] same_counts [OF y(3)]
    by (simp_all add: moves_def)
  ultimately show ?thesis using c(1,3) m1 x(3,4) y(4,5) by (simp add: moves_def has_shape_def)
qed

lemma allocate_tbe_shape:
  assumes "shaped ok a sh r" and "i_allocateTBE a r = Inr r'"
  shows "moves ok a (fst sh, Some Nobody) r r'"
proof -
  let ?n = "num_controllers (this r)"
  obtain tt r1 r2 e r3 n where l: "tt_allocate (l2_tbe_new ?n) a (TBEs (this r)) = Inr tt"
    "r1 = r\<lparr>this := (this r)\<lparr>TBEs := tt\<rparr>, m_tbe_ptr := map_option (\<lambda>_. a) (tt_lookup a tt)\<rparr>"
    "upd_tbe (\<lambda>t. bindE (nd_clear (L1_GetS_IDs t)) (\<lambda>nd. Inr (t\<lparr>L1_GetS_IDs := nd\<rparr>))) r1 = Inr r2"
    "the_entry r2 = Inr e"
    "(if CacheState e \<noteq> NP
      then upd_tbe (\<lambda>t. bindE (db_assign (ent_DataBlk e) (tbe_DataBlk t)) (\<lambda>d.
             Inr (t\<lparr>tbe_DataBlk := d, tbe_Dirty := ent_Dirty e\<rparr>))) r2
      else Inr r2) = Inr r3"
    "upd_tbe (\<lambda>t. Inr (t\<lparr>pendingAcks := int n\<rparr>)) r3 = Inr r'"
    using assms(2) unfolding i_allocateTBE_def Let_def bindE_eq_Inr
    by (elim exE conjE) (rule that, assumption, rule refl, assumption+)
  obtain t0 where t0: "l2_tbe_new ?n (tt_block_size (TBEs (this r))) = Inr t0"
    "\<And>b. tt_lookup b tt = (if b = a then Some t0 else tt_lookup b (TBEs (this r)))"
    using l(1) by (rule tt_lookup_allocate) (rule that)
  have "tbe_fits ?n Nobody t0"
    using t0(1) nd_setRubySystem_fits unfolding l2_tbe_new_def bindE_eq_Inr by (fastforce simp: tbe_fits_def)
  then have 1: "moves ok a (fst sh, Some Nobody) r r1"
    using assms(1) t0(2) unfolding l(2) by (simp add: moves_def shaped_def has_shape_def only_line_def run_ok_def line_def waits_def)
  have "moves ok a (fst sh, map_option (\<lambda>_. Nobody) (Some Nobody)) r1 r2"
    by (rule upd_tbe_shape [OF moves_shaped [OF 1] l(3)]) (auto simp: bindE_eq_Inr tbe_fits_def dest: nd_clear_fits)
  then have 2: "moves ok a (fst sh, Some Nobody) r1 r2" by simp
  have 3: "moves ok a (fst sh, Some Nobody) r2 r3"
  proof (cases "CacheState e \<noteq> NP")
    case True
    with l(5) have "upd_tbe (\<lambda>t. bindE (db_assign (ent_DataBlk e) (tbe_DataBlk t)) (\<lambda>d.
             Inr (t\<lparr>tbe_DataBlk := d, tbe_Dirty := ent_Dirty e\<rparr>))) r2 = Inr r3" by simp
    then show ?thesis by (rule tbe_data_shape [OF moves_shaped [OF 2]]) (auto simp: bindE_eq_Inr)
  qed (use l(5) stay_moves [OF moves_shaped [OF 2]] in simp)
  have 4: "moves ok a (fst sh, Some Nobody) r3 r'"
    by (rule tbe_data_shape [OF moves_shaped [OF 3] l(6)]) auto
  show ?thesis by (rule moves_trans [OF moves_trans [OF moves_trans [OF 1 2] 3] 4])
qed

lemma deallocate_tbe_shape:
  assumes "shaped ok a sh r" and "s_deallocateTBE a r = Inr r'"
  shows "moves ok a (fst sh, None) r r'"
  using deallocate_tbe_line [OF shaped_ok [OF assms(1)] assms(2)] assms(1) same_counts
  by (fastforce simp: moves_def shaped_def has_shape_def)

text \<open>The actions that leave all lines and the stalled requests alone.\<close>

definition quiet_action :: "l2_action \<Rightarrow> bool" where
  "quiet_action x \<longleftrightarrow> x \<in> {A_issueFetchToMemory, B_forwardRequestToExclusive, C_exclusiveReplacement,
     C_exclusiveCleanReplacement, CT_exclusiveReplacementFromTBE, D_sendDataToRequestor,
     DD_sendExclusiveDataToRequestor, DS_sendSharedDataToRequestor, E_sendDataToGetSRequestors,
     EX_sendExclusiveDataToGetSRequestors, EE_sendDataToGetXRequestor, F_sendInvToSharers,
     FW_sendFwdInvToSharers, FWM_sendFwdInvToSharersMinusRequestor, JJ_popL1RequestQueue,
     K_popUnblockQueue, O_popIncomingResponseQueue, SET_setMRU, T_sendWBAck, TS_sendInvAckToUpgrader,
     UU_profileMiss, UU_profileHit, ZN_recycleResponseNetwork}"

lemma write_shape:
  assumes "shaped ok a sh r"
  shows "m_writeDataToCache now a r = Inr r' \<Longrightarrow> moves ok a sh r r'"
    and "mr_writeDataToCacheFromRequest r = Inr r' \<Longrightarrow> moves ok a sh r r'"
    and "q_updateAck r = Inr r' \<Longrightarrow> moves ok a sh r r'"
    and "qq_writeDataToTBE r = Inr r' \<Longrightarrow> moves ok a sh r r'"
    and "xx_recordGetXL1ID r = Inr r' \<Longrightarrow> moves ok a sh r r'"
    and "qqr_writeDataToTBEFromPUTX r = Inr r' \<Longrightarrow> moves ok a sh r r'"
proof -
  note e = entry_data_shape [OF assms] and t = tbe_data_shape [OF assms]
  show "moves ok a sh r r'" if w: "m_writeDataToCache now a r = Inr r'"
  proof -
    obtain r1 r2 m where l: "record_type now TagArrayRead a r = Inr r1" "record_type now DataArrayWrite a r1 = Inr r2"
      "peek_response r2 = Inr m"
      "upd_entry (\<lambda>e. bindE (db_assign (rs_DataBlk m) (ent_DataBlk e)) (\<lambda>d.
         Inr (e\<lparr>ent_DataBlk := d, ent_Dirty := (if rs_Dirty m then rs_Dirty m else ent_Dirty e)\<rparr>))) r2 = Inr r'"
      using w unfolding m_writeDataToCache_def bindE_eq_Inr
      by (elim exE conjE) (rule that, assumption+)
    have 1: "moves ok a sh r r1" by (rule quiet_moves [OF assms record_quiet [OF shaped_ok [OF assms] l(1)]])
    note s1 = moves_shaped [OF 1]
    have 2: "moves ok a sh r1 r2" by (rule quiet_moves [OF s1 record_quiet [OF shaped_ok [OF s1] l(2)]])
    have 3: "moves ok a sh r2 r'" by (rule entry_data_shape [OF moves_shaped [OF 2] l(4)]) (auto simp: bindE_eq_Inr)
    show ?thesis by (rule moves_trans [OF moves_trans [OF 1 2] 3])
  qed
  show "moves ok a sh r r'" if "mr_writeDataToCacheFromRequest r = Inr r'"
    using that stay_moves [OF assms] unfolding mr_writeDataToCacheFromRequest_def bindE_eq_Inr
    by (auto split: if_splits) (erule e, auto simp: bindE_eq_Inr)
  show "moves ok a sh r r'" if "q_updateAck r = Inr r'"
    using that unfolding q_updateAck_def bindE_eq_Inr by (auto intro: t)
  show "moves ok a sh r r'" if "qq_writeDataToTBE r = Inr r'"
    using that unfolding qq_writeDataToTBE_def bindE_eq_Inr by auto (erule t, auto simp: bindE_eq_Inr)
  show "moves ok a sh r r'" if "xx_recordGetXL1ID r = Inr r'"
    using that unfolding xx_recordGetXL1ID_def bindE_eq_Inr by (auto intro: t)
  show "moves ok a sh r r'" if "qqr_writeDataToTBEFromPUTX r = Inr r'"
    using that stay_moves [OF assms] unfolding qqr_writeDataToTBEFromPUTX_def bindE_eq_Inr
    by (auto split: if_splits) (erule t, auto simp: bindE_eq_Inr)
qed

lemma sharer_shape:
  assumes "shaped ok a sh r"
  shows "nn_addSharer r = Inr r' \<Longrightarrow> moves ok a (map_option one_more (fst sh), snd sh) r r'"
    and "nnu_addSharerFromUnblock r = Inr r' \<Longrightarrow> moves ok a (map_option one_more (fst sh), snd sh) r r'"
    and "ll_clearSharers r = Inr r' \<Longrightarrow> moves ok a (map_option (\<lambda>_. Nobody) (fst sh), snd sh) r r'"
    and "mm_markExclusive r = Inr r' \<Longrightarrow> moves ok a (map_option (\<lambda>_. Owner) (fst sh), snd sh) r r'"
    and "mmu_markExclusiveFromUnblock r = Inr r' \<Longrightarrow> moves ok a (map_option (\<lambda>_. Owner) (fst sh), snd sh) r r'"
  unfolding nn_addSharer_def nnu_addSharerFromUnblock_def ll_clearSharers_def mm_markExclusive_def
    mmu_markExclusiveFromUnblock_def bindE_eq_Inr
  by (elim exE conjE, erule addSharer_shape [OF assms] clear_sharers_shape [OF assms] mark_exclusive_shape [OF assms])+

lemma record_gets_shape:
  assumes "shaped ok a sh r" and "ss_recordGetSL1ID r = Inr r'"
  shows "moves ok a (fst sh, map_option one_more (snd sh)) r r'"
proof -
  obtain m where "upd_tbe (\<lambda>t. bindE (nd_add m (L1_GetS_IDs t)) (\<lambda>nd. Inr (t\<lparr>L1_GetS_IDs := nd\<rparr>))) r = Inr r'"
    using assms(2) unfolding ss_recordGetSL1ID_def bindE_eq_Inr by auto
  then show ?thesis
    using assms(1)
    by (intro upd_tbe_shape) (auto simp: bindE_eq_Inr tbe_fits_def nd_add_fits, rule in_crowd_insert)
qed

context replacement_policy
begin

lemma quiet_action_quiet:
  assumes "run_ok ok a r" and "quiet_action x" and "run_action P now a x r = Inr r'"
  shows "quiet ok a r r'"
  using assms(2,3) unfolding quiet_action_def
  by (elim insertE emptyE)
    (simp_all add: send_quiet [OF assms(1)] send_data_quiet [OF assms(1)] pop_quiet [OF assms(1)]
      profile_quiet [OF assms(1)] setMRU_quiet [OF assms(1)] d_sendDataToRequestor_def
      dd_sendExclusiveDataToRequestor_def ds_sendSharedDataToRequestor_def e_sendDataToGetSRequestors_def
      ex_sendExclusiveDataToGetSRequestors_def)

lemma allocate_shape:
  assumes "shaped ok a sh r" and "qq_allocateL2CacheBlock P now a r = Inr r'"
  shows "moves ok a (case fst sh of None \<Rightarrow> Some Nobody | Some c \<Rightarrow> Some c, snd sh) r r'"
proof (cases "fst sh")
  case None
  then have n: "fst (line (this r) a) = None" using assms(1) by (simp add: shaped_def has_shape_def)
  obtain x where x: "only_line ok a r r'" "l2_entry_setRubySystem (num_controllers (this r)) l2_entry_new = Inr x"
    "line (this r') a = (Some (PermInvalid, x), snd (line (this r) a))" "waits (this r') = waits (this r)"
    by (rule allocate_line [OF shaped_ok [OF assms(1)] assms(2) n]) (rule that)
  obtain nd where nd: "nd_setRubySystem (num_controllers (this r)) nd_default = Inr nd" "x = l2_entry_new\<lparr>Sharers := nd\<rparr>"
    using x(2) by (auto simp: l2_entry_setRubySystem_def bindE_eq_Inr l2_entry_new_def)
  have "entry_fits (num_controllers (this r)) Nobody x"
    using nd_setRubySystem_fits [OF nd(1)] nd(2) by (simp add: entry_fits_def l2_entry_new_def)
  then show ?thesis using None assms(1) x same_counts [OF x(1)] by (simp add: moves_def shaped_def has_shape_def)
next
  case (Some c)
  then obtain px where "fst (line (this r) a) = Some px" using assms(1) by (auto simp: shaped_def has_shape_def option_rel_Some1)
  then have "m_cache_entry_ptr r \<noteq> None"
    using shaped_ok [OF assms(1)] present_loc_None [of "L2cache (this r)" a] by (auto simp: run_ok_def line_def ents_def)
  then have "r' = r" using assms(2) by (simp add: qq_allocateL2CacheBlock_def)
  then show ?thesis using stay_moves [OF assms(1)] Some prod.collapse [of sh] by simp
qed

lemma deallocate_shape:
  assumes "shaped ok a sh r" and "rr_deallocateL2CacheBlock P now a r = Inr r'"
  shows "moves ok a (None, snd sh) r r'"
  using deallocate_line [OF shaped_ok [OF assms(1)] assms(2)] assms(1) same_counts
  by (fastforce simp: moves_def shaped_def has_shape_def)

text \<open>No entry of a shape is expired, so the action on expired blocks does nothing.\<close>

lemma recycle_expired_shape:
  assumes "shaped ok a sh r" and "z_recycleExpiredBlock P now a r = Inr r'"
  shows "moves ok a sh r r'"
proof -
  have "\<not> ent_is_expired x" if "the_entry r = Inr x" for x
    by (rule the_entry_line [OF shaped_ok [OF assms(1)] that])
      (use assms(1) in \<open>auto simp: shaped_def has_shape_def option_rel_Some2 entry_fits_def\<close>)
  then have "r' = r" using assms(2) by (auto simp: z_recycleExpiredBlock_def bindE_eq_Inr split: if_splits)
  then show ?thesis using stay_moves [OF assms(1)] by simp
qed

lemmas action_shapes = write_shape sharer_shape record_gets_shape allocate_tbe_shape deallocate_tbe_shape
  allocate_shape deallocate_shape recycle_expired_shape

lemma action_moves:
  assumes "shaped ok a sh r" and "run_action P now a x r = Inr r'" and "act_shape x sh = Some sh'"
    and "x \<noteq> ZZ_stallAndWaitL1RequestQueue" and "x \<noteq> KD_wakeUpDependents"
  shows "moves ok a sh' r r'"
proof (cases "quiet_action x")
  case True
  then have "act_shape x sh = Some sh" by (auto simp: quiet_action_def act_shape_def)
  then show ?thesis using quiet_moves [OF assms(1) quiet_action_quiet [OF shaped_ok [OF assms(1)] True assms(2)]] assms(3) by simp
next
  case False
  then show ?thesis
    using assms by (cases x; clarsimp simp: quiet_action_def act_shape_def) (rule action_shapes, assumption, assumption)+
qed

end

end
