(* ===== verification/L2_Stalls.thy ===== *)
theory L2_Stalls
  imports L2_Shapes
begin

text \<open>
  The stalled requests of the L2 controller.  A stalled request is recorded twice: the buffer keeps
  the message under its address, and the controller keeps the buffer under the address, in the slot
  of the port.  The two records agree at all times, and the rules of the protocol stall a request
  only in a transient state and wake it up in every transition out of the transient states.
\<close>

abbreviation stall_map :: "('d, 'g) l2_controller \<Rightarrow> (Addr \<times> request_msg message_scheme list) list" where
  "stall_map s \<equiv> m_stall_msg_map (L1RequestToL2Cache s)"

definition stalled :: "('d, 'g) l2_controller \<Rightarrow> Addr \<Rightarrow> bool" where
  "stalled s b \<longleftrightarrow> map_of (stall_map s) b \<noteq> None"

definition records_agree :: "('d, 'g) l2_controller \<Rightarrow> bool" where
  "records_agree s \<longleftrightarrow>
     m_in_ports (l2_base s) = 3 \<and>
     (\<forall>b. map_of (m_waiting_buffers (l2_base s)) b =
        (if stalled s b then Some [Some L1RequestL2Network_in, None, None] else None))"

abbreviation current_port :: "('d, 'g) l2_controller \<Rightarrow> nat" where
  "current_port s \<equiv> m_cur_in_port (l2_base s)"

lemma waits_same:
  assumes "waits s' = waits s"
  shows "stalled s' = stalled s" "records_agree s' = records_agree s" "l2_base s' = l2_base s"
proof -
  show "stalled s' = stalled s" "l2_base s' = l2_base s" using assms by (auto simp: waits_def stalled_def fun_eq_iff)
  then show "records_agree s' = records_agree s" by (simp add: records_agree_def)
qed

lemma map_of_map_append: "map_of (map_append a m l) b = None \<longleftrightarrow> b \<noteq> a \<and> map_of l b = None"
  by (induction a m l rule: map_append.induct) auto

lemma map_of_map_erase: "map_of (map_erase a l) b = (if b = a then None else map_of l b)"
  by (induction l) (auto simp: map_erase_def)

section \<open>The two actions\<close>

lemma stall_records:
  assumes "records_agree (this r)" and "current_port (this r) = 0"
    and "zz_stallAndWaitL1RequestQueue now a r = Inr r'"
  shows "records_agree (this r')" "stalled (this r') b \<longleftrightarrow> b = a \<or> stalled (this r) b"
    "current_port (this r') = current_port (this r)"
proof -
  let ?s = "this r"
  obtain ac q where l: "stallBuffer L1RequestL2Network_in a (l2_base ?s) = Inr ac"
    "mb_stallMessage a now now (L1RequestToL2Cache ?s) = Inr q"
    "this r' = ?s\<lparr>l2_base := ac, L1RequestToL2Cache := q\<rparr>"
    using assms(3) unfolding zz_stallAndWaitL1RequestQueue_def Let_def bindE_eq_Inr by auto
  obtain m where "m_stall_msg_map q = map_append a m (stall_map ?s)" using l(2) by (rule stall_stalls)
  then have st: "stalled (this r') b \<longleftrightarrow> b = a \<or> stalled ?s b" for b
    using map_of_map_append [of a m "stall_map ?s" b] by (auto simp: stalled_def l(3))
  show "stalled (this r') b \<longleftrightarrow> b = a \<or> stalled ?s b" by (rule st)
  note w = stallBuffer_waiting [OF l(1)]
  have 3: "m_in_ports (l2_base ?s) = 3" using assms(1) by (simp add: records_agree_def)
  have row: "map_of (m_waiting_buffers ac) b =
      (if stalled (this r') b then Some [Some L1RequestL2Network_in, None, None] else None)" for b
    using assms(1,2) w(1) [of b] st [of b] 3 by (auto simp: records_agree_def numeral_3_eq_3)
  show "records_agree (this r')" using row w(2) 3 unfolding records_agree_def by (simp add: l(3))
  show "current_port (this r') = current_port ?s" using w(3) by (simp add: l(3))
qed

lemma reanalyze_request:
  assumes "l2_reanalyze a now L1RequestL2Network_in s = Inr s'"
  shows "stalled s' b \<longleftrightarrow> b \<noteq> a \<and> stalled s b" "l2_base s' = l2_base s"
proof -
  obtain q where q: "mb_reanalyzeMessages a now (L1RequestToL2Cache s) = Inr q" "s' = s\<lparr>L1RequestToL2Cache := q\<rparr>"
    using assms by (auto simp: bindE_eq_Inr)
  show "stalled s' b \<longleftrightarrow> b \<noteq> a \<and> stalled s b" "l2_base s' = l2_base s"
    using reanalyze_stalls [OF q(1)] by (simp_all add: q(2) stalled_def map_of_map_erase)
qed

lemma wake_slots_request:
  assumes "wake_slots (l2_reanalyze a now) [Some L1RequestL2Network_in, None, None] (rev [0..<n]) s = Inr s'"
    and "0 < n" and "n < 3"
  shows "stalled s' b \<longleftrightarrow> b \<noteq> a \<and> stalled s b"
proof -
  have "rev [0..<n] = (if n = 1 then [0] else [1, 0])" using assms(2,3) by (auto simp: upt_rec numeral_eq_Suc)
  then have "l2_reanalyze a now L1RequestL2Network_in s = Inr s'"
    using assms(1) by (auto simp: bindE_eq_Inr nthE_def split: if_splits)
  then show ?thesis by (rule reanalyze_request(1))
qed

lemma wake_records:
  assumes "records_agree (this r)" and "current_port (this r) \<in> {1, 2}" and "kd_wakeUpDependents now a r = Inr r'"
  shows "records_agree (this r')" "stalled (this r') b \<longleftrightarrow> b \<noteq> a \<and> stalled (this r) b"
    "current_port (this r') = current_port (this r)"
proof -
  let ?s = "this r"
  obtain ac s where l: "wakeUpBuffers (l2_reanalyze a now) a (l2_base ?s) ?s = Inr (ac, s)" "this r' = s\<lparr>l2_base := ac\<rparr>"
    using assms(3) unfolding kd_wakeUpDependents_def bindE_eq_Inr by auto
  note w = wakeUpBuffers_waiting [OF l(1)]
  have st: "stalled (this r') b \<longleftrightarrow> b \<noteq> a \<and> stalled ?s b" for b
  proof (cases "stalled ?s a")
    case True
    then have "map_of (m_waiting_buffers (l2_base ?s)) a = Some [Some L1RequestL2Network_in, None, None]"
      using assms(1) by (simp add: records_agree_def)
    then have "wake_slots (l2_reanalyze a now) [Some L1RequestL2Network_in, None, None] (rev [0..<current_port ?s]) ?s = Inr s"
      using l(1) by (auto simp: wakeUpBuffers_def bindE_eq_Inr)
    from wake_slots_request [OF this, of b] show ?thesis using assms(2) by (auto simp: l(2) stalled_def)
  next
    case False
    then have "map_of (m_waiting_buffers (l2_base ?s)) a = None" using assms(1) by (simp add: records_agree_def)
    then have "s = ?s" using l(1) by (simp add: wakeUpBuffers_def)
    then show ?thesis using False by (auto simp: l(2) stalled_def)
  qed
  show "stalled (this r') b \<longleftrightarrow> b \<noteq> a \<and> stalled ?s b" by (rule st)
  have "map_of (m_waiting_buffers ac) b =
      (if stalled (this r') b then Some [Some L1RequestL2Network_in, None, None] else None)" for b
    using assms(1) w(1) [of b] st [of b] by (simp add: records_agree_def)
  then show "records_agree (this r')" using w(2) assms(1) unfolding records_agree_def by (simp add: l(2))
  show "current_port (this r') = current_port ?s" using w(3) by (simp add: l(2))
qed

end
