(* ===== verification/L2_Transitions.thy ===== *)
theory L2_Transitions
  imports L2_Stalls
begin

text \<open>
  A transition of the L2 controller as a whole.  The state of a line is what \<^verbatim>\<open>getState\<close> reads; a
  line is good when it has the shape of its state and its entry records that state and the
  permission of it.  A transition keeps every line good, and the requests it leaves stalled wait
  for a line in a transient state.
\<close>

definition stable :: "l2_state \<Rightarrow> bool" where
  "stable st \<longleftrightarrow> st \<in> {NP, SS, M, MT}"

definition request_event :: "l2_event \<Rightarrow> bool" where
  "request_event ev \<longleftrightarrow> ev \<in> {L1_GET_INSTR, L1_GETS, L1_GETX, L1_UPGRADE, L1_PUTX, L1_PUTX_old,
     L2_Replacement, L2_Replacement_clean}"

text \<open>May a request be stalled at the line after the actions, if \<open>f\<close> says whether one may be before?\<close>

fun acts_stall :: "l2_action list \<Rightarrow> bool \<Rightarrow> bool" where
  "acts_stall [] f = f"
| "acts_stall (x # xs) f =
     acts_stall xs (if x = ZZ_stallAndWaitL1RequestQueue then True else if x = KD_wakeUpDependents then False else f)"

definition rule_stalls :: "l2_rule \<Rightarrow> bool" where
  "rule_stalls rl =
     (case rl of (sts, evs, nxt, acts) \<Rightarrow>
        list_all (\<lambda>st. acts_stall acts (\<not> stable st) \<longrightarrow> \<not> stable (case nxt of None \<Rightarrow> st | Some st' \<Rightarrow> st')) sts \<and>
        (ZZ_stallAndWaitL1RequestQueue \<in> set acts \<longrightarrow> list_all request_event evs) \<and>
        (KD_wakeUpDependents \<in> set acts \<longrightarrow> list_all (\<lambda>ev. \<not> request_event ev) evs))"

lemma rules_stalls: "list_all rule_stalls l2_rules"
  by code_simp

lemma transition_stalls:
  assumes "l2_transition st ev = Some (nxt, acts)"
  shows "acts_stall acts (\<not> stable st) \<Longrightarrow> \<not> stable nxt"
    and "ZZ_stallAndWaitL1RequestQueue \<in> set acts \<Longrightarrow> request_event ev"
    and "KD_wakeUpDependents \<in> set acts \<Longrightarrow> \<not> request_event ev"
proof -
  obtain sts evs n where r: "(sts, evs, n, acts) \<in> set l2_rules" "st \<in> set sts" "ev \<in> set evs"
    "nxt = (case n of None \<Rightarrow> st | Some st' \<Rightarrow> st')"
    by (rule l2_transition_rule [OF assms]) (rule that)
  have "rule_stalls (sts, evs, n, acts)" using rules_stalls r(1) by (simp add: list_all_iff)
  then show "acts_stall acts (\<not> stable st) \<Longrightarrow> \<not> stable nxt"
    and "ZZ_stallAndWaitL1RequestQueue \<in> set acts \<Longrightarrow> request_event ev"
    and "KD_wakeUpDependents \<in> set acts \<Longrightarrow> \<not> request_event ev"
    using r(2-) by (auto simp: rule_stalls_def list_all_iff)
qed

section \<open>The actions of a transition\<close>

definition after_actions ::
  "('g \<Rightarrow> 'd list list \<Rightarrow> bool) \<Rightarrow> Addr \<Rightarrow> l2_shape \<Rightarrow> bool \<Rightarrow> ('d, 'g) l2_run \<Rightarrow> ('d, 'g) l2_run \<Rightarrow> bool" where
  "after_actions ok a sh f r r' \<longleftrightarrow>
     only_line ok a r r' \<and> has_shape (num_controllers (this r')) sh (line (this r') a) \<and>
     records_agree (this r') \<and> current_port (this r') = current_port (this r) \<and>
     (stalled (this r') a \<longrightarrow> f) \<and> (\<forall>b. b \<noteq> a \<longrightarrow> stalled (this r') b = stalled (this r) b)"

lemma after_shaped: "after_actions ok a sh f r r' \<Longrightarrow> shaped ok a sh r'"
  unfolding after_actions_def shaped_def by (auto dest: only_line_ok)

lemma after_trans:
  "after_actions ok a sh f r r1 \<Longrightarrow> after_actions ok a sh' f' r1 r2 \<Longrightarrow> after_actions ok a sh' f' r r2"
  unfolding after_actions_def using only_line_trans by fastforce

context replacement_policy
begin

lemma action_step:
  assumes "shaped ok a sh r" and "run_action P now a x r = Inr r'" and "act_shape x sh = Some sh'"
    and "records_agree (this r)" and "stalled (this r) a \<Longrightarrow> f"
    and "x = ZZ_stallAndWaitL1RequestQueue \<Longrightarrow> current_port (this r) = 0"
    and "x = KD_wakeUpDependents \<Longrightarrow> current_port (this r) \<in> {1, 2}"
  shows "after_actions ok a sh'
    (if x = ZZ_stallAndWaitL1RequestQueue then True else if x = KD_wakeUpDependents then False else f) r r'"
proof -
  consider (zz) "x = ZZ_stallAndWaitL1RequestQueue" | (kd) "x = KD_wakeUpDependents"
    | (other) "x \<noteq> ZZ_stallAndWaitL1RequestQueue" "x \<noteq> KD_wakeUpDependents" by blast
  then show ?thesis
  proof cases
    case zz
    then have r': "zz_stallAndWaitL1RequestQueue now a r = Inr r'" "sh' = sh" using assms(2,3) by (simp_all add: act_shape_def)
    note l = stall_line [OF shaped_ok [OF assms(1)] r'(1)] and w = stall_records [OF assms(4) assms(6) [OF zz] r'(1)]
    show ?thesis using zz r'(2) l w assms(1) same_counts [OF l(1)] by (simp add: after_actions_def shaped_def)
  next
    case kd
    then have r': "kd_wakeUpDependents now a r = Inr r'" "sh' = sh" using assms(2,3) by (simp_all add: act_shape_def)
    note l = wake_line [OF shaped_ok [OF assms(1)] r'(1)] and w = wake_records [OF assms(4) assms(7) [OF kd] r'(1)]
    show ?thesis using kd r'(2) l w assms(1) same_counts [OF l(1)] by (simp add: after_actions_def shaped_def)
  next
    case other
    have m: "moves ok a sh' r r'" by (rule action_moves [OF assms(1-3) other])
    note w = waits_same [of "this r'" "this r"]
    show ?thesis using m other assms(4,5) w by (simp add: after_actions_def moves_def)
  qed
qed

lemma actions_step:
  assumes "shaped ok a sh r" and "run_actions P now a acts r = Inr r'" and "acts_shape acts sh = Some sh'"
    and "records_agree (this r)" and "stalled (this r) a \<Longrightarrow> f"
    and "ZZ_stallAndWaitL1RequestQueue \<in> set acts \<Longrightarrow> current_port (this r) = 0"
    and "KD_wakeUpDependents \<in> set acts \<Longrightarrow> current_port (this r) \<in> {1, 2}"
  shows "after_actions ok a sh' (acts_stall acts f) r r'"
  using assms
proof (induction acts arbitrary: r sh f)
  case Nil
  then show ?case by (auto simp: after_actions_def shaped_def only_line_def)
next
  case (Cons x acts)
  obtain r1 sh1 where r1: "run_action P now a x r = Inr r1" "run_actions P now a acts r1 = Inr r'"
    "act_shape x sh = Some sh1" "acts_shape acts sh1 = Some sh'"
    using Cons.prems(2,3) by (auto simp: bindE_eq_Inr split: option.splits)
  let ?f = "if x = ZZ_stallAndWaitL1RequestQueue then True else if x = KD_wakeUpDependents then False else f"
  have 1: "after_actions ok a sh1 ?f r r1"
    using Cons.prems by (intro action_step [OF Cons.prems(1) r1(1,3)]) auto
  have "after_actions ok a sh' (acts_stall acts ?f) r1 r'"
    by (rule Cons.IH [OF after_shaped [OF 1] r1(2,4)]) (use 1 Cons.prems(6,7) in \<open>auto simp: after_actions_def\<close>)
  from after_trans [OF 1 this] show ?case by simp
qed

end

section \<open>State and permission\<close>

definition line_state :: "l2_line \<Rightarrow> l2_state" where
  "line_state l =
     (case snd l of
        Some t \<Rightarrow> TBEState t
      | None \<Rightarrow> (case fst l of Some (p, x) \<Rightarrow> CacheState x | None \<Rightarrow> NP))"

definition good_line :: "(machine_type \<Rightarrow> nat) \<Rightarrow> l2_line \<Rightarrow> bool" where
  "good_line counts l \<longleftrightarrow>
     has_shape counts (shape_of (line_state l)) l \<and>
     (\<forall>p x. fst l = Some (p, x) \<longrightarrow>
        CacheState x = line_state l \<and> p = l2_state_to_permission (line_state l))"

definition with_state :: "l2_state \<Rightarrow> l2_line \<Rightarrow> l2_line" where
  "with_state st l =
     (map_option (\<lambda>(p, x). (p, x\<lparr>CacheState := st\<rparr>)) (fst l), map_option (\<lambda>t. t\<lparr>TBEState := st\<rparr>) (snd l))"

definition with_permission :: "l2_state \<Rightarrow> l2_line \<Rightarrow> l2_line" where
  "with_permission st l = (map_option (\<lambda>(p, x). (l2_state_to_permission st, x)) (fst l), snd l)"

lemma ptr_None:
  assumes "run_ok ok a r"
  shows "m_cache_entry_ptr r = None \<longleftrightarrow> fst (line (this r) a) = None" "m_tbe_ptr r = None \<longleftrightarrow> snd (line (this r) a) = None"
  using assms present_loc_None [of "L2cache (this r)" a] by (simp_all add: run_ok_def line_def)

lemma getState_line:
  assumes "run_ok ok a r" and "l2_getState r = Inr st"
  shows "st = line_state (line (this r) a)"
proof -
  let ?l = "line (this r) a"
  note n = ptr_None [OF assms(1)]
  show ?thesis
  proof (cases "m_tbe_ptr r = None")
    case False
    then have "bindE (the_tbe r) (\<lambda>t. Inr (TBEState t)) = Inr st" using assms(2) unfolding l2_getState_def by (simp only: simp_thms if_True)
    then obtain t where "the_tbe r = Inr t" "st = TBEState t" by (auto simp: bindE_eq_Inr)
    then show ?thesis using the_tbe_line [OF assms(1)] by (simp add: line_state_def)
  next
    case nt: True
    show ?thesis
    proof (cases "m_cache_entry_ptr r = None")
      case False
      then have "bindE (the_entry r) (\<lambda>e. Inr (CacheState e)) = Inr st"
        using assms(2) nt unfolding l2_getState_def by (simp only: simp_thms if_True if_False)
      then obtain x where x: "the_entry r = Inr x" "st = CacheState x" by (auto simp: bindE_eq_Inr)
      obtain p where "fst ?l = Some (p, x)" using the_entry_line [OF assms(1) x(1)] .
      then show ?thesis using x n(2) nt by (simp add: line_state_def)
    next
      case True
      then show ?thesis using assms(2) nt n by (simp add: l2_getState_def line_state_def)
    qed
  qed
qed

lemma setState_line:
  assumes "run_ok ok a r" and "l2_setState st r = Inr r'"
  shows "only_line ok a r r'" "line (this r') a = with_state st (line (this r) a)" "waits (this r') = waits (this r)"
proof -
  obtain r1 where r1: "(if m_tbe_ptr r \<noteq> None then upd_tbe (\<lambda>t. Inr (t\<lparr>TBEState := st\<rparr>)) r else Inr r) = Inr r1"
    "(if m_cache_entry_ptr r1 \<noteq> None then upd_entry (\<lambda>e. Inr (e\<lparr>CacheState := st\<rparr>)) r1 else Inr r1) = Inr r'"
    using assms(2) unfolding l2_setState_def bindE_eq_Inr by (elim exE conjE) (rule that)
  have 1: "only_line ok a r r1 \<and> waits (this r1) = waits (this r) \<and>
      line (this r1) a = (fst (line (this r) a), map_option (\<lambda>t. t\<lparr>TBEState := st\<rparr>) (snd (line (this r) a)))"
  proof (cases "m_tbe_ptr r = None")
    case False
    then have "upd_tbe (\<lambda>t. Inr (t\<lparr>TBEState := st\<rparr>)) r = Inr r1" using r1(1) by (simp only: simp_thms if_True)
    then show ?thesis by (rule upd_tbe_line [OF assms(1)]) simp
  next
    case True
    then have "snd (line (this r) a) = None" using ptr_None [OF assms(1)] by simp
    then show ?thesis using True r1(1) assms(1) by (simp add: only_line_def prod_eq_iff)
  qed
  then have ok1: "run_ok ok a r1" using only_line_ok by blast
  have "only_line ok a r1 r' \<and> waits (this r') = waits (this r1) \<and>
      line (this r') a = (map_option (\<lambda>(p, x). (p, x\<lparr>CacheState := st\<rparr>)) (fst (line (this r1) a)), snd (line (this r1) a))"
  proof (cases "m_cache_entry_ptr r1 = None")
    case False
    then have "upd_entry (\<lambda>e. Inr (e\<lparr>CacheState := st\<rparr>)) r1 = Inr r'" using r1(2) by (simp only: simp_thms if_True)
    then show ?thesis by (rule upd_entry_line [OF ok1]) simp
  next
    case True
    then have "fst (line (this r1) a) = None" using ptr_None [OF ok1] by simp
    then show ?thesis using True r1(2) ok1 by (simp add: only_line_def prod_eq_iff)
  qed
  with 1 show "only_line ok a r r'" "line (this r') a = with_state st (line (this r) a)" "waits (this r') = waits (this r)"
    using only_line_trans [of ok a r r1 r'] by (simp_all add: with_state_def)
qed

lemma to_permission_present: "l2_state_to_permission st \<noteq> NotPresent"
  by (cases st) simp_all

lemma setPermission_line:
  assumes "run_ok ok a r" and "l2_setAccessPermission st r = Inr r'"
  shows "only_line ok a r r'" "line (this r') a = with_permission st (line (this r) a)" "waits (this r') = waits (this r)"
proof -
  have "only_line ok a r r' \<and> line (this r') a = with_permission st (line (this r) a) \<and> waits (this r') = waits (this r)"
  proof (cases "m_cache_entry_ptr r")
    case None
    then have "fst (line (this r) a) = None" "r' = r"
      using assms(2) ptr_None [OF assms(1)] by (simp_all add: l2_setAccessPermission_def)
    then show ?thesis using assms(1) by (auto simp: only_line_def with_permission_def prod_eq_iff)
  next
    case (Some loc)
    let ?y' = "entry_changePermission (l2_state_to_permission st)"
    obtain y where y: "entry_at (L2cache (this r)) loc = Inr y"
      "r' = r\<lparr>this := (this r)\<lparr>L2cache := set_entry loc (?y' y) (L2cache (this r))\<rparr>\<rparr>"
      using assms(2) Some unfolding l2_setAccessPermission_def on_cache_def mod_entry_def by (auto simp: bindE_eq_Inr)
    obtain z where z: "entry_at (L2cache (this r)) loc = Inr z"
      "fst (line (this r) a) = Some (m_Permission z, cache_entry.more z)"
      by (rule entry_ptr [OF assms(1) Some]) (rule that)
    have f: "m_Permission (?y' y) = l2_state_to_permission st" "cache_entry.more (?y' y) = cache_entry.more y"
      by (simp_all add: entry_changePermission_def Let_def)
    have "m_Permission (?y' y) \<noteq> NotPresent" using f(1) to_permission_present by simp
    note s = set_entry_line [OF assms(1) Some y(1) _ this y(2)]
    show ?thesis using s z y(1) f by (simp add: with_permission_def)
  qed
  then show "only_line ok a r r'" "line (this r') a = with_permission st (line (this r) a)" "waits (this r') = waits (this r)"
    by simp_all
qed

lemma with_state_shape: "has_shape counts sh (with_permission st (with_state st l)) \<longleftrightarrow> has_shape counts sh l"
  by (cases "fst l"; cases "snd l")
    (auto simp: with_permission_def with_state_def has_shape_def option_rel_Some2 entry_fits_def tbe_fits_def)

lemma shape_of_None: "shape_of st = (None, None) \<longleftrightarrow> st = NP"
  by (cases st) simp_all

lemma good_with_state:
  assumes "has_shape counts (shape_of st) l"
  shows "good_line counts (with_permission st (with_state st l))" "line_state (with_permission st (with_state st l)) = st"
proof -
  have np: "st = NP" if "fst l = None" "snd l = None"
    using assms that shape_of_None [of st] by (simp add: has_shape_def prod_eq_iff)
  show ls: "line_state (with_permission st (with_state st l)) = st"
    by (cases "fst l"; cases "snd l") (auto simp: line_state_def with_permission_def with_state_def np)
  show "good_line counts (with_permission st (with_state st l))"
    unfolding good_line_def ls with_state_shape using assms by (auto simp: with_permission_def with_state_def)
qed

section \<open>A transition\<close>

definition l2_ok :: "('g \<Rightarrow> 'd list list \<Rightarrow> bool) \<Rightarrow> ('d, 'g) l2_controller \<Rightarrow> bool" where
  "l2_ok ok s \<longleftrightarrow>
     array_ok ok (L2cache s) \<and> (\<forall>b. good_line (num_controllers s) (line s b)) \<and> records_agree s \<and>
     (\<forall>b. stalled s b \<longrightarrow> \<not> stable (line_state (line s b)))"

definition l2_same :: "('g \<Rightarrow> 'd list list \<Rightarrow> bool) \<Rightarrow> ('d, 'g) l2_controller \<Rightarrow> ('d, 'g) l2_controller \<Rightarrow> bool" where
  "l2_same ok s s' \<longleftrightarrow>
     same_ents ok (L2cache s) (L2cache s') \<and> TBEs s' = TBEs s \<and> num_controllers s' = num_controllers s \<and>
     stall_map s' = stall_map s \<and> m_in_ports (l2_base s') = m_in_ports (l2_base s) \<and>
     m_waiting_buffers (l2_base s') = m_waiting_buffers (l2_base s)"

lemma l2_same_trans: "l2_same ok s s' \<Longrightarrow> l2_same ok s' s'' \<Longrightarrow> l2_same ok s s''"
  unfolding l2_same_def using same_ents_trans by fastforce

lemma l2_same_line: "l2_same ok s s' \<Longrightarrow> line s' b = line s b"
  by (simp add: l2_same_def same_ents_def line_def)

lemma l2_same_ok:
  assumes "l2_ok ok s" and "l2_same ok s s'"
  shows "l2_ok ok s'"
proof -
  have "array_ok ok (L2cache s')" "num_controllers s' = num_controllers s" "stalled s' = stalled s"
    using assms(2) by (auto simp: l2_same_def same_ents_def stalled_def)
  then show ?thesis using assms(1) l2_same_line [OF assms(2)] assms(2) by (simp add: l2_ok_def records_agree_def l2_same_def)
qed

lemma l2_ok_array: "l2_ok ok s \<Longrightarrow> array_ok ok (L2cache s)"
  by (simp add: l2_ok_def)

text \<open>A change to the buffers that keeps the stalled requests.\<close>

lemma l2_same_buffers:
  assumes "l2_ok ok s" and "L2cache s' = L2cache s" and "TBEs s' = TBEs s" and "num_controllers s' = num_controllers s"
    and "stall_map s' = stall_map s" and "l2_base s' = l2_base s"
  shows "l2_same ok s s'"
  using assms by (simp add: l2_same_def same_ents_refl l2_ok_array)

lemma resources_same:
  assumes "l2_resources now acts s = (q, s')"
  shows "L2cache s' = L2cache s" "TBEs s' = TBEs s" "num_controllers s' = num_controllers s"
    "L1RequestToL2Cache s' = L1RequestToL2Cache s" "l2_base s' = l2_base s"
  using assms unfolding l2_resources_def Let_def by (auto split: prod.splits if_splits)

context replacement_policy
begin

lemma doTransition_ok:
  assumes "l2_ok ok (this r)" and "run_ok ok a r"
    and "current_port (this r) \<in> (if request_event ev then {0} else {1, 2})"
    and "doTransition P now ev a r = Inr (res, s')"
  shows "l2_ok ok s'"
proof -
  obtain st where st: "l2_getState r = Inr st" using assms(4) unfolding doTransition_def bindE_eq_Inr by blast
  have l: "st = line_state (line (this r) a)" by (rule getState_line [OF assms(2) st])
  obtain nxt acts where tr: "l2_transition st ev = Some (nxt, acts)"
    using assms(4) st by (cases "l2_transition st ev") (auto simp: doTransition_def)
  obtain q s1 where res: "l2_resources now acts (this r) = (q, s1)" by (cases "l2_resources now acts (this r)")
  note same = resources_same [OF res]
  let ?r1 = "r\<lparr>this := s1\<rparr>"
  have s1: "l2_same ok (this r) s1" using same by (intro l2_same_buffers [OF assms(1)]) simp_all
  have ok1: "l2_ok ok s1" by (rule l2_same_ok [OF assms(1) s1])
  show ?thesis
  proof (cases q)
    case False
    then have "s' = s1" using assms(4) st tr res by (simp add: doTransition_def)
    then show ?thesis using ok1 by simp
  next
    case True
    then obtain r2 r3 r4 where r: "run_actions P now a acts ?r1 = Inr r2" "l2_setState nxt r2 = Inr r3"
      "l2_setAccessPermission nxt r3 = Inr r4" "s' = this r4"
      using assms(4) st tr res unfolding doTransition_def by (auto simp: bindE_eq_Inr)
    have run1: "run_ok ok a ?r1" using assms(2) same by (simp add: run_ok_def)
    have "good_line (num_controllers s1) (line s1 a)" using ok1 by (simp add: l2_ok_def)
    then have "shaped ok a (shape_of st) ?r1"
      using run1 l l2_same_line [OF s1, of a] by (simp add: shaped_def good_line_def)
    moreover obtain sh where sh: "acts_shape acts (shape_of st) = Some sh" "shape_le sh (shape_of nxt)"
      using transition_shape [OF tr] .
    ultimately have 2: "after_actions ok a sh (acts_stall acts (\<not> stable st)) ?r1 r2"
      using ok1 l transition_stalls(2,3) [OF tr] assms(3) same(5) l2_same_line [OF s1, of a]
      by (intro actions_step [OF _ r(1) sh(1)]) (auto simp: l2_ok_def split: if_splits)
    note ok2 = shaped_ok [OF after_shaped [OF 2]]
    note 3 = setState_line [OF ok2 r(2)]
    note 4 = setPermission_line [OF only_line_ok [OF 3(1)] r(3)]
    have o: "only_line ok a r2 r4" by (rule only_line_trans [OF 3(1) 4(1)])
    have la: "line (this r4) a = with_permission nxt (with_state nxt (line (this r2) a))" using 3(2) 4(2) by simp
    have "has_shape (num_controllers (this r2)) (shape_of nxt) (line (this r2) a)"
      using has_shape_le [OF sh(2)] 2 by (simp add: after_actions_def)
    note g = good_with_state [OF this]
    have w: "waits (this r4) = waits (this r2)" using 3(3) 4(3) by simp
    have oth: "line (this r4) b = line s1 b" "stalled (this r4) b = stalled s1 b" if "b \<noteq> a" for b
      using that o 2 waits_same(1) [OF w] by (simp_all add: only_line_def after_actions_def)
    have c: "num_controllers (this r4) = num_controllers s1" "num_controllers (this r2) = num_controllers s1"
      using o 2 by (simp_all add: only_line_def after_actions_def)
    have lines: "good_line (num_controllers s') (line s' b)" for b
      using g(1) la c oth(1) [of b] ok1 unfolding r(4) l2_ok_def by (cases "b = a") simp_all
    have "stalled s' a \<longrightarrow> acts_stall acts (\<not> stable st)" using 2 waits_same(1) [OF w] by (simp add: after_actions_def r(4))
    then have busy: "\<not> stable (line_state (line s' b))" if "stalled s' b" for b
      using that transition_stalls(1) [OF tr] g(2) la oth [of b] ok1 unfolding r(4) l2_ok_def by (cases "b = a") simp_all
    have "array_ok ok (L2cache s')" using run_okD(1) [OF only_line_ok [OF o]] by (simp add: r(4))
    moreover have "records_agree s'" using 2 waits_same(2) [OF w] by (simp add: after_actions_def r(4))
    ultimately show ?thesis using lines busy by (simp add: l2_ok_def)
  qed
qed

end

end
