(* ===== verification/L2_Reachable.thy ===== *)
theory L2_Reachable
  imports L2_Transitions Cache_Scenario
begin

text \<open>
  The in-ports, the wake-up loop and the runs of the L2 controller.  A run starts with the cache as
  it is constructed, an empty table of transactions and nothing stalled; then the controller wakes
  up, and the network puts messages into the incoming buffers and takes them out of the outgoing
  ones, in any order.
\<close>

section \<open>In-ports\<close>

lemma lookup_run_ok:
  assumes "l2_ok ok s" and "lookup_run now a s = Inr r"
  shows "l2_same ok s (this r)" "run_ok ok a r" "l2_base (this r) = l2_base s"
proof -
  obtain p c where l: "cm_lookup now a (L2cache s) = Inr (p, c)"
    "r = \<lparr>this = s\<lparr>L2cache := c\<rparr>, m_tbe_ptr = map_option (\<lambda>_. a) (tt_lookup a (TBEs s)), m_cache_entry_ptr = p\<rparr>"
    using assms(2) unfolding lookup_run_def getCacheEntry_def by (auto simp: bindE_eq_Inr)
  note c = lookup_same [OF l2_ok_array [OF assms(1)] l(1)]
  show "l2_same ok s (this r)" "run_ok ok a r" "l2_base (this r) = l2_base s"
    using c by (simp_all add: l(2) l2_same_def run_ok_def same_ents_def)
qed

lemma same_cache:
  assumes "l2_ok ok s" and "same_ents ok (L2cache s) c"
  shows "l2_ok ok (s\<lparr>L2cache := c\<rparr>)"
  using assms by (intro l2_same_ok [OF assms(1)]) (simp add: l2_same_def)

lemma response_event_port:
  assumes "response_event m r = Inr ev"
  shows "\<not> request_event ev"
proof -
  have "ev \<in> {WB_Data, WB_Data_clean, Ack_all, Ack, Mem_Data, Mem_Ack, MEM_Inv}"
    using assms unfolding response_event_def by (auto simp: bindE_eq_Inr split: if_splits)
  then show ?thesis by (auto simp: request_event_def)
qed

lemma request_event_port:
  assumes "L1Cache_request_type_to_event ty x r = Inr ev"
  shows "request_event ev"
proof -
  have "ev \<in> {L1_GETS, L1_GET_INSTR, L1_GETX, L1_UPGRADE, L1_PUTX, L1_PUTX_old}"
    using assms unfolding L1Cache_request_type_to_event_def by (auto simp: bindE_eq_Inr split: if_splits)
  then show ?thesis by (auto simp: request_event_def)
qed

lemma replacement_event_port:
  assumes "replacement_event r = Inr ev"
  shows "request_event ev"
proof -
  have "ev \<in> {L2_Replacement, L2_Replacement_clean}" using assms by (auto simp: replacement_event_def bindE_eq_Inr split: if_splits)
  then show ?thesis by (auto simp: request_event_def)
qed

lemma recycle_request_ok:
  assumes "l2_ok ok s" and "recycle_request now s = Inr (res, s')"
  shows "l2_ok ok s'"
proof -
  obtain b where b: "mb_recycle now (cyclesToTicks (recycle_latency s) s) (L1RequestToL2Cache s) = Inr b"
    "s' = s\<lparr>L1RequestToL2Cache := b\<rparr>"
    using assms(2) unfolding recycle_request_def by (auto simp: bindE_eq_Inr)
  show ?thesis
    by (rule l2_same_ok [OF assms(1) l2_same_buffers [OF assms(1)]]) (simp_all add: b(2) recycle_stalls [OF b(1)])
qed

context replacement_policy
begin

lemma trigger_ok:
  assumes "l2_ok ok s" and "lookup_run now a s = Inr r" and "trigger P now ev a r = Inr (res, s')"
    and "current_port s \<in> (if request_event ev then {0} else {1, 2})"
  shows "l2_ok ok s'"
proof -
  obtain q where "doTransition P now ev a r = Inr (q, s')"
    using assms(3) unfolding trigger_def by (auto simp: bindE_eq_Inr)
  moreover note l = lookup_run_ok [OF assms(1,2)]
  ultimately show ?thesis
    using assms(4) by (intro doTransition_ok [OF l2_same_ok [OF assms(1) l(1)] l(2)]) (simp_all add: l(3))
qed

lemma unblock_port_ok:
  assumes "l2_ok ok s" and "current_port s = 2" and "unblock_in_port P now s = Inr (res, s')"
  shows "l2_ok ok s'"
proof -
  obtain ready b where b: "mb_isReady now (unblockToL2Cache s) = Inr (ready, b)"
    using assms(3) unfolding unblock_in_port_def bindE_eq_Inr by auto
  let ?s = "s\<lparr>unblockToL2Cache := b\<rparr>"
  have ok1: "l2_ok ok ?s" by (rule l2_same_ok [OF assms(1) l2_same_buffers [OF assms(1)]]) simp_all
  show ?thesis
  proof (cases ready)
    case False
    then show ?thesis using assms(3) b ok1 by (simp add: unblock_in_port_def Let_def)
  next
    case True
    then obtain m :: "response_msg message_scheme" and r where m: "lookup_run now (rs_addr (message.more m)) ?s = Inr r"
      "(if rs_Type (message.more m) = EXCLUSIVE_UNBLOCK then trigger P now Exclusive_Unblock (rs_addr (message.more m)) r
        else if rs_Type (message.more m) = UNBLOCK then trigger P now Unblock (rs_addr (message.more m)) r
        else Inl (Panic ''unknown unblock message'')) = Inr (res, s')"
      using assms(3) b unfolding unblock_in_port_def Let_def
      by (auto simp: bindE_eq_Inr)
    then obtain ev where "trigger P now ev (rs_addr (message.more m)) r = Inr (res, s')" "\<not> request_event ev"
      by (auto simp: request_event_def split: if_splits)
    then show ?thesis using trigger_ok [OF ok1 m(1)] assms(2) by simp
  qed
qed

lemma response_port_ok:
  assumes "l2_ok ok s" and "current_port s = 1" and "response_in_port P now s = Inr (res, s')"
  shows "l2_ok ok s'"
proof -
  obtain ready b where b: "mb_isReady now (responseToL2Cache s) = Inr (ready, b)"
    using assms(3) unfolding response_in_port_def bindE_eq_Inr by auto
  let ?s = "s\<lparr>responseToL2Cache := b\<rparr>"
  have ok1: "l2_ok ok ?s" by (rule l2_same_ok [OF assms(1) l2_same_buffers [OF assms(1)]]) simp_all
  show ?thesis
  proof (cases ready)
    case False
    then show ?thesis using assms(3) b ok1 by (simp add: response_in_port_def Let_def)
  next
    case True
    then obtain m avail c where m: "checkResourceAvailable now DataArray (rs_addr (message.more m)) (L2cache ?s) = Inr (avail, c)"
      "(if \<not> avail then
          bindE (mb_recycle now (cyclesToTicks (recycle_latency (?s\<lparr>L2cache := c\<rparr>)) (?s\<lparr>L2cache := c\<rparr>))
            (responseToL2Cache (?s\<lparr>L2cache := c\<rparr>))) (\<lambda>b1. Inr (None, ?s\<lparr>L2cache := c, responseToL2Cache := b1\<rparr>))
        else
          bindE (dest_is_me (rs_Destination (message.more m)) (?s\<lparr>L2cache := c\<rparr>)) (\<lambda>_.
          bindE (lookup_run now (rs_addr (message.more m)) (?s\<lparr>L2cache := c\<rparr>)) (\<lambda>r.
          bindE (response_event (message.more m) r) (\<lambda>ev. trigger P now ev (rs_addr (message.more m)) r)))) = Inr (res, s')"
      using assms(3) b unfolding response_in_port_def Let_def by (auto simp: bindE_eq_Inr)
    let ?s1 = "?s\<lparr>L2cache := c\<rparr>"
    have ok2: "l2_ok ok ?s1" by (rule same_cache [OF ok1 check_same [OF l2_ok_array [OF ok1] m(1)]])
    show ?thesis
    proof (cases avail)
      case False
      then obtain b1 where "s' = ?s1\<lparr>responseToL2Cache := b1\<rparr>" using m(2) by (auto simp: bindE_eq_Inr)
      then show ?thesis using l2_same_ok [OF ok2 l2_same_buffers [OF ok2]] by simp
    next
      case True
      then obtain r ev where r: "lookup_run now (rs_addr (message.more m)) ?s1 = Inr r" "response_event (message.more m) r = Inr ev"
        "trigger P now ev (rs_addr (message.more m)) r = Inr (res, s')"
        using m(2) by (auto simp: bindE_eq_Inr)
      then show ?thesis using trigger_ok [OF ok2 r(1,3)] response_event_port [OF r(2)] assms(2) by simp
    qed
  qed
qed

lemma request_miss_ok:
  assumes "l2_ok ok s" and "lookup_run now (rq_addr m) s = Inr r" and "current_port s = 0"
    and "request_miss P now m r = Inr (res, s')"
  shows "l2_ok ok s'"
proof -
  note l = lookup_run_ok [OF assms(1,2)]
  have ok1: "l2_ok ok (this r)" by (rule l2_same_ok [OF assms(1) l(1)])
  obtain avail where a: "cacheAvail (rq_addr m) (L2cache (this r)) = Inr avail"
    using assms(4) unfolding request_miss_def Let_def bindE_eq_Inr by blast
  show ?thesis
  proof (cases avail)
    case True
    then obtain ev where ev: "L1Cache_request_type_to_event (rq_Type m) (rq_Requestor m) r = Inr ev"
      "trigger P now ev (rq_addr m) r = Inr (res, s')"
      using assms(4) a unfolding request_miss_def Let_def by (auto simp: bindE_eq_Inr)
    show ?thesis by (rule trigger_ok [OF assms(1,2) ev(2)]) (simp add: request_event_port [OF ev(1)] assms(3))
  next
    case False
    let ?s = "\<lambda>c. (this r)\<lparr>L2cache := c\<rparr>"
    obtain victim c v where v: "cacheProbe P now (rq_addr m) (L2cache (this r)) = Inr (victim, c)"
      "lookup_run now victim (?s c) = Inr v"
      "(if m_tbe_ptr v \<noteq> None then recycle_request now (this v)
        else bindE (replacement_event v) (\<lambda>ev. trigger P now ev victim v)) = Inr (res, s')"
      using assms(4) a False unfolding request_miss_def Let_def by (auto simp: bindE_eq_Inr)
    have ok2: "l2_ok ok (?s c)" by (rule same_cache [OF ok1 probe_same [OF l2_ok_array [OF ok1] v(1)]])
    show ?thesis
    proof (cases "m_tbe_ptr v = None")
      case True
      with v(3) have "bindE (replacement_event v) (\<lambda>ev. trigger P now ev victim v) = Inr (res, s')" by simp
      then obtain ev where ev: "replacement_event v = Inr ev" "trigger P now ev victim v = Inr (res, s')"
        by (auto simp: bindE_eq_Inr)
      show ?thesis by (rule trigger_ok [OF ok2 v(2) ev(2)]) (simp add: replacement_event_port [OF ev(1)] assms(3) l(3))
    next
      case False
      then show ?thesis
        using v(3) recycle_request_ok [OF l2_same_ok [OF ok2 lookup_run_ok(1) [OF ok2 v(2)]]] by simp
    qed
  qed
qed

lemma serve_request_ok:
  assumes "l2_ok ok s" and "lookup_run now (rq_addr m) s = Inr r" and "current_port s = 0"
    and "serve_request P now m r = Inr (res, s')"
  shows "l2_ok ok s'"
proof (cases "m_cache_entry_ptr r = None")
  case True
  then show ?thesis using request_miss_ok [OF assms(1-3)] assms(4) by (simp add: serve_request_def)
next
  case False
  then obtain ev where ev: "trigger P now ev (rq_addr m) r = Inr (res, s')"
    "replacement_event r = Inr ev \<or> L1Cache_request_type_to_event (rq_Type m) (rq_Requestor m) r = Inr ev"
    using assms(4) unfolding serve_request_def Let_def by (auto simp: bindE_eq_Inr split: if_splits)
  have "request_event ev" using ev(2) replacement_event_port request_event_port by blast
  then show ?thesis by (intro trigger_ok [OF assms(1,2) ev(1)]) (simp add: assms(3))
qed

lemma request_port_ok:
  assumes "l2_ok ok s" and "current_port s = 0" and "request_in_port P now s = Inr (res, s')"
  shows "l2_ok ok s'"
proof -
  obtain ready b where b: "mb_isReady now (L1RequestToL2Cache s) = Inr (ready, b)"
    using assms(3) unfolding request_in_port_def bindE_eq_Inr by auto
  let ?s = "s\<lparr>L1RequestToL2Cache := b\<rparr>"
  have ok1: "l2_ok ok ?s"
    by (rule l2_same_ok [OF assms(1) l2_same_buffers [OF assms(1)]]) (simp_all add: isReady_stalls [OF b])
  show ?thesis
  proof (cases ready)
    case False
    then show ?thesis using assms(3) b ok1 by (simp add: request_in_port_def Let_def)
  next
    case True
    then obtain m where m: "mb_peek b = Inr m"
      using assms(3) b unfolding request_in_port_def Let_def by (auto simp: bindE_eq_Inr)
    let ?m = "message.more m"
    obtain avail c where c: "checkResourceAvailable now DataArray (rq_addr ?m) (L2cache ?s) = Inr (avail, c)"
      using assms(3) b True m unfolding request_in_port_def Let_def by (auto simp: bindE_eq_Inr)
    let ?s1 = "?s\<lparr>L2cache := c\<rparr>"
    have ok2: "l2_ok ok ?s1" by (rule same_cache [OF ok1 check_same [OF l2_ok_array [OF ok1] c]])
    show ?thesis
    proof (cases avail)
      case False
      then have "recycle_request now ?s1 = Inr (res, s')"
        using assms(3) b True m c by (simp add: request_in_port_def Let_def)
      then show ?thesis by (rule recycle_request_ok [OF ok2])
    next
      case av: True
      obtain r where "lookup_run now (rq_addr ?m) ?s1 = Inr r" "serve_request P now ?m r = Inr (res, s')"
        using assms(3) b True m c av unfolding request_in_port_def Let_def by (auto simp: bindE_eq_Inr)
      then show ?thesis using serve_request_ok [OF ok2] assms(2) by simp
    qed
  qed
qed

section \<open>The wake-up loop\<close>

lemma enter_port_ok: "l2_ok ok s \<Longrightarrow> l2_ok ok (enter_port n s)" "current_port (enter_port n s) = n"
  by (simp_all add: enter_port_def l2_ok_def line_def records_agree_def stalled_def)

lemma schedule_ok: "l2_ok ok s \<Longrightarrow> l2_ok ok (scheduleEvent n s)"
  by (simp add: scheduleEvent_def l2_ok_def line_def records_agree_def stalled_def)

lemma next_port_ok:
  assumes "l2_ok ok s" and "next_port port (q, s) = Inr (res, s')"
    and "\<And>t. l2_ok ok t \<Longrightarrow> port t = Inr (res, s') \<Longrightarrow> l2_ok ok s'"
  shows "l2_ok ok s'"
  using assms schedule_ok [OF assms(1)]
  by (auto simp: next_port_def split: option.splits TransitionResult.splits)

lemma check_ports_ok:
  assumes "l2_ok ok s" and "check_ports P now s = Inr (res, s')"
  shows "l2_ok ok s'"
proof -
  obtain q2 s2 q1 s1 q0 s0 where l: "unblock_in_port P now (enter_port 2 s) = Inr (q2, s2)"
    "next_port (\<lambda>s. response_in_port P now (enter_port 1 s)) (q2, s2) = Inr (q1, s1)"
    "next_port (\<lambda>s. request_in_port P now (enter_port 0 s)) (q1, s1) = Inr (q0, s0)"
    "next_port (\<lambda>s. Inr (None, s)) (q0, s0) = Inr (res, s')"
    using assms(2) unfolding check_ports_def by (auto simp: bindE_eq_Inr)
  have 2: "l2_ok ok s2" using unblock_port_ok [OF _ _ l(1)] enter_port_ok assms(1) by blast
  have 1: "l2_ok ok s1" by (rule next_port_ok [OF 2 l(2)]) (use response_port_ok enter_port_ok in blast)
  have 0: "l2_ok ok s0" by (rule next_port_ok [OF 1 l(3)]) (use request_port_ok enter_port_ok in blast)
  show ?thesis by (rule next_port_ok [OF 0 l(4)]) auto
qed

lemma wakeup_loop_ok: "wakeup_loop P now n s = Inr s' \<Longrightarrow> l2_ok ok s \<Longrightarrow> l2_ok ok s'"
proof (induction n arbitrary: s)
  case 0
  then show ?case using schedule_ok by auto
next
  case (Suc n)
  then obtain res s1 where s1: "check_ports P now s = Inr (res, s1)"
    "(if res = Some Valid then wakeup_loop P now n s1 else Inr s1) = Inr s'"
    by (auto simp: bindE_eq_Inr)
  then show ?case using check_ports_ok [OF Suc.prems(2) s1(1)] Suc.IH by (cases "res = Some Valid") auto
qed

lemma wakeup_ok: "l2_ok ok s \<Longrightarrow> l2_wakeup P now s = Inr s' \<Longrightarrow> l2_ok ok s'"
  unfolding l2_wakeup_def by (rule wakeup_loop_ok)

end

section \<open>Runs\<close>

lemma slots_stalls: "areNSlotsAvailable n now b = (q, b') \<Longrightarrow> m_stall_msg_map b' = m_stall_msg_map b"
  by (auto simp: areNSlotsAvailable_def split: if_splits)

definition l2_fresh ::
  "('d, 'g) repl_policy \<Rightarrow> 'g \<Rightarrow> cache_params \<Rightarrow> Tick \<Rightarrow> nat \<Rightarrow> ('d, 'g) l2_controller \<Rightarrow> bool" where
  "l2_fresh P g p clk blk s \<longleftrightarrow>
     cm_boot P g p clk blk = Inr (L2cache s) \<and> tt_map (TBEs s) = [] \<and> stall_map s = [] \<and> l2_base s = ac_new 3"

inductive l2_env_step :: "('d, 'g) repl_policy \<Rightarrow> ('d, 'g) l2_controller \<Rightarrow> ('d, 'g) l2_controller \<Rightarrow> bool"
  for P :: "('d, 'g) repl_policy" where
  wakeup: "l2_wakeup P now s = Inr s' \<Longrightarrow> l2_env_step P s s'"
| request: "mb_enqueue m now delta rr rw bp g (L1RequestToL2Cache s) = Inr (b, g') \<Longrightarrow>
    l2_env_step P s (s\<lparr>L1RequestToL2Cache := b\<rparr>)"
| request_room: "areNSlotsAvailable n now (L1RequestToL2Cache s) = (q, b) \<Longrightarrow>
    l2_env_step P s (s\<lparr>L1RequestToL2Cache := b\<rparr>)"
| response: "mb_enqueue m now delta rr rw bp g (responseToL2Cache s) = Inr (b, g') \<Longrightarrow>
    l2_env_step P s (s\<lparr>responseToL2Cache := b\<rparr>)"
| response_room: "areNSlotsAvailable n now (responseToL2Cache s) = (q, b) \<Longrightarrow>
    l2_env_step P s (s\<lparr>responseToL2Cache := b\<rparr>)"
| unblock: "mb_enqueue m now delta rr rw bp g (unblockToL2Cache s) = Inr (b, g') \<Longrightarrow>
    l2_env_step P s (s\<lparr>unblockToL2Cache := b\<rparr>)"
| unblock_room: "areNSlotsAvailable n now (unblockToL2Cache s) = (q, b) \<Longrightarrow>
    l2_env_step P s (s\<lparr>unblockToL2Cache := b\<rparr>)"
| dir_ready: "mb_isReady now (DirRequestFromL2Cache s) = Inr (q, b) \<Longrightarrow>
    l2_env_step P s (s\<lparr>DirRequestFromL2Cache := b\<rparr>)"
| dir_taken: "mb_dequeue cur now True (DirRequestFromL2Cache s) = Inr (d, b) \<Longrightarrow>
    l2_env_step P s (s\<lparr>DirRequestFromL2Cache := b\<rparr>)"
| l1_ready: "mb_isReady now (L1RequestFromL2Cache s) = Inr (q, b) \<Longrightarrow>
    l2_env_step P s (s\<lparr>L1RequestFromL2Cache := b\<rparr>)"
| l1_taken: "mb_dequeue cur now True (L1RequestFromL2Cache s) = Inr (d, b) \<Longrightarrow>
    l2_env_step P s (s\<lparr>L1RequestFromL2Cache := b\<rparr>)"
| answer_ready: "mb_isReady now (responseFromL2Cache s) = Inr (q, b) \<Longrightarrow>
    l2_env_step P s (s\<lparr>responseFromL2Cache := b\<rparr>)"
| answer_taken: "mb_dequeue cur now True (responseFromL2Cache s) = Inr (d, b) \<Longrightarrow>
    l2_env_step P s (s\<lparr>responseFromL2Cache := b\<rparr>)"

inductive l2_reachable ::
  "('d, 'g) repl_policy \<Rightarrow> 'g \<Rightarrow> cache_params \<Rightarrow> Tick \<Rightarrow> nat \<Rightarrow> ('d, 'g) l2_controller \<Rightarrow> bool"
  for P :: "('d, 'g) repl_policy" and g :: 'g and p :: cache_params and clk :: Tick and blk :: nat where
  fresh: "l2_fresh P g p clk blk s \<Longrightarrow> l2_reachable P g p clk blk s"
| step: "l2_reachable P g p clk blk s \<Longrightarrow> l2_env_step P s s' \<Longrightarrow> l2_reachable P g p clk blk s'"

lemma boot_tags:
  assumes "cm_boot P g p clk blk = Inr c"
  shows "m_tag_index c = Map.empty"
  using assms unfolding cm_boot_def cm_new_def cm_init_def cm_regStats_def Let_def bindE_eq_Inr
  by (auto simp: bindE_eq_Inr)

lemma fresh_ok:
  assumes "fresh_policy P ok g (num_sets_of p blk) (p_assoc p)" and "params_ok p clk blk" and "l2_fresh P g p clk blk s"
  shows "l2_ok ok s"
proof -
  have boot: "cm_boot P g p clk blk = Inr (L2cache s)" using assms(3) by (simp add: l2_fresh_def)
  obtain c :: "('a, 'b, l2_entry) cache_memory" where c: "cm_boot P g p clk blk = Inr c" "cm_ok ok c"
    using fresh_policy.boot_ok [OF assms(1,2) refl refl] by blast
  have "cm_ok ok (L2cache s)" using boot c by simp
  moreover note tags = boot_tags [OF boot]
  ultimately have a: "array_ok ok (L2cache s)" by (simp add: array_ok_def live_tags_def)
  have l: "line s b = (None, None)" for b
    using tags assms(3) by (simp add: line_def ents_def blocks_def l2_fresh_def tt_lookup_def)
  then have "good_line (num_controllers s) (line s b)" for b by (simp add: good_line_def line_state_def has_shape_def)
  moreover have n: "\<not> stalled s b" for b using assms(3) by (simp add: stalled_def l2_fresh_def)
  ultimately show ?thesis using a assms(3) by (simp add: l2_ok_def records_agree_def l2_fresh_def ac_new_def)
qed

context replacement_policy
begin

lemma env_step_ok:
  assumes "l2_env_step P s s'" and "l2_ok ok s"
  shows "l2_ok ok s'"
  using assms
proof cases
  case (wakeup now)
  then show ?thesis using wakeup_ok assms(2) by blast
qed (rule l2_same_ok [OF assms(2) l2_same_buffers [OF assms(2)]]; simp add: enqueue_stalls slots_stalls)+

lemma reachable_l2_ok: "l2_reachable P g p clk blk s \<Longrightarrow> (\<And>s. l2_fresh P g p clk blk s \<Longrightarrow> l2_ok ok s) \<Longrightarrow> l2_ok ok s"
  by (induction rule: l2_reachable.induct) (blast intro: env_step_ok)+

end

lemma l2_reachable_ok:
  assumes "fresh_policy P ok g (num_sets_of p blk) (p_assoc p)" and "params_ok p clk blk" and "l2_reachable P g p clk blk s"
  shows "l2_ok ok s"
proof -
  have "replacement_policy P ok" using assms(1) by (simp add: fresh_policy_def)
  from replacement_policy.reachable_l2_ok [OF this assms(3)] show ?thesis using fresh_ok [OF assms(1,2)] by blast
qed

end
