(* ===== verification/L2_Scenario.thy ===== *)
theory L2_Scenario
  imports L2_Reachable
begin

text \<open>
  A concrete L2 controller over the cache of \<open>Cache_Scenario\<close>, with two L1 caches and one directory:
  one L1 cache asks for a line the L2 cache does not have, the other one asks for it exclusively
  while memory is being read and is stalled, the data arrives and is passed on, and the first L1
  cache confirms.
\<close>

definition demo_counts :: "machine_type \<Rightarrow> nat" where
  "demo_counts t = (if t = L1Cache then 2 else if t = L2Cache then 1 else if t = Directory then 1 else 0)"

definition demo_queue :: "'m message_buffer" where
  "demo_queue =
     (mb_new \<lparr>buffer_size = 0, max_dequeue_rate = 0, ordered = False, bp_randomization = RandomDisabled,
        allow_zero_latency = False, routing_priority = 0\<rparr>)\<lparr>m_consumer := True\<rparr>"

definition demo_l2_start :: "(lru_data, unit) l2_controller res" where
  "demo_l2_start =
     bindE (cm_boot lru_policy () demo_params 500 64) (\<lambda>c.
     Inr \<lparr>machineID = \<lparr>mid_type = L2Cache, mid_num = 0\<rparr>, num_controllers = demo_counts, ruby_block_size = 64,
          ruby_randomization = False, ruby_warmup = False, clockPeriod = 500, dir_node = (\<lambda>_. 0),
          transitions_per_cycle = 4, l2_request_latency = 2, l2_response_latency = 2, to_l1_latency = 1,
          recycle_latency = 10, L2cache = c, TBEs = tt_setRubySystem 64 (tt_new 16),
          DirRequestFromL2Cache = demo_queue, L1RequestFromL2Cache = demo_queue, responseFromL2Cache = demo_queue,
          unblockToL2Cache = demo_queue, L1RequestToL2Cache = demo_queue, responseToL2Cache = demo_queue,
          l2_base = ac_new 3, l2_rng = \<lparr>gen = (\<lambda>_. 0), pos = 0\<rparr>, delay_samples = [], l2_wakeups = []\<rparr>)"

text \<open>What the outside does, and when the controller wakes up.\<close>

datatype demo_input =
    Wake Tick
  | Ask Tick CoherenceRequestType nat
  | Answer Tick CoherenceResponseType machine_id
  | Confirm Tick CoherenceResponseType machine_id

definition l2_node :: "net_dest \<Rightarrow> net_dest res" where
  "l2_node nd = nd_add \<lparr>mid_type = L2Cache, mid_num = 0\<rparr> nd"

fun demo_step :: "demo_input \<Rightarrow> (lru_data, unit) l2_controller \<Rightarrow> (lru_data, unit) l2_controller res" where
  "demo_step (Wake now) s = l2_wakeup lru_policy now s"
| "demo_step (Ask now ty n) s =
     bindE (request_new demo_counts 64 0 ty Control) (\<lambda>m.
     bindE (l2_node (rq_Destination m)) (\<lambda>d.
     bindE (mb_enqueue (message_new now (m\<lparr>rq_Requestor := \<lparr>mid_type = L1Cache, mid_num = n\<rparr>, rq_Destination := d\<rparr>))
              now 500 False False False (l2_rng s) (L1RequestToL2Cache s)) (\<lambda>(b, g).
     Inr (s\<lparr>L1RequestToL2Cache := b\<rparr>))))"
| "demo_step (Answer now ty x) s =
     bindE (response_new demo_counts 64 0 ty Response_Data) (\<lambda>m.
     bindE (l2_node (rs_Destination m)) (\<lambda>d.
     bindE (mb_enqueue (message_new now (m\<lparr>rs_Sender := x, rs_Destination := d\<rparr>))
              now 500 False False False (l2_rng s) (responseToL2Cache s)) (\<lambda>(b, g).
     Inr (s\<lparr>responseToL2Cache := b\<rparr>))))"
| "demo_step (Confirm now ty x) s =
     bindE (response_new demo_counts 64 0 ty Response_Control) (\<lambda>m.
     bindE (l2_node (rs_Destination m)) (\<lambda>d.
     bindE (mb_enqueue (message_new now (m\<lparr>rs_Sender := x, rs_Destination := d\<rparr>))
              now 500 False False False (l2_rng s) (unblockToL2Cache s)) (\<lambda>(b, g).
     Inr (s\<lparr>unblockToL2Cache := b\<rparr>))))"

fun demo_steps :: "demo_input list \<Rightarrow> (lru_data, unit) l2_controller \<Rightarrow> (lru_data, unit) l2_controller res" where
  "demo_steps [] s = Inr s"
| "demo_steps (i # is) s = bindE (demo_step i s) (demo_steps is)"

definition demo_l2 :: "demo_input list \<Rightarrow> (lru_data, unit) l2_controller res" where
  "demo_l2 is = bindE demo_l2_start (demo_steps is)"

lemma demo_step_env: "demo_step i s = Inr s' \<Longrightarrow> l2_env_step lru_policy s s'"
  by (cases i) (auto simp: bindE_eq_Inr intro: l2_env_step.intros)

lemma demo_steps_reachable:
  "demo_steps is s = Inr s' \<Longrightarrow> l2_reachable lru_policy () demo_params 500 64 s \<Longrightarrow>
   l2_reachable lru_policy () demo_params 500 64 s'"
proof (induction "is" arbitrary: s)
  case (Cons i "is")
  then obtain s1 where s1: "demo_step i s = Inr s1" "demo_steps is s1 = Inr s'" by (auto simp: bindE_eq_Inr)
  show ?case by (rule Cons.IH [OF s1(2) l2_reachable.step [OF Cons.prems(2) demo_step_env [OF s1(1)]]])
qed simp

lemma demo_l2_reachable:
  assumes "demo_l2 is = Inr s"
  shows "l2_reachable lru_policy () demo_params 500 64 s"
proof -
  obtain s0 where s0: "demo_l2_start = Inr s0" "demo_steps is s0 = Inr s"
    using assms by (auto simp: demo_l2_def bindE_eq_Inr)
  then have "l2_fresh lru_policy () demo_params 500 64 s0"
    by (auto simp: demo_l2_start_def bindE_eq_Inr l2_fresh_def tt_setRubySystem_def tt_new_def demo_queue_def mb_new_def)
  then show ?thesis by (rule demo_steps_reachable [OF s0(2) l2_reachable.fresh])
qed

section \<open>Three runs\<close>

lemma demo_l2_eval:
  assumes "bindE (demo_l2 is) (\<lambda>s. Inr (Q s)) = Inr True"
  obtains s where "l2_reachable lru_policy () demo_params 500 64 s" and "demo_l2 is = Inr s" and "Q s"
  using assms demo_l2_reachable by (auto simp: bindE_eq_Inr)

text \<open>The second request is stalled while the first one waits for memory.\<close>

definition demo_stalls :: "demo_input list" where
  "demo_stalls = [Ask 0 GETS 0, Wake 500, Ask 500 GETX 1, Wake 1000]"

lemma demo_stalls_run:
  "bindE (demo_l2 demo_stalls) (\<lambda>s.
     Inr (fst (line s 0) \<noteq> None \<and> snd (line s 0) \<noteq> None \<and> line_state (line s 0) = ISS \<and> stalled s 0)) = Inr True"
  by code_simp

text \<open>Memory answers and the first L1 cache confirms: it is the owner of the line.\<close>

definition demo_owner :: "demo_input list" where
  "demo_owner =
     demo_stalls @
     [Answer 1000 MEMORY_DATA \<lparr>mid_type = Directory, mid_num = 0\<rparr>, Wake 1500,
      Confirm 1500 EXCLUSIVE_UNBLOCK \<lparr>mid_type = L1Cache, mid_num = 0\<rparr>, Wake 2000]"

lemma demo_owner_run:
  "bindE (demo_l2 demo_owner) (\<lambda>s.
     Inr (case fst (line s 0) of
            None \<Rightarrow> False
          | Some (_, x) \<Rightarrow> CacheState x = MT \<and> Exclusive x = \<lparr>mid_type = L1Cache, mid_num = 0\<rparr> \<and>
                          snd (line s 0) = None \<and> \<not> stalled s 0)) = Inr True"
  by code_simp

text \<open>A line that was fetched for instructions is asked for long after its retention time.\<close>

definition demo_expired :: "demo_input list" where
  "demo_expired =
     [Ask 0 GET_INSTR 0, Wake 500, Answer 500 MEMORY_DATA \<lparr>mid_type = Directory, mid_num = 0\<rparr>, Wake 1000,
      Ask 5000000 GETS 1]"

lemma demo_expired_run:
  "bindE (demo_l2 demo_expired) (\<lambda>s.
     bindE (request_in_port lru_policy 5000500 s) (\<lambda>(res, s').
     Inr (res = Some Valid \<and> map_option m_is_expired (blocks (L2cache s') 0) = Some True \<and>
          line_state (line s' 0) = SS))) = Inr True"
  by code_simp

end
