(* ===== verification/L2_Guarantees.thy ===== *)
theory L2_Guarantees
  imports L2_Scenario
begin

text \<open>
  What the L2 controller guarantees in every state of a run, whatever the network delivers and
  whichever replacement policy the cache has.
\<close>

section \<open>The state of a line\<close>

lemma entry_states: "fst (shape_of st) = None \<longleftrightarrow> st \<in> {NP, M_I, MT_I, MCT_I, I_I, S_I}"
  by (cases st) simp_all

lemma tbe_states: "snd (shape_of st) = None \<longleftrightarrow> st \<in> {NP, SS, M, MT, SS_MB, MT_MB, MT_IIB, MT_IB, MT_SB}"
  by (cases st) simp_all

lemma good_line_parts:
  assumes "good_line counts (e, t)" and "st = line_state (e, t)"
  shows "e = None \<longleftrightarrow> fst (shape_of st) = None" and "t = None \<longleftrightarrow> snd (shape_of st) = None"
    and "e = Some (p, x) \<Longrightarrow> CacheState x = st \<and> p = l2_state_to_permission st"
    and "e = Some (p, x) \<Longrightarrow> \<exists>c. fst (shape_of st) = Some c \<and> entry_fits counts c x"
    and "t = Some y \<Longrightarrow> \<exists>c. snd (shape_of st) = Some c \<and> tbe_fits counts c y"
proof -
  have e: "rel_option (\<lambda>c px. entry_fits counts c (snd px)) (fst (shape_of st)) e"
    and t: "rel_option (tbe_fits counts) (snd (shape_of st)) t"
    and c: "\<forall>p x. e = Some (p, x) \<longrightarrow> CacheState x = st \<and> p = l2_state_to_permission st"
    using assms(1) unfolding good_line_def has_shape_def assms(2) [symmetric] by simp_all
  show "e = None \<longleftrightarrow> fst (shape_of st) = None" using e by (cases "fst (shape_of st)"; cases e) simp_all
  show "t = None \<longleftrightarrow> snd (shape_of st) = None" using t by (cases "snd (shape_of st)"; cases t) simp_all
  show "CacheState x = st \<and> p = l2_state_to_permission st" if "e = Some (p, x)" using c that by simp
  show "\<exists>c. fst (shape_of st) = Some c \<and> entry_fits counts c x" if "e = Some (p, x)"
    using e that by (auto simp: option_rel_Some2)
  show "\<exists>c. snd (shape_of st) = Some c \<and> tbe_fits counts c y" if "t = Some y"
    using t that by (auto simp: option_rel_Some2)
qed

lemma reachable_line:
  assumes "fresh_policy P ok g (num_sets_of p blk) (p_assoc p)" and "params_ok p clk blk"
    and "l2_reachable P g p clk blk s" and "line s b = (e, t)"
  shows "good_line (num_controllers s) (e, t)"
  using l2_reachable_ok [OF assms(1-3)] assms(4) unfolding l2_ok_def by metis

text \<open>
  C4. In every reachable state of the controller, each line has a cache entry and a transaction
  buffer entry exactly as its protocol state says: no entry in NP and in the states of a block that
  is being evicted, a transaction in the states that wait for memory or for acknowledgements.  A
  cache entry records the state that \<^verbatim>\<open>getState\<close> reads and the permission of that state, and its sharers
  are a set of machines of the system.
\<close>

theorem l2_lines_typed:
  assumes "fresh_policy P ok g (num_sets_of p blk) (p_assoc p)" and "params_ok p clk blk"
    and "l2_reachable P g p clk blk s" and "line s b = (e, t)" and "st = line_state (e, t)"
  shows "(e = None \<longleftrightarrow> st \<in> {NP, M_I, MT_I, MCT_I, I_I, S_I}) \<and>
    (t = None \<longleftrightarrow> st \<in> {NP, SS, M, MT, SS_MB, MT_MB, MT_IIB, MT_IB, MT_SB}) \<and>
    (\<forall>perm x. e = Some (perm, x) \<longrightarrow>
       CacheState x = st \<and> perm = l2_state_to_permission st \<and> nd_wf (num_controllers s) (Sharers x)) \<and>
    (\<forall>y. t = Some y \<longrightarrow> TBEState y = st \<and> nd_wf (num_controllers s) (L1_GetS_IDs y))"
proof -
  note g = good_line_parts [OF reachable_line [OF assms(1-4)] assms(5)]
  have "CacheState x = st \<and> perm = l2_state_to_permission st \<and> nd_wf (num_controllers s) (Sharers x)"
    if "e = Some (perm, x)" for perm x using g(3,4) [OF that] by (auto simp: entry_fits_def)
  moreover have "TBEState y = st \<and> nd_wf (num_controllers s) (L1_GetS_IDs y)" if "t = Some y" for y
    using g(5) [OF that] that assms(5) by (auto simp: tbe_fits_def line_state_def)
  ultimately show ?thesis using g(1,2) unfolding entry_states tbe_states by blast
qed

theorem l2_lines_typed_witness:
  "\<exists>s perm x y. demo_l2 demo_stalls = Inr s \<and> line s 0 = (Some (perm, x), Some y) \<and>
     perm = Busy \<and> CacheState x = ISS \<and> TBEState y = ISS"
proof -
  obtain s where s: "l2_reachable lru_policy () demo_params 500 64 s" "demo_l2 demo_stalls = Inr s"
    "fst (line s 0) \<noteq> None \<and> snd (line s 0) \<noteq> None \<and> line_state (line s 0) = ISS \<and> stalled s 0"
    using demo_stalls_run by (rule demo_l2_eval)
  then obtain perm x y where l: "line s 0 = (Some (perm, x), Some y)" by (cases "line s 0") auto
  then show ?thesis using l2_lines_typed [OF demo_hyps s(1) l refl] s by auto
qed

section \<open>The directory fields of a line\<close>

text \<open>
  C6. In every reachable state, the sharers of a line agree with its state: none in M, exactly the
  recorded owner in MT, and at least one in SS and in the states that come out of it.  While a line
  is read from memory, the transaction holds exactly one requestor in ISS and at least one in IS,
  so that the assertions of the two actions that answer these requestors cannot fail.
\<close>

theorem l2_directory:
  assumes "fresh_policy P ok g (num_sets_of p blk) (p_assoc p)" and "params_ok p clk blk"
    and "l2_reachable P g p clk blk s" and "line s b = (Some (perm, x), t)"
  shows "(CacheState x = M \<longrightarrow> nodes (Sharers x) = {}) \<and>
    (CacheState x = MT \<longrightarrow> nodes (Sharers x) = {Exclusive x}) \<and>
    (CacheState x \<in> {SS, SS_MB, IS, ISS, MT_IIB, MT_IB, MT_SB} \<longrightarrow> nodes (Sharers x) \<noteq> {}) \<and>
    (\<forall>y. t = Some y \<and> CacheState x = ISS \<longrightarrow> nd_count (L1_GetS_IDs y) = Inr 1) \<and>
    (\<forall>y. t = Some y \<and> CacheState x = IS \<longrightarrow> (\<exists>n. nd_count (L1_GetS_IDs y) = Inr n \<and> 0 < n))"
proof -
  note g = good_line_parts [OF reachable_line [OF assms] refl]
  obtain c where c: "fst (shape_of (CacheState x)) = Some c" "in_crowd (Some (Exclusive x)) c (nodes (Sharers x))"
    using g(3,4) [OF refl] by (auto simp: entry_fits_def)
  have t: "nd_count (L1_GetS_IDs y) = Inr (card (nodes (L1_GetS_IDs y))) \<and> finite (nodes (L1_GetS_IDs y)) \<and>
      (\<exists>d. snd (shape_of (CacheState x)) = Some d \<and> in_crowd None d (nodes (L1_GetS_IDs y)))" if "t = Some y" for y
    using g(3) [OF refl] g(5) [OF that] nd_count_wf nodes_finite by (auto simp: tbe_fits_def)
  show ?thesis
  proof (intro conjI impI allI)
    show "nd_count (L1_GetS_IDs y) = Inr 1" if "t = Some y \<and> CacheState x = ISS" for y
      using t [of y] that by auto
    show "\<exists>n. nd_count (L1_GetS_IDs y) = Inr n \<and> 0 < n" if "t = Some y \<and> CacheState x = IS" for y
      using t [of y] that by (auto simp: card_gt_0_iff)
  qed (use c in auto)
qed

theorem l2_directory_witness:
  "\<exists>s perm x. demo_l2 demo_owner = Inr s \<and> line s 0 = (Some (perm, x), None) \<and>
     nodes (Sharers x) = {\<lparr>mid_type = L1Cache, mid_num = 0\<rparr>}"
proof -
  obtain s where s: "l2_reachable lru_policy () demo_params 500 64 s" "demo_l2 demo_owner = Inr s"
    "case fst (line s 0) of
       None \<Rightarrow> False
     | Some (_, x) \<Rightarrow> CacheState x = MT \<and> Exclusive x = \<lparr>mid_type = L1Cache, mid_num = 0\<rparr> \<and>
                     snd (line s 0) = None \<and> \<not> stalled s 0"
    using demo_owner_run by (rule demo_l2_eval)
  then obtain perm x where l: "line s 0 = (Some (perm, x), None)" "CacheState x = MT"
    "Exclusive x = \<lparr>mid_type = L1Cache, mid_num = 0\<rparr>"
    by (cases "line s 0") (auto split: option.splits)
  then show ?thesis using l2_directory [OF demo_hyps s(1) l(1)] s(2) by auto
qed

section \<open>Stalled requests\<close>

text \<open>
  C5. No stalled request is forgotten.  In every reachable state, a request is stalled at a line only
  while the line is in a transient state, one that a later response or unblock leaves with a wake-up;
  and the record that this wake-up consults names the request buffer, in the slot that it visits.
  The record has no other rows, so that a wake-up never finds a row without messages.
\<close>

theorem l2_no_lost_wakeup:
  assumes "fresh_policy P ok g (num_sets_of p blk) (p_assoc p)" and "params_ok p clk blk"
    and "l2_reachable P g p clk blk s"
  shows "(stalled s b \<longrightarrow> line_state (line s b) \<notin> {NP, SS, M, MT}) \<and>
    map_of (m_waiting_buffers (l2_base s)) b =
      (if stalled s b then Some [Some L1RequestL2Network_in, None, None] else None)"
  using l2_reachable_ok [OF assms] by (simp add: l2_ok_def records_agree_def stable_def)

theorem l2_no_lost_wakeup_witness:
  "\<exists>s. demo_l2 demo_stalls = Inr s \<and> stalled s 0 \<and> line_state (line s 0) = ISS \<and>
     map_of (m_waiting_buffers (l2_base s)) 0 = Some [Some L1RequestL2Network_in, None, None]"
proof -
  obtain s where s: "l2_reachable lru_policy () demo_params 500 64 s" "demo_l2 demo_stalls = Inr s"
    "fst (line s 0) \<noteq> None \<and> snd (line s 0) \<noteq> None \<and> line_state (line s 0) = ISS \<and> stalled s 0"
    using demo_stalls_run by (rule demo_l2_eval)
  then show ?thesis using l2_no_lost_wakeup [OF demo_hyps s(1), of 0] by simp
qed

section \<open>Retention in the controller\<close>

text \<open>The request port without the case for expired entries.\<close>

definition serve_unexpired ::
  "('d, 'g) repl_policy \<Rightarrow> Tick \<Rightarrow> request_msg \<Rightarrow> ('d, 'g) l2_run \<Rightarrow>
     (TransitionResult option \<times> ('d, 'g) l2_controller) res" where
  "serve_unexpired P now in_msg r =
     (if m_cache_entry_ptr r = None then request_miss P now in_msg r
      else bindE (L1Cache_request_type_to_event (rq_Type in_msg) (rq_Requestor in_msg) r) (\<lambda>ev.
           trigger P now ev (rq_addr in_msg) r))"

definition request_in_port_unexpired :: "('d, 'g) repl_policy \<Rightarrow> Tick \<Rightarrow> ('d, 'g) l2_port_step" where
  "request_in_port_unexpired P now s0 =
     bindE (mb_isReady now (L1RequestToL2Cache s0)) (\<lambda>(ready, b).
     let s = s0\<lparr>L1RequestToL2Cache := b\<rparr> in
     if \<not> ready then Inr (None, s)
     else bindE (mb_peek (L1RequestToL2Cache s)) (\<lambda>m.
       let in_msg = message.more m in
       bindE (checkResourceAvailable now DataArray (rq_addr in_msg) (L2cache s)) (\<lambda>(avail, c).
       let s1 = s\<lparr>L2cache := c\<rparr> in
       if \<not> avail then recycle_request now s1
       else
         bindE (lookup_run now (rq_addr in_msg) s1) (\<lambda>r.
         bindE (assertE (mid_type (rq_Requestor in_msg) = L1Cache)
                  ''machineIDToMachineType(in_msg.Requestor) == MachineType:L1Cache'') (\<lambda>_.
         bindE (dest_is_me (rq_Destination in_msg) s1) (\<lambda>_. serve_unexpired P now in_msg r))))))"

lemma serve_eq:
  assumes "l2_ok ok s" and "lookup_run now a s = Inr r"
  shows "serve_request P now m r = serve_unexpired P now m r"
proof (cases "m_cache_entry_ptr r")
  case None
  then show ?thesis by (simp add: serve_request_def serve_unexpired_def)
next
  case (Some loc)
  note l = lookup_run_ok [OF assms]
  obtain y where y: "entry_at (L2cache (this r)) loc = Inr y"
    "fst (line (this r) a) = Some (m_Permission y, cache_entry.more y)"
    by (rule entry_ptr [OF l(2) Some]) (rule that)
  have "good_line (num_controllers (this r)) (line (this r) a)"
    using l2_same_ok [OF assms(1) l(1)] by (simp add: l2_ok_def)
  then have "\<not> ent_is_expired (cache_entry.more y)"
    using y(2) by (auto simp: good_line_def has_shape_def option_rel_Some2 entry_fits_def)
  then show ?thesis
    using Some y(1) by (simp add: serve_request_def serve_unexpired_def the_entry_def derefE_def)
qed

lemma request_port_eq:
  assumes "l2_ok ok s"
  shows "request_in_port P now s = request_in_port_unexpired P now s"
proof -
  have 1: "serve_request P now m r = serve_unexpired P now m r"
    if b: "mb_isReady now (L1RequestToL2Cache s) = Inr (ready, b)"
      and c: "checkResourceAvailable now DataArray a' (L2cache s) = Inr (avail, c)"
      and r: "lookup_run now a (s\<lparr>L1RequestToL2Cache := b, L2cache := c\<rparr>) = Inr r" for ready b avail a a' c r m
  proof -
    have ok1: "l2_ok ok (s\<lparr>L1RequestToL2Cache := b\<rparr>)"
      by (rule l2_same_ok [OF assms l2_same_buffers [OF assms]]) (simp_all add: isReady_stalls [OF b])
    have ok2: "l2_ok ok (s\<lparr>L1RequestToL2Cache := b, L2cache := c\<rparr>)"
      using same_cache [OF ok1, of c] check_same [OF l2_ok_array [OF ok1], of now DataArray a' avail c] c by simp
    show ?thesis by (rule serve_eq [OF ok2 r])
  qed
  show ?thesis
    unfolding request_in_port_def request_in_port_unexpired_def Let_def
    by (intro bindE_cong refl) (auto intro!: bindE_cong simp: 1)
qed

text \<open>
  C7. The expiry of blocks never reaches the protocol: in every reachable state the request port
  behaves as the port without the case for expired entries, even for a block that the cache itself
  has marked as expired, because the flag that the protocol tests is a member of its own that
  nothing sets.
\<close>

theorem l2_expiry_case_dead:
  assumes "fresh_policy P ok g (num_sets_of p blk) (p_assoc p)" and "params_ok p clk blk"
    and "l2_reachable P g p clk blk s"
  shows "request_in_port P now s = request_in_port_unexpired P now s"
  by (rule request_port_eq [OF l2_reachable_ok [OF assms]])

theorem l2_expiry_case_dead_witness:
  "\<exists>s s'. demo_l2 demo_expired = Inr s \<and> request_in_port_unexpired lru_policy 5000500 s = Inr (Some Valid, s') \<and>
     map_option m_is_expired (blocks (L2cache s') 0) = Some True \<and> line_state (line s' 0) = SS"
proof -
  obtain s s' where s: "demo_l2 demo_expired = Inr s" "request_in_port lru_policy 5000500 s = Inr (Some Valid, s')"
    "map_option m_is_expired (blocks (L2cache s') 0) = Some True" "line_state (line s' 0) = SS"
    using demo_expired_run by (auto simp: bindE_eq_Inr)
  then show ?thesis using l2_expiry_case_dead [OF demo_hyps demo_l2_reachable [OF s(1)], of 5000500] by auto
qed

end
