(* ===== verification/L2_Acks.thy ===== *)
theory L2_Acks
  imports L2_Guarantees Message_Queue
begin

text \<open>
  The acknowledgements of a write to a shared line.  The requestor collects them itself: the L2
  controller tells it how many to expect, in the answer, and tells the sharers whom to send them to,
  in the invalidations.  \<open>outs\<close> are the messages waiting in the two queues to the L1 caches; each action
  of the transition either leaves them alone or adds one message.
\<close>

section \<open>The messages on their way to the L1 caches\<close>

lemma sift_up_mset: "i < length xs \<Longrightarrow> mset (sift_up key i xs) = mset xs"
proof (induction key i xs rule: sift_up.induct)
  case (1 key i xs)
  show ?case
  proof (cases "0 < i \<and> key (xs ! i) < key (xs ! parent i)")
    case True
    have p: "parent i < length xs" using parent_less [of i] True 1(2) by simp
    then show ?thesis
      using 1(1) [OF True] True swap_mset [OF 1(2) p] by (simp add: sift_up.simps [of key i xs])
  qed (use 1(2) in \<open>auto simp: sift_up.simps [of key i xs]\<close>)
qed

lemma push_heap_mset: "mset (push_heap key x h) = add_mset x (mset h)"
  by (simp add: push_heap_def sift_up_mset)

abbreviation payloads :: "'p message_buffer \<Rightarrow> 'p multiset" where
  "payloads b \<equiv> image_mset message.more (mset (m_prio_heap b))"

lemma enqueue_payload:
  assumes "mb_enqueue (message_new now m) t delta rr rw bp g b = Inr (b', g')"
  shows "payloads b' = add_mset m (payloads b)"
proof -
  obtain arr where "m_prio_heap b' = push_heap msg_key (stamped t arr (mb_msg_counter b + 1) (message_new now m)) (m_prio_heap b)"
    by (rule mb_enqueue_Inr [OF assms]) simp
  then show ?thesis by (simp add: push_heap_mset stamped_def message_new_def)
qed

definition outs :: "('d, 'g) l2_controller \<Rightarrow> request_msg multiset \<times> response_msg multiset" where
  "outs s = (payloads (L1RequestFromL2Cache s), payloads (responseFromL2Cache s))"

text \<open>What an action keeps when it neither sends to an L1 cache nor takes the request.\<close>

definition sends_none :: "('d, 'g) l2_run \<Rightarrow> ('d, 'g) l2_run \<Rightarrow> bool" where
  "sends_none r r' \<longleftrightarrow> outs (this r') = outs (this r) \<and> L1RequestToL2Cache (this r') = L1RequestToL2Cache (this r)"

lemma on_cache_sends_none: "on_cache f r = Inr r' \<Longrightarrow> sends_none r r'"
  by (auto simp: on_cache_def bindE_eq_Inr sends_none_def outs_def)

lemma record_sends_none: "record_type now t a r = Inr r' \<Longrightarrow> sends_none r r'"
  unfolding record_type_def by (rule on_cache_sends_none)

lemma upd_sends_none:
  "upd_entry f r = Inr r' \<Longrightarrow> sends_none r r'"
  "upd_tbe h r = Inr r' \<Longrightarrow> sends_none r r'"
  by (auto simp: upd_entry_def upd_tbe_def bindE_eq_Inr sends_none_def outs_def dest!: on_cache_sends_none)

lemma peek_same: "sends_none r r' \<Longrightarrow> peek_request r' = peek_request r"
  by (simp add: sends_none_def peek_request_def)

lemma sends_none_trans: "sends_none r r' \<Longrightarrow> sends_none r' r'' \<Longrightarrow> sends_none r r''"
  by (simp add: sends_none_def)

lemma enqueue_l1_sends:
  assumes "enqueue_l1 now a ty sz fill r = Inr r'"
  obtains m0 m where "request_new (num_controllers (this r)) (ruby_block_size (this r)) a ty sz = Inr m0"
    "fill m0 = Inr m" "outs (this r') = (add_mset m (fst (outs (this r))), snd (outs (this r)))"
    "L1RequestToL2Cache (this r') = L1RequestToL2Cache (this r)"
proof -
  obtain m0 m b g where m: "request_new (num_controllers (this r)) (ruby_block_size (this r)) a ty sz = Inr m0"
    "fill m0 = Inr m"
    "mb_enqueue (message_new now m) now (cyclesToTicks (to_l1_latency (this r)) (this r))
               (ruby_randomization (this r)) (ruby_warmup (this r)) False (l2_rng (this r)) (L1RequestFromL2Cache (this r)) = Inr (b, g)"
    "r' = r\<lparr>this := (this r)\<lparr>L1RequestFromL2Cache := b, l2_rng := g\<rparr>\<rparr>"
    using assms unfolding enqueue_l1_def Let_def by (auto simp: bindE_eq_Inr)
  show thesis by (rule that [OF m(1,2)]) (use enqueue_payload [OF m(3)] in \<open>simp_all add: outs_def m(4)\<close>)
qed

lemma enqueue_response_sends:
  assumes "enqueue_response now a lat ty sz fill r = Inr r'"
  obtains m0 m where "response_new (num_controllers (this r)) (ruby_block_size (this r)) a ty sz = Inr m0"
    "fill m0 = Inr m" "outs (this r') = (fst (outs (this r)), add_mset m (snd (outs (this r))))"
    "L1RequestToL2Cache (this r') = L1RequestToL2Cache (this r)"
proof -
  obtain m0 m b g where m: "response_new (num_controllers (this r)) (ruby_block_size (this r)) a ty sz = Inr m0"
    "fill m0 = Inr m"
    "mb_enqueue (message_new now m) now (cyclesToTicks lat (this r))
               (ruby_randomization (this r)) (ruby_warmup (this r)) False (l2_rng (this r)) (responseFromL2Cache (this r)) = Inr (b, g)"
    "r' = r\<lparr>this := (this r)\<lparr>responseFromL2Cache := b, l2_rng := g\<rparr>\<rparr>"
    using assms unfolding enqueue_response_def Let_def by (auto simp: bindE_eq_Inr)
  show thesis by (rule that [OF m(1,2)]) (use enqueue_payload [OF m(3)] in \<open>simp_all add: outs_def m(4)\<close>)
qed

section \<open>Serving a request at a line\<close>

definition serving :: "('g \<Rightarrow> 'd list list \<Rightarrow> bool) \<Rightarrow> Addr \<Rightarrow> l2_entry \<Rightarrow> request_msg \<Rightarrow> ('d, 'g) l2_run \<Rightarrow> bool" where
  "serving ok a x q r \<longleftrightarrow>
     run_ok ok a r \<and> (\<exists>p. fst (line (this r) a) = Some (p, x)) \<and>
     nd_wf (num_controllers (this r)) (Sharers x) \<and> peek_request r = Inr q"

lemma serving_ok: "serving ok a x q r \<Longrightarrow> run_ok ok a r"
  by (simp add: serving_def)

lemma serving_quiet:
  assumes "serving ok a x q r" and "quiet ok a r r'" and "L1RequestToL2Cache (this r') = L1RequestToL2Cache (this r)"
  shows "serving ok a x q r'"
  using assms by (simp add: serving_def quiet_def peek_request_def)

lemma serving_record:
  assumes "serving ok a x q r" and "record_type now t b r = Inr r'"
  shows "serving ok a x q r'" "outs (this r') = outs (this r)" "num_controllers (this r') = num_controllers (this r)"
proof -
  have s: "sends_none r r'" by (rule record_sends_none [OF assms(2)])
  have q: "quiet ok a r r'" by (rule record_quiet [OF serving_ok [OF assms(1)] assms(2)])
  show "serving ok a x q r'" using serving_quiet [OF assms(1) q] s by (simp add: sends_none_def)
  show "outs (this r') = outs (this r)" "num_controllers (this r') = num_controllers (this r)"
    using s q by (simp_all add: sends_none_def quiet_def)
qed

lemma serving_entry:
  assumes "serving ok a x q r" and "the_entry r = Inr e"
  shows "e = x"
  using assms by (auto simp: serving_def elim: the_entry_line)

text \<open>What an answer tells the requestor, and what an invalidation tells the sharers.\<close>

definition answers :: "Addr \<Rightarrow> CoherenceResponseType \<Rightarrow> machine_id \<Rightarrow> nat \<Rightarrow> response_msg \<Rightarrow> bool" where
  "answers a ty who n m \<longleftrightarrow>
     rs_addr m = a \<and> rs_Type m = ty \<and> nodes (rs_Destination m) = {who} \<and> rs_AckCount m = - int n"

definition invalidates :: "Addr \<Rightarrow> machine_id \<Rightarrow> machine_id set \<Rightarrow> request_msg \<Rightarrow> bool" where
  "invalidates a who N m \<longleftrightarrow>
     rq_addr m = a \<and> rq_Type m = Req_INV \<and> rq_Requestor m = who \<and> nodes (rq_Destination m) = N"

lemma to_response_fits:
  assumes "response_new counts blk a ty sz = Inr m0" and "to_response who (m0\<lparr>rs_Sender := x\<rparr>) = Inr m1"
  shows "who \<in> machines counts" "nodes (rs_Destination m1) = {who}" "rs_addr m1 = a" "rs_Type m1 = ty" "rs_AckCount m1 = 0"
proof -
  obtain d blk' where d: "nd_setRubySystem counts nd_default = Inr d"
    "m0 = \<lparr>rs_addr = a, rs_Type = ty, rs_Sender = machine_id_default, rs_Destination = d,
          rs_DataBlk = blk', rs_Dirty = False, rs_AckCount = 0, rs_MessageSize = sz\<rparr>"
    using assms(1) by (auto simp: response_new_def bindE_eq_Inr)
  obtain d1 where d1: "nd_add who d = Inr d1" "m1 = m0\<lparr>rs_Sender := x, rs_Destination := d1\<rparr>"
    using assms(2) d(2) by (auto simp: to_response_def bindE_eq_Inr)
  note w = nd_setRubySystem_fits [OF d(1)]
  show "who \<in> machines counts" using nd_add_outside [OF w(1), of who] d1(1) by auto
  show "nodes (rs_Destination m1) = {who}" "rs_addr m1 = a" "rs_Type m1 = ty" "rs_AckCount m1 = 0"
    using nd_add_fits [OF w(1) d1(1)] w(2) d1(2) d(2) by simp_all
qed

lemma with_data_fits:
  "with_data blk m = Inr m' \<Longrightarrow> rs_Destination m' = rs_Destination m \<and> rs_addr m' = rs_addr m \<and> rs_Type m' = rs_Type m"
  by (auto simp: with_data_def bindE_eq_Inr)

lemma ack_count_fits:
  assumes "nd_wf counts (Sharers x)" and "who \<in> machines counts" and "ack_count who x = Inr n"
  shows "n = - int (card (nodes (Sharers x) - {who}))"
proof -
  have n: "n = 0 - int (card (nodes (Sharers x))) + (if who \<in> nodes (Sharers x) then 1 else 0)"
    using assms by (simp add: ack_count_def nd_count_wf nd_isElement_wf)
  show ?thesis
  proof (cases "who \<in> nodes (Sharers x)")
    case True
    have "n = 0 - int (card (nodes (Sharers x))) + 1" using n True by (simp only: if_True)
    then show ?thesis using card.remove [OF nodes_finite [OF assms(1)] True] by linarith
  qed (use n in simp)
qed

lemma data_answer:
  assumes r: "serving ok a x q r" and d: "d_sendDataToRequestor now a r = Inr r'"
  obtains m where "serving ok a x q r'" "num_controllers (this r') = num_controllers (this r)"
    "rq_Requestor q \<in> machines (num_controllers (this r))"
    "answers a DATA (rq_Requestor q) (card (nodes (Sharers x) - {rq_Requestor q})) m"
    "outs (this r') = (fst (outs (this r)), add_mset m (snd (outs (this r))))"
proof -
  let ?who = "rq_Requestor q"
  obtain r1 r2 in_msg where l: "record_type now TagArrayRead a r = Inr r1" "record_type now DataArrayRead a r1 = Inr r2"
    "peek_request r2 = Inr in_msg"
    "enqueue_response now a (l2_response_latency (this r2)) DATA Response_Data (\<lambda>m.
       bindE (valid_entry r2) (\<lambda>_.
       bindE (the_entry r2) (\<lambda>e.
       bindE (to_response (rq_Requestor in_msg) (m\<lparr>rs_Sender := machineID (this r2)\<rparr>)) (\<lambda>m1.
       bindE (with_data (ent_DataBlk e) m1) (\<lambda>m2.
       bindE (ack_count (rq_Requestor in_msg) e) (\<lambda>n.
       Inr (m2\<lparr>rs_AckCount := n\<rparr>))))))) r2 = Inr r'"
    using d unfolding d_sendDataToRequestor_def send_entry_data_def bindE_eq_Inr if_True by (elim exE conjE) (rule that)
  note 1 = serving_record [OF r l(1)]
  note 2 = serving_record [OF 1(1) l(2)]
  have q: "in_msg = q" using 2(1) l(3) by (simp add: serving_def)
  obtain m0 m where m: "response_new (num_controllers (this r2)) (ruby_block_size (this r2)) a DATA Response_Data = Inr m0"
    "bindE (valid_entry r2) (\<lambda>_.
       bindE (the_entry r2) (\<lambda>e.
       bindE (to_response ?who (m0\<lparr>rs_Sender := machineID (this r2)\<rparr>)) (\<lambda>m1.
       bindE (with_data (ent_DataBlk e) m1) (\<lambda>m2.
       bindE (ack_count ?who e) (\<lambda>n. Inr (m2\<lparr>rs_AckCount := n\<rparr>)))))) = Inr m"
    "outs (this r') = (fst (outs (this r2)), add_mset m (snd (outs (this r2))))"
    "L1RequestToL2Cache (this r') = L1RequestToL2Cache (this r2)"
    using enqueue_response_sends [OF l(4)] unfolding q .
  obtain e m1 m2 n where f: "the_entry r2 = Inr e" "to_response ?who (m0\<lparr>rs_Sender := machineID (this r2)\<rparr>) = Inr m1"
    "with_data (ent_DataBlk e) m1 = Inr m2" "ack_count ?who e = Inr n" "m = m2\<lparr>rs_AckCount := n\<rparr>"
    using m(2) unfolding bindE_eq_Inr by (elim exE conjE) (rule that, assumption+, simp)
  note t = to_response_fits [OF m(1) f(2)]
  have wf: "nd_wf (num_controllers (this r2)) (Sharers x)" using 2(1) by (simp add: serving_def)
  have n: "n = - int (card (nodes (Sharers x) - {?who}))"
    using ack_count_fits [OF wf t(1)] f(4) serving_entry [OF 2(1) f(1)] by simp
  have qu: "quiet ok a r2 r'" by (rule enqueue_quiet(3) [OF serving_ok [OF 2(1)] l(4)])
  show thesis
  proof (rule that)
    show "serving ok a x q r'" by (rule serving_quiet [OF 2(1) qu m(4)])
    show "num_controllers (this r') = num_controllers (this r)" using qu 1(3) 2(3) by (simp add: quiet_def)
    show "?who \<in> machines (num_controllers (this r))" using t(1) 1(3) 2(3) by simp
    show "answers a DATA ?who (card (nodes (Sharers x) - {?who})) m"
      using t n with_data_fits [OF f(3)] f(5) by (simp add: answers_def)
    show "outs (this r') = (fst (outs (this r)), add_mset m (snd (outs (this r))))" using m(3) 1(2) 2(2) by simp
  qed
qed

lemma upgrade_answer:
  assumes r: "serving ok a x q r" and d: "ts_sendInvAckToUpgrader now a r = Inr r'"
    and s: "rq_Requestor q \<in> nodes (Sharers x)"
  obtains m where "serving ok a x q r'"
    "answers a ACK (rq_Requestor q) (card (nodes (Sharers x) - {rq_Requestor q})) m"
    "outs (this r') = (fst (outs (this r)), add_mset m (snd (outs (this r))))"
proof -
  let ?who = "rq_Requestor q"
  obtain in_msg where l: "peek_request r = Inr in_msg"
    "enqueue_response now a (to_l1_latency (this r)) ACK Response_Control (\<lambda>m.
       bindE (valid_entry r) (\<lambda>_.
       bindE (the_entry r) (\<lambda>e.
       bindE (to_response (rq_Requestor in_msg) (m\<lparr>rs_Sender := machineID (this r)\<rparr>)) (\<lambda>m1.
       bindE (nd_count (Sharers e)) (\<lambda>n. Inr (m1\<lparr>rs_AckCount := 0 - int n + 1\<rparr>)))))) r = Inr r'"
    using d unfolding ts_sendInvAckToUpgrader_def bindE_eq_Inr by (elim exE conjE) (rule that)
  have q: "in_msg = q" using r l(1) by (simp add: serving_def)
  obtain m0 m where m: "response_new (num_controllers (this r)) (ruby_block_size (this r)) a ACK Response_Control = Inr m0"
    "bindE (valid_entry r) (\<lambda>_.
       bindE (the_entry r) (\<lambda>e.
       bindE (to_response ?who (m0\<lparr>rs_Sender := machineID (this r)\<rparr>)) (\<lambda>m1.
       bindE (nd_count (Sharers e)) (\<lambda>n. Inr (m1\<lparr>rs_AckCount := 0 - int n + 1\<rparr>))))) = Inr m"
    "outs (this r') = (fst (outs (this r)), add_mset m (snd (outs (this r))))"
    "L1RequestToL2Cache (this r') = L1RequestToL2Cache (this r)"
    using enqueue_response_sends [OF l(2)] unfolding q .
  obtain e m1 n where f: "the_entry r = Inr e" "to_response ?who (m0\<lparr>rs_Sender := machineID (this r)\<rparr>) = Inr m1"
    "nd_count (Sharers e) = Inr n" "m = m1\<lparr>rs_AckCount := 0 - int n + 1\<rparr>"
    using m(2) unfolding bindE_eq_Inr by (elim exE conjE) (rule that, assumption+, simp)
  note t = to_response_fits [OF m(1) f(2)]
  have wf: "nd_wf (num_controllers (this r)) (Sharers x)" using r by (simp add: serving_def)
  have "n = card (nodes (Sharers x))" using f(3) serving_entry [OF r f(1)] nd_count_wf [OF wf] by simp
  then have n: "0 - int n + 1 = - int (card (nodes (Sharers x) - {?who}))"
    using card.remove [OF nodes_finite [OF wf] s] by linarith
  show thesis
  proof (rule that)
    show "serving ok a x q r'"
      by (rule serving_quiet [OF r enqueue_quiet(3) [OF serving_ok [OF r] l(2)] m(4)])
    show "answers a ACK ?who (card (nodes (Sharers x) - {?who})) m" using t n f(4) by (simp add: answers_def)
    show "outs (this r') = (fst (outs (this r)), add_mset m (snd (outs (this r))))" by (rule m(3))
  qed
qed

lemma invalidation:
  assumes r: "serving ok a x q r" and d: "fwm_sendFwdInvToSharersMinusRequestor now a r = Inr r'"
    and w: "rq_Requestor q \<in> machines (num_controllers (this r))"
  obtains m where "serving ok a x q r'"
    "invalidates a (rq_Requestor q) (nodes (Sharers x) - {rq_Requestor q}) m"
    "outs (this r') = (add_mset m (fst (outs (this r))), snd (outs (this r)))"
proof -
  let ?who = "rq_Requestor q"
  obtain r1 in_msg where l: "record_type now TagArrayRead a r = Inr r1" "peek_request r1 = Inr in_msg"
    "enqueue_l1 now a Req_INV Request_Control (\<lambda>m.
       bindE (valid_entry r1) (\<lambda>_.
       bindE (the_entry r1) (\<lambda>e.
       bindE (nd_remove (rq_Requestor in_msg) (Sharers e)) (\<lambda>d.
       Inr (m\<lparr>rq_Requestor := rq_Requestor in_msg, rq_Destination := d\<rparr>))))) r1 = Inr r'"
    using d unfolding fwm_sendFwdInvToSharersMinusRequestor_def bindE_eq_Inr by (elim exE conjE) (rule that)
  note 1 = serving_record [OF r l(1)]
  have q: "in_msg = q" using 1(1) l(2) by (simp add: serving_def)
  obtain m0 m where m: "request_new (num_controllers (this r1)) (ruby_block_size (this r1)) a Req_INV Request_Control = Inr m0"
    "bindE (valid_entry r1) (\<lambda>_.
       bindE (the_entry r1) (\<lambda>e.
       bindE (nd_remove ?who (Sharers e)) (\<lambda>d.
       Inr (m0\<lparr>rq_Requestor := ?who, rq_Destination := d\<rparr>)))) = Inr m"
    "outs (this r') = (add_mset m (fst (outs (this r1))), snd (outs (this r1)))"
    "L1RequestToL2Cache (this r') = L1RequestToL2Cache (this r1)"
    using enqueue_l1_sends [OF l(3)] unfolding q .
  obtain e d where f: "the_entry r1 = Inr e" "nd_remove ?who (Sharers e) = Inr d"
    "m = m0\<lparr>rq_Requestor := ?who, rq_Destination := d\<rparr>"
    using m(2) unfolding bindE_eq_Inr by (elim exE conjE) (rule that, assumption+, simp)
  have wf: "nd_wf (num_controllers (this r)) (Sharers x)" using r by (simp add: serving_def)
  have d: "nodes d = nodes (Sharers x) - {?who}"
    using nd_remove_wf [OF wf w] f(2) serving_entry [OF 1(1) f(1)] by auto
  have m0: "rq_addr m0 = a" "rq_Type m0 = Req_INV" using m(1) by (auto simp: request_new_def bindE_eq_Inr)
  show thesis
  proof (rule that)
    show "serving ok a x q r'"
      by (rule serving_quiet [OF 1(1) enqueue_quiet(2) [OF serving_ok [OF 1(1)] l(3)] m(4)])
    show "invalidates a ?who (nodes (Sharers x) - {?who}) m" using m0 d f(3) by (simp add: invalidates_def)
    show "outs (this r') = (add_mset m (fst (outs (this r))), snd (outs (this r)))" using m(3) 1(2) by simp
  qed
qed

section \<open>The two transitions\<close>

lemma outs_same:
  "set_setMRU P now a r = Inr r' \<Longrightarrow> outs (this r') = outs (this r)"
  "uu_profileHit r = Inr r' \<Longrightarrow> outs (this r') = outs (this r)"
  "jj_popL1RequestQueue now r = Inr r' \<Longrightarrow> outs (this r') = outs (this r)"
  by (auto simp: set_setMRU_def uu_profileHit_def jj_popL1RequestQueue_def profileMsgDelay_def sends_none_def
      bindE_eq_Inr outs_def dest!: on_cache_sends_none)

lemma state_outs:
  assumes "l2_setState st r = Inr r1" and "l2_setAccessPermission st r1 = Inr r2"
  shows "outs (this r2) = outs (this r)"
proof -
  obtain r0 where r0: "(if m_tbe_ptr r \<noteq> None then upd_tbe (\<lambda>t. Inr (t\<lparr>TBEState := st\<rparr>)) r else Inr r) = Inr r0"
    "(if m_cache_entry_ptr r0 \<noteq> None then upd_entry (\<lambda>e. Inr (e\<lparr>CacheState := st\<rparr>)) r0 else Inr r0) = Inr r1"
    using assms(1) unfolding l2_setState_def bindE_eq_Inr by (elim exE conjE) (rule that)
  have "sends_none r r0"
    using r0(1) upd_sends_none(2) by (cases "m_tbe_ptr r") (simp_all add: sends_none_def)
  moreover have "sends_none r0 r1"
    using r0(2) upd_sends_none(1) by (cases "m_cache_entry_ptr r0") (simp_all add: sends_none_def)
  moreover have "sends_none r1 r2"
    using assms(2) on_cache_sends_none
    by (cases "m_cache_entry_ptr r1") (auto simp: l2_setAccessPermission_def sends_none_def)
  ultimately show ?thesis by (simp add: sends_none_def)
qed

lemma slots_heap: "slots n now b = (q, b') \<Longrightarrow> m_prio_heap b' = m_prio_heap b"
  by (auto simp: slots_def areNSlotsAvailable_def split: if_splits)

lemma resources_outs: "l2_resources now acts s = (q, s') \<Longrightarrow> outs s' = outs s"
  unfolding l2_resources_def Let_def by (auto simp: outs_def dest!: slots_heap split: prod.splits if_splits)

lemma write_rules:
  "l2_transition SS L1_GETX = Some (SS_MB, [D_sendDataToRequestor, FWM_sendFwdInvToSharersMinusRequestor, SET_setMRU,
     UU_profileHit, JJ_popL1RequestQueue])"
  "l2_transition SS L1_UPGRADE = Some (SS_MB, [FWM_sendFwdInvToSharersMinusRequestor, TS_sendInvAckToUpgrader,
     SET_setMRU, UU_profileHit, JJ_popL1RequestQueue])"
  by code_simp+

lemma write_tail:
  assumes "run_actions P now a [SET_setMRU, UU_profileHit, JJ_popL1RequestQueue] r = Inr r'"
  shows "outs (this r') = outs (this r)"
proof -
  obtain r1 r2 where "set_setMRU P now a r = Inr r1" "uu_profileHit r1 = Inr r2" "jj_popL1RequestQueue now r2 = Inr r'"
    using assms unfolding run_actions.simps run_action.simps bindE_eq_Inr by (elim exE conjE) (rule that, assumption+, simp)
  then show ?thesis using outs_same by metis
qed

text \<open>Either order of the two messages: one invalidation and one answer have been added.\<close>

lemma write_actions:
  assumes r: "serving ok a x q r" and ev: "ev = L1_GETX \<or> ev = L1_UPGRADE \<and> rq_Requestor q \<in> nodes (Sharers x)"
    and tr: "l2_transition SS ev = Some (nxt, acts)" and run: "run_actions P now a acts r = Inr r'"
  obtains inv ans where "outs (this r') = (add_mset inv (fst (outs (this r))), add_mset ans (snd (outs (this r))))"
    "invalidates a (rq_Requestor q) (nodes (Sharers x) - {rq_Requestor q}) inv"
    "answers a (if ev = L1_GETX then DATA else ACK) (rq_Requestor q) (card (nodes (Sharers x) - {rq_Requestor q})) ans"
proof (cases "ev = L1_GETX")
  case True
  then have acts: "acts = [D_sendDataToRequestor, FWM_sendFwdInvToSharersMinusRequestor, SET_setMRU, UU_profileHit,
      JJ_popL1RequestQueue]"
    using tr write_rules(1) by simp
  obtain r1 r2 where l: "d_sendDataToRequestor now a r = Inr r1" "fwm_sendFwdInvToSharersMinusRequestor now a r1 = Inr r2"
    "run_actions P now a [SET_setMRU, UU_profileHit, JJ_popL1RequestQueue] r2 = Inr r'"
    using run unfolding acts run_actions.simps(2) [of _ _ _ D_sendDataToRequestor]
      run_actions.simps(2) [of _ _ _ FWM_sendFwdInvToSharersMinusRequestor] run_action.simps bindE_eq_Inr
    by (elim exE conjE) (rule that)
  obtain ans where ans: "serving ok a x q r1" "num_controllers (this r1) = num_controllers (this r)"
    "rq_Requestor q \<in> machines (num_controllers (this r))"
    "answers a DATA (rq_Requestor q) (card (nodes (Sharers x) - {rq_Requestor q})) ans"
    "outs (this r1) = (fst (outs (this r)), add_mset ans (snd (outs (this r))))"
    by (rule data_answer [OF r l(1)]) (rule that)
  have w: "rq_Requestor q \<in> machines (num_controllers (this r1))" using ans(2,3) by simp
  obtain inv where inv: "invalidates a (rq_Requestor q) (nodes (Sharers x) - {rq_Requestor q}) inv"
    "outs (this r2) = (add_mset inv (fst (outs (this r1))), snd (outs (this r1)))"
    by (rule invalidation [OF ans(1) l(2) w]) (rule that)
  show thesis
    by (rule that [OF _ inv(1)]) (use True ans(4,5) inv(2) write_tail [OF l(3)] in simp_all)
next
  case False
  then have ev: "ev = L1_UPGRADE" and s: "rq_Requestor q \<in> nodes (Sharers x)" using ev by simp_all
  have acts: "acts = [FWM_sendFwdInvToSharersMinusRequestor, TS_sendInvAckToUpgrader, SET_setMRU, UU_profileHit,
      JJ_popL1RequestQueue]"
    using tr write_rules(2) ev by simp
  obtain r1 r2 where l: "fwm_sendFwdInvToSharersMinusRequestor now a r = Inr r1" "ts_sendInvAckToUpgrader now a r1 = Inr r2"
    "run_actions P now a [SET_setMRU, UU_profileHit, JJ_popL1RequestQueue] r2 = Inr r'"
    using run unfolding acts run_actions.simps(2) [of _ _ _ TS_sendInvAckToUpgrader]
      run_actions.simps(2) [of _ _ _ FWM_sendFwdInvToSharersMinusRequestor] run_action.simps bindE_eq_Inr
    by (elim exE conjE) (rule that)
  have w: "rq_Requestor q \<in> machines (num_controllers (this r))"
    using r s nodes_machines by (auto simp: serving_def)
  obtain inv where inv: "serving ok a x q r1" "invalidates a (rq_Requestor q) (nodes (Sharers x) - {rq_Requestor q}) inv"
    "outs (this r1) = (add_mset inv (fst (outs (this r))), snd (outs (this r)))"
    by (rule invalidation [OF r l(1) w]) (rule that)
  obtain ans where ans: "answers a ACK (rq_Requestor q) (card (nodes (Sharers x) - {rq_Requestor q})) ans"
    "outs (this r2) = (fst (outs (this r1)), add_mset ans (snd (outs (this r1))))"
    by (rule upgrade_answer [OF inv(1) l(2) s]) (rule that)
  show thesis
    by (rule that [OF _ inv(2)]) (use ev ans inv(3) write_tail [OF l(3)] in simp_all)
qed

lemma isElement_True:
  assumes "nd_wf counts nd" and "nd_isElement m nd = Inr True"
  shows "m \<in> nodes nd"
  using assms nd_level_type [OF assms(1), of "mid_type m"] base_level_less [of "mid_type m"]
  by (auto simp: nd_isElement_def vecIndex_def nodes_def set_isElement_def bindE_eq_Inr elems_def)

lemma write_event:
  assumes r: "serving ok a x q r" and ty: "rq_Type q \<in> {GETX, UPGRADE}"
    and ev: "L1Cache_request_type_to_event (rq_Type q) (rq_Requestor q) r = Inr ev"
  shows "ev = L1_GETX \<or> ev = L1_UPGRADE \<and> rq_Requestor q \<in> nodes (Sharers x)"
proof (cases "rq_Type q = GETX")
  case False
  then obtain b where b: "isSharer (rq_Requestor q) r = Inr b" "ev = (if b then L1_UPGRADE else L1_GETX)"
    using ev ty by (auto simp: L1Cache_request_type_to_event_def bindE_eq_Inr)
  have "rq_Requestor q \<in> nodes (Sharers x)" if sharer: b
  proof -
    obtain e where "the_entry r = Inr e" "nd_isElement (rq_Requestor q) (Sharers e) = Inr True"
      using b(1) sharer by (auto simp: isSharer_def bindE_eq_Inr split: if_splits)
    then show ?thesis using r serving_entry [OF r] isElement_True by (auto simp: serving_def)
  qed
  then show ?thesis using b(2) by (cases b) simp_all
qed (use ev in \<open>simp add: L1Cache_request_type_to_event_def\<close>)

text \<open>
  C8. A write to a shared line collects the right number of acknowledgements.  In every reachable
  state, when the L2 controller serves a GETX or an UPGRADE for a line in state SS, it sends exactly
  one invalidation and one answer: the invalidation goes to all sharers but the requestor and names
  the requestor as the one to acknowledge to, and the answer goes to the requestor alone, with the
  data unless it upgrades its own copy, and announces as many acknowledgements as the invalidation
  has destinations.
\<close>

theorem l2_acks_match_invalidations:
  assumes "fresh_policy P ok g (num_sets_of p blk) (p_assoc p)" and "params_ok p clk blk"
    and "l2_reachable P g p clk blk s" and "line s a = (Some (perm, x), None)" and "CacheState x = SS"
    and "lookup_run now a s = Inr r" and "peek_request r = Inr q" and "rq_Type q \<in> {GETX, UPGRADE}"
    and "L1Cache_request_type_to_event (rq_Type q) (rq_Requestor q) r = Inr ev"
    and "doTransition P now ev a r = Inr (Valid, s')"
  shows "\<exists>inv ans. outs s' = (add_mset inv (fst (outs s)), add_mset ans (snd (outs s))) \<and>
    rq_addr inv = a \<and> rq_Type inv = Req_INV \<and> rq_Requestor inv = rq_Requestor q \<and>
    nodes (rq_Destination inv) = nodes (Sharers x) - {rq_Requestor q} \<and>
    rs_addr ans = a \<and> rs_Type ans = (if ev = L1_UPGRADE then ACK else DATA) \<and>
    nodes (rs_Destination ans) = {rq_Requestor q} \<and>
    rs_AckCount ans = - int (card (nodes (rq_Destination inv)))"
proof -
  note ok = l2_reachable_ok [OF assms(1-3)]
  note lk = lookup_run_ok [OF ok assms(6)]
  have so: "outs (this r) = outs s" using assms(6) by (auto simp: lookup_run_def getCacheEntry_def bindE_eq_Inr outs_def)
  have l: "line (this r) a = (Some (perm, x), None)" using l2_same_line [OF lk(1)] assms(4) by simp
  have "nd_wf (num_controllers s) (Sharers x)"
    using good_line_parts(4) [OF reachable_line [OF assms(1-4)] refl refl] by (auto simp: entry_fits_def)
  then have r: "serving ok a x q r" using lk l assms(7) by (simp add: serving_def l2_same_def)
  note ev = write_event [OF r assms(8,9)]
  obtain nxt acts where tr: "l2_transition SS ev = Some (nxt, acts)" using ev write_rules by auto
  obtain st where st: "l2_getState r = Inr st" using assms(10) unfolding doTransition_def bindE_eq_Inr by blast
  have "st = SS" using getState_line [OF lk(2) st] l assms(5) by (simp add: line_state_def)
  obtain ok1 s1 where res: "l2_resources now acts (this r) = (ok1, s1)" by (cases "l2_resources now acts (this r)")
  note same = resources_same [OF res]
  obtain r2 r3 r4 where t: "run_actions P now a acts (r\<lparr>this := s1\<rparr>) = Inr r2" "l2_setState nxt r2 = Inr r3"
    "l2_setAccessPermission nxt r3 = Inr r4" "s' = this r4"
    using assms(10) st \<open>st = SS\<close> tr res unfolding doTransition_def by (auto simp: bindE_eq_Inr split: if_splits)
  have "serving ok a x q (r\<lparr>this := s1\<rparr>)"
    using r same by (simp add: serving_def run_ok_def line_def peek_request_def)
  then obtain inv ans where "outs (this r2) = (add_mset inv (fst (outs s1)), add_mset ans (snd (outs s1)))"
    "invalidates a (rq_Requestor q) (nodes (Sharers x) - {rq_Requestor q}) inv"
    "answers a (if ev = L1_GETX then DATA else ACK) (rq_Requestor q) (card (nodes (Sharers x) - {rq_Requestor q})) ans"
    by (rule write_actions [OF _ ev tr t(1)]) simp
  then show ?thesis
    using state_outs [OF t(2,3)] t(4) resources_outs [OF res] so ev
    by (intro exI [of _ inv] exI [of _ ans]) (auto simp: invalidates_def answers_def)
qed

text \<open>One L1 cache has fetched a line of instructions, the other one writes to it.\<close>

definition demo_write :: "demo_input list" where
  "demo_write =
     [Ask 0 GET_INSTR 0, Wake 500, Answer 500 MEMORY_DATA \<lparr>mid_type = Directory, mid_num = 0\<rparr>, Wake 1000,
      Ask 2000 GETX 1]"

theorem l2_acks_match_invalidations_witness:
  "\<exists>s r s' inv ans. demo_l2 demo_write = Inr s \<and> lookup_run 2500 0 s = Inr r \<and>
     doTransition lru_policy 2500 L1_GETX 0 r = Inr (Valid, s') \<and>
     outs s' = (add_mset inv (fst (outs s)), add_mset ans (snd (outs s))) \<and>
     nodes (rq_Destination inv) = {\<lparr>mid_type = L1Cache, mid_num = 0\<rparr>} \<and> rs_AckCount ans = - 1"
proof -
  let ?L1 = "\<lambda>n. \<lparr>mid_type = L1Cache, mid_num = n\<rparr>"
  have "bindE (demo_l2 demo_write) (\<lambda>s.
      bindE (lookup_run 2500 0 s) (\<lambda>r.
      bindE (peek_request r) (\<lambda>q.
      bindE (L1Cache_request_type_to_event (rq_Type q) (rq_Requestor q) r) (\<lambda>ev.
      bindE (doTransition lru_policy 2500 ev 0 r) (\<lambda>(res, s').
      Inr (res = Valid \<and> ev = L1_GETX \<and> rq_Type q = GETX \<and> rq_Requestor q = ?L1 1 \<and> snd (line s 0) = None \<and>
        (case fst (line s 0) of
           None \<Rightarrow> False
         | Some (_, x) \<Rightarrow> CacheState x = SS \<and> nd_isElement (?L1 0) (Sharers x) = Inr True \<and>
             nd_count (Sharers x) = Inr 1))))))) = Inr True"
    by code_simp
  then obtain s r q ev s' where s: "demo_l2 demo_write = Inr s" "lookup_run 2500 0 s = Inr r" "peek_request r = Inr q"
    "L1Cache_request_type_to_event (rq_Type q) (rq_Requestor q) r = Inr ev"
    "doTransition lru_policy 2500 ev 0 r = Inr (Valid, s')" "ev = L1_GETX" "rq_Type q = GETX" "rq_Requestor q = ?L1 1"
    "snd (line s 0) = None" "case fst (line s 0) of
           None \<Rightarrow> False
         | Some (_, x) \<Rightarrow> CacheState x = SS \<and> nd_isElement (?L1 0) (Sharers x) = Inr True \<and>
             nd_count (Sharers x) = Inr 1"
    unfolding bindE_eq_Inr by (elim exE conjE) (auto simp: bindE_eq_Inr)
  obtain perm x where x: "line s 0 = (Some (perm, x), None)" "CacheState x = SS"
    "nd_isElement (?L1 0) (Sharers x) = Inr True" "nd_count (Sharers x) = Inr 1"
    using s(9,10) by (cases "line s 0") (auto split: option.splits)
  note re = demo_l2_reachable [OF s(1)]
  have wf: "nd_wf (num_controllers s) (Sharers x)"
    using good_line_parts(4) [OF reachable_line [OF demo_hyps re x(1)] refl refl] by (auto simp: entry_fits_def)
  have "card (nodes (Sharers x)) = 1" using nd_count_wf [OF wf] x(4) by simp
  then have n: "nodes (Sharers x) = {?L1 0}" using isElement_True [OF wf x(3)] by (auto simp: card_1_singleton_iff)
  have "rq_Type q \<in> {GETX, UPGRADE}" using s(7) by simp
  from l2_acks_match_invalidations [OF demo_hyps re x(1,2) s(2,3) this s(4,5)]
  obtain inv ans where m: "outs s' = (add_mset inv (fst (outs s)), add_mset ans (snd (outs s)))"
    "nodes (rq_Destination inv) = nodes (Sharers x) - {rq_Requestor q}"
    "rs_AckCount ans = - int (card (nodes (rq_Destination inv)))"
    by blast
  have "nodes (rq_Destination inv) = {?L1 0}" using m(2) n s(8) by simp
  then show ?thesis using s(1,2,5,6) m(1,3) by auto
qed

end
