(* ===== verification/Spec2Isabelle.thy ===== *)
theory Spec2Isabelle
  imports Cache_Pages Dueling_Instances Message_Guarantees Net_Dest Data_Block L2_Acks
begin

text \<open>
  \<^bold>\<open>The program.\<close>  The repository is a fork of the gem5 simulator whose Ruby memory system models a
  last-level cache in STT-RAM.  Its subject, and the subject of this library, is the cache structure
  \<^verbatim>\<open>src/gem5/src/mem/ruby/structures/CacheMemory.cc\<close>: a set-associative array of entries with a tag
  index, whose sets are divided into retention zones with their own latencies and retention times,
  and which redirects the pages that are written most to the low-retention zones.  It calls a
  replacement policy (\<^verbatim>\<open>src/gem5/src/mem/cache/replacement_policies\<close>), banked arrays for the timing of
  tags and data, the address and bit-field helpers and saturating counters.  The L2 controller of the
  coherence protocol (\<^verbatim>\<open>src/gem5/src/mem/ruby/protocol/MESI_Two_Level-L2cache.sm\<close>) calls it, keeps the data
  of a line in data blocks, its sharers in destination sets and its pending transaction in a table,
  and exchanges messages with the L1 caches and the directory through message buffers.

  \<^bold>\<open>Conventions.\<close>  Addresses, ticks and cycles are 64-bit words, and every bit operation is the one on
  words; counts that a configuration bounds are natural numbers, and each theory says which.  State
  is passed explicitly as a record with the members of the class.  Code that can assert, panic, call
  \<^verbatim>\<open>fatal\<close>, index out of range, dereference a null pointer or has another undefined result (a division by
  zero, an over-wide shift, the negation of the smallest integer) returns \<open>sim_error + 'a\<close>, and each of
  these is a branch of the definition.  \<^verbatim>\<open>curTick()\<close> is an argument.  Pointers to shared objects are
  positions in an explicit store (cache entries, replacement data, the trees of Tree-PLRU).  Loops are
  structural recursion, or have a termination proof; no definition uses fuel (the number of
  transitions in one wake-up of the controller is a parameter of the code).

  \<^bold>\<open>Theories and the code they model.\<close>

  \<^item> \<open>Ruby_Prelude\<close>: the result type and its combinators, lemma collections, facts on lists and words.
  \<^item> \<open>Bit_Math\<close>: \<^verbatim>\<open>base/bitfield.hh\<close>, \<^verbatim>\<open>base/intmath.hh\<close>.  \<open>Ruby_Address\<close>: \<^verbatim>\<open>mem/ruby/common/Address.cc\<close>.
    \<open>Sat_Counter\<close>: \<^verbatim>\<open>base/sat_counter.hh\<close>.  \<open>Random_Source\<close>: \<^verbatim>\<open>base/random.hh\<close> over an explicit stream.
    The mask-and-shift routines equal the arithmetic they stand for.
  \<^item> \<open>Replacement_Base\<close>: the virtual interface of \<^verbatim>\<open>base.hh\<close> as a record of operations, and its contract,
    the locale \<open>replacement_policy\<close>.  \<open>Stamp_Policies\<close> (LRU, MRU, FIFO, LFU, BIP, Weighted-LRU, Random),
    \<open>Tree_PLRU\<close>, \<open>Second_Chance\<close>, \<open>RRIP_Policies\<close> (BRRIP, SHiP) and \<open>Dueling_Policy\<close> model the policies,
    interpret the locale and show which entry each one evicts.  \<open>Dueling_Policy\<close> derives the contract of
    a pair from those of its two parts (locale \<open>dueling_pair\<close>).
  \<^item> \<open>Banked_Array\<close>, \<open>ALU_Free_List\<close>: \<^verbatim>\<open>structures/BankedArray.cc\<close>, \<^verbatim>\<open>structures/ALUFreeListArray.cc\<close>.
  \<^item> \<open>Cache_Entry\<close>: \<^verbatim>\<open>slicc_interface/AbstractCacheEntry.cc\<close>.  \<open>Cache_Memory\<close>: every operation of
    \<^verbatim>\<open>structures/CacheMemory.cc\<close>.  \<open>Cache_Index\<close>: the set index and the zones.  \<open>Cache_Invariant\<close>,
    \<open>Cache_Operations\<close>, \<open>Cache_Requests\<close>, \<open>Cache_Access\<close>: the representation invariant, and each
    operation as an operation on the map of present blocks, for every policy that meets the contract.
    \<open>Cache_Machine\<close>: the operations as steps, their preconditions, reachability.  \<open>Cache_Boot\<close>:
    construction (locale \<open>fresh_policy\<close>).  \<open>Policy_Instances\<close>, \<open>Dueling_Instances\<close>: the policies as
    instances of it.  \<open>Cache_Scenario\<close>: one concrete configuration.  \<open>Cache_Pages\<close>: page redirection.
  \<^item> \<open>Std_Heap\<close>: \<^verbatim>\<open>std::push_heap\<close> and \<^verbatim>\<open>std::pop_heap\<close> and the locale \<open>min_heap\<close>.  \<open>Message_Buffer\<close>:
    \<^verbatim>\<open>network/MessageBuffer.cc\<close> and \<^verbatim>\<open>slicc_interface/Message.hh\<close>.  \<open>Message_Queue\<close>: the invariant and runs of
    a buffer.  \<open>Message_Guarantees\<close>: conservation, free slots, first-in first-out order.
  \<^item> \<open>Node_Set\<close>, \<open>Net_Dest\<close>: \<^verbatim>\<open>common/Set.hh\<close>, \<^verbatim>\<open>common/NetDest.cc\<close> and the numbering of machine types,
    as an implementation of finite sets of machines.
  \<^item> \<open>Data_Block\<close>: \<^verbatim>\<open>common/DataBlock.cc\<close>, \<^verbatim>\<open>common/WriteMask.hh\<close>: masked copies and assignment.
  \<^item> \<open>TBE_Table\<close>: \<^verbatim>\<open>structures/TBETable.hh\<close>.  \<open>Waiting_Buffers\<close>: the stalled buffers and blocked queues of
    \<^verbatim>\<open>slicc_interface/AbstractController.cc\<close>.  \<open>L2_Messages\<close>: \<^verbatim>\<open>protocol/MESI_Two_Level-msg.sm\<close>.
  \<^item> \<open>L2_Controller\<close> (states, events, structures), \<open>L2_Actions\<close> (every action), \<open>L2_Machine\<close> (every transition,
    the in-ports, and the loop, dispatch and resource checks that \<^verbatim>\<open>slicc/symbols/StateMachine.py\<close>
    generates): \<^verbatim>\<open>protocol/MESI_Two_Level-L2cache.sm\<close>.  \<open>L2_Array\<close>: the cache as the controller sees it.
    \<open>L2_Lines\<close>: what each action does to a line.  \<open>L2_Shapes\<close>: the shapes of a line, the effect of an
    action on them, and that the table of transitions keeps the shape of each state.  \<open>L2_Stalls\<close>: the
    stalled requests.  \<open>L2_Transitions\<close>: a transition as a whole.  \<open>L2_Reachable\<close>: ports, wake-up loop and
    runs.  \<open>L2_Scenario\<close>: a concrete system.  \<open>L2_Guarantees\<close>: the properties of the controller.
    \<open>L2_Acks\<close>: the messages that a write to a shared line sends.

  \<^bold>\<open>What is shown.\<close>  This theory holds the properties of the cache as a whole: in every state a
  constructed cache reaches, an operation succeeds exactly when its precondition holds, refines the
  abstract map of blocks, keeps each address in at most one place, and a miss in a full set can be
  served; recording a request moves no block, although a write may change the set its page maps to and a tag
  write makes an entry that was marked as not present present again.
  They hold for every policy that meets the contract.  The properties of one component stand in its
  own theory.  Those of the L2 controller hold in every state of every run, whatever messages the
  network delivers: a line has the entry and the transaction that its state calls for, its sharers
  agree with its state, no stalled request is forgotten, a write to a shared line announces as many
  acknowledgements as it sends invalidations, and the expiry of blocks, which the cache tracks, never
  reaches the protocol.

  \<^bold>\<open>Bounds.\<close>  The cache properties assume parameters as the configuration scripts produce them
  (\<open>params_ok\<close>): at least four and at most 65536 sets, a power of two or not, and at most 65536 ways.
  A packed position of the tag index has 16 bits for each.  Node sets have 64 bits, the default of
  the build.  A buffer is a queue for fewer than \<open>2 ^ 64\<close> messages, where the message counter wraps.

  \<^bold>\<open>Not modelled.\<close>  The other machines of the coherence protocols (\<^verbatim>\<open>protocol/*.sm\<close>): the L1 cache, the
  directory and the DMA controller, which the L2 controller meets only through its message buffers,
  and the sequencers; functional accesses of the L2 controller; the network topology and routers; the
  classic caches apart from
  their replacement policies; processors, devices, memory controllers and the event queue, which the
  cache sees only through its arguments; text output, tracing and the registration of statistics.
\<close>

section \<open>The cache under any sequence of operations\<close>

text \<open>
  C1. In every state a constructed cache can reach, with any replacement policy that meets the
  contract, an operation of the cache succeeds exactly when its precondition holds: the address
  is line-aligned and, for \<open>allocate\<close>, the set has room (for \<open>cacheProbe\<close>, it has none; for the
  lock operations, the block is present).  No operation hits an assertion, a null entry or an
  index out of range otherwise.
\<close>

theorem op_succeeds_iff_enabled:
  assumes "fresh_policy P ok g (num_sets_of p blk) (p_assoc p)" and "params_ok p clk blk"
    and "running P f g p clk blk c"
  shows "(\<exists>c'. run_op P f op c = Inr c') \<longleftrightarrow> enabled op c"
  using replacement_policy.run_op_iff [OF running_ok(1,2) [OF assms]] .

theorem op_succeeds_iff_enabled_witness:
  "\<exists>c. demo_state fill_set0 = Inr c \<and> (\<exists>c'. run_op lru_policy id (OpProbe 30 1024) c = Inr c')"
proof -
  obtain c where c: "demo_state fill_set0 = Inr c" "enabled (OpProbe 30 1024) c"
    using demo_eval [OF fill_set0_full] .
  then show ?thesis using op_succeeds_iff_enabled [OF demo_hyps demo_running [OF c(1)]] by blast
qed


text \<open>
  C2. An operation that succeeds in a reachable state changes the map of present blocks exactly as
  its specification says: \<open>lookup\<close> only marks the looked-up block, \<open>allocate\<close> adds one block,
  \<open>deallocate\<close> removes one, \<open>cacheProbe\<close>, the latency query and the resource check change nothing,
  the lock and transaction operations touch only the locks and the transaction bits.
\<close>

theorem op_refines_abs_step:
  assumes "fresh_policy P ok g (num_sets_of p blk) (p_assoc p)" and "params_ok p clk blk"
    and "running P f g p clk blk c" and "run_op P f op c = Inr c'"
  shows "abs_step f (line_bits c) op (blocks c) (blocks c')"
proof -
  note r = running_ok(1,2) [OF assms(1-3)]
  have "enabled op c" using replacement_policy.run_op_iff [OF r] assms(4) by blast
  then show ?thesis using replacement_policy.run_op_policy [OF r, of op f] assms(4) by auto
qed

theorem op_refines_abs_step_witness:
  "\<exists>c c'. demo_state fill_set0 = Inr c \<and> run_op lru_policy id (OpDeallocate 30 512) c = Inr c' \<and>
     blocks c' = (blocks c)(512 := None)"
proof -
  have "bindE (demo_state fill_set0) (\<lambda>c. Inr (okE (run_op lru_policy id (OpDeallocate 30 512) c))) = Inr True"
    by code_simp
  then obtain c where c: "demo_state fill_set0 = Inr c" "okE (run_op lru_policy id (OpDeallocate 30 512) c)"
    by (rule demo_eval)
  then obtain c' where c': "run_op lru_policy id (OpDeallocate 30 512) c = Inr c'" using okE_D by blast
  show ?thesis using op_refines_abs_step [OF demo_hyps demo_running [OF c(1)] c'] c c' by auto
qed

text \<open>
  C3. In every reachable state no address is present twice: two present entries with the same
  address are at the same set and way, and the tag search finds that position.
\<close>

theorem present_block_unique:
  assumes "fresh_policy P ok g (num_sets_of p blk) (p_assoc p)" and "params_ok p clk blk"
    and "running P f g p clk blk c"
    and "in_range c loc1" and "slot c loc1 = Some x" and "m_Permission x \<noteq> NotPresent"
    and "in_range c loc2" and "slot c loc2 = Some y" and "m_Permission y \<noteq> NotPresent"
    and "m_Address x = m_Address y"
  shows "loc1 = loc2 \<and> findTagInSet c (m_Address x) = Inr (Some loc1)"
proof -
  note inv = running_ok(3) [OF assms(1-3)]
  have e: "m_tag_index c (m_Address x) = Some (encode_loc (fst loc1) (snd loc1))"
    "m_tag_index c (m_Address x) = Some (encode_loc (fst loc2) (snd loc2))"
    using present(2) [OF inv assms(4-6)] present(2) [OF inv assms(7-9)] assms(10) by simp_all
  then have "loc1 = loc2"
    using decode_encode_loc [OF inv assms(4)] decode_encode_loc [OF inv assms(7)] by simp
  moreover have b: "blocks c (m_Address x) = Some x" by (rule blocks_present [OF inv assms(4-6)])
  then have "is_line c (m_Address x)" using blocks_Some [OF inv] by blast
  then have "findTagInSet c (m_Address x) = Inr (Some loc1)"
    using findTagInSet_inv [OF inv] e(1) b decode_encode_loc [OF inv assms(4)]
    by (simp add: present_loc_def)
  ultimately show ?thesis by blast
qed

theorem present_block_unique_witness:
  "\<exists>c. demo_state fill_set0 = Inr c \<and> findTagInSet c 512 = Inr (Some (0, 1))"
proof -
  have "bindE (demo_state fill_set0) (\<lambda>c. Inr (in_range c (0, 1) \<and>
      (case slot c (0, 1) of Some x \<Rightarrow> m_Permission x \<noteq> NotPresent \<and> m_Address x = 512 | None \<Rightarrow> False))) = Inr True"
    by code_simp
  then obtain c where c: "demo_state fill_set0 = Inr c" "in_range c (0, 1)"
    "case slot c (0, 1) of Some x \<Rightarrow> m_Permission x \<noteq> NotPresent \<and> m_Address x = 512 | None \<Rightarrow> False"
    by (rule demo_eval) blast
  then obtain x where "slot c (0, 1) = Some x" "m_Permission x \<noteq> NotPresent" "m_Address x = 512"
    by (auto split: option.splits)
  then show ?thesis
    using present_block_unique [OF demo_hyps demo_running [OF c(1)] c(2) _ _ c(2)] c(1) by auto
qed

text \<open>
  C9. Construction: from well-formed parameters the constructor, \<open>init\<close> and the registration of the
  statistics succeed for every policy that meets the contract, and the cache they build is empty,
  has the number of sets that size, associativity and block size give, and satisfies the invariant.
\<close>

theorem boot_succeeds:
  fixes P :: "('d, 'g) repl_policy"
  assumes "fresh_policy P ok g (num_sets_of p blk) (p_assoc p)" and "params_ok p clk blk"
  shows "\<exists>c :: ('d, 'g, 'e) cache_memory. cm_boot P g p clk blk = Inr c \<and> cm_ok ok c \<and>
    blocks c = Map.empty \<and> m_cache_num_sets c = num_sets_of p blk \<and> m_cache_assoc c = p_assoc p"
  using fresh_policy.boot_ok [OF assms refl refl] .

theorem boot_succeeds_witness:
  "\<exists>c :: (plru_data, plru_state, unit) cache_memory.
     cm_boot plru_policy \<lparr>numLeaves = 2, plru_count = 0, trees = []\<rparr> demo_params 500 64 = Inr c \<and>
     blocks c = Map.empty \<and> m_cache_num_sets c = 8"
proof -
  have k: "p_assoc demo_params = 0 + 2" "num_sets_of demo_params 64 = 8"
    by (simp_all add: demo_params_def num_sets_of_def)
  have "fresh_policy plru_policy plru_ok \<lparr>numLeaves = 2, plru_count = 0, trees = []\<rparr>
    (num_sets_of demo_params 64) (p_assoc demo_params)"
    using plru_fresh.fresh_policy_axioms [of 0] unfolding k(1) by (simp only: add_0)
  from boot_succeeds [OF this demo_params_ok] show ?thesis using k by auto
qed


section \<open>Placement, eviction and redirection\<close>

text \<open>
  C13. Set indexing: for a line address the set is computed without fault and exists, and with four
  retention zones and lazy redirection it lies in the zone of the default set, unless the page has
  been redirected: then lines of zone 3 go to zone 1 and lines of zone 2 to zone 0.
\<close>

theorem set_index_zone:
  assumes "fresh_policy P ok g (num_sets_of p blk) (p_assoc p)" and "params_ok p clk blk"
    and "running P f g p clk blk c" and "is_line c a"
  shows "\<exists>d s. getDefaultSet c a = Inr d \<and> addressToCacheSet c a = Inr s \<and> s < m_cache_num_sets c \<and>
    (if m_lazy_redirection_scheme c \<and> m_num_of_retention_zones c = 4
     then s div zone_size_of c =
       (if m_chunk_redirection_table c (chunk_ID a) = None then d div zone_size_of c
        else redirected_zone (d div zone_size_of c))
     else s = d)"
proof -
  note inv = running_ok(3) [OF assms(1-3)]
  note cc = cm_inv_dims(3) [OF inv]
  obtain d where d: "getDefaultSet c a = Inr d" using getDefaultSet_config [OF cc] by blast
  obtain s where s: "addressToCacheSet c a = Inr s" "s < m_cache_num_sets c"
    using addressToCacheSet_inv [OF inv assms(4)] .
  have "d < 4 * zone_size_of c" if "m_num_of_retention_zones c = 4"
    using default_set_bound [OF cc d] that by simp
  then show ?thesis
    using d s addressToCacheSet_eq [OF cc assms(4) d] zone_size_pos [OF cc] base_set_zone [of c d a]
    by (auto simp: walk_from_zone)
qed

theorem set_index_zone_witness:
  "\<exists>c. demo_state fill_set0 = Inr c \<and> (\<exists>s. addressToCacheSet c 448 = Inr s \<and> s < 8)"
proof -
  have "bindE (demo_state fill_set0) (\<lambda>c. Inr (is_line c 448 \<and> m_cache_num_sets c = 8)) = Inr True"
    by code_simp
  then obtain c where c: "demo_state fill_set0 = Inr c" "is_line c 448" "m_cache_num_sets c = 8"
    by (rule demo_eval) blast
  show ?thesis using set_index_zone [OF demo_hyps demo_running [OF c(1)] c(2)] c by auto
qed

text \<open>
  C10. A miss in a full set can always be served: \<open>cacheProbe\<close> returns the address of a block that is
  present in the target set, \<open>deallocate\<close> of that address succeeds, \<open>cacheAvail\<close> then holds for the
  missing address, and \<open>allocate\<close> succeeds; afterwards the victim is gone, the new block is present
  with permission Invalid, and every other block is as before.
\<close>

theorem miss_served:
  assumes "fresh_policy P ok g (num_sets_of p blk) (p_assoc p)" and "params_ok p clk blk"
    and "running P f g p clk blk c" and "is_line c a" and "cacheAvail a c = Inr False"
  shows "\<exists>v c1 c2 loc c3 x. cacheProbe P t1 a c = Inr (v, c1) \<and> blocks c v \<noteq> None \<and> v \<noteq> a \<and>
    deallocate P t2 v c1 = Inr c2 \<and> cacheAvail a c2 = Inr True \<and>
    allocate P t3 a e c2 = Inr (loc, c3) \<and> addressToCacheSet c a = Inr (fst loc) \<and>
    blocks c3 = (blocks c)(v := None, a \<mapsto> x) \<and> m_Permission x = PermInvalid"
  using replacement_policy.evict_and_allocate [OF running_ok(1,2) [OF assms(1-3)] assms(4,5)] .

theorem miss_served_witness:
  "\<exists>c v c1. demo_state fill_set0 = Inr c \<and> cacheProbe lru_policy 30 1024 c = Inr (v, c1) \<and>
     blocks c v \<noteq> None \<and> v \<noteq> 1024"
proof -
  obtain c where c: "demo_state fill_set0 = Inr c" "enabled (OpProbe 30 1024) c"
    using demo_eval [OF fill_set0_full] .
  then have e: "is_line c 1024" "cacheAvail 1024 c = Inr False" by simp_all
  show ?thesis
    using miss_served [OF demo_hyps demo_running [OF c(1)] e, of 30 31 32 demo_entry] c(1) by blast
qed

text \<open>
  C11. The victim: \<open>cacheProbe\<close> on a full set returns the address of a present block of that set;
  when some block of the set has expired and is not Busy, the victim has expired and is not Busy;
  and a Busy block is never chosen while some block that is not Busy was last touched by now.
\<close>

theorem victim_choice:
  assumes "fresh_policy P ok g (num_sets_of p blk) (p_assoc p)" and "params_ok p clk blk"
    and "running P f g p clk blk c" and "is_line c a" and "cacheAvail a c = Inr False"
    and "addressToCacheSet c a = Inr s" and "now \<noteq> - 1"
  shows "\<exists>v c' w x. cacheProbe P now a c = Inr (v, c') \<and> w < m_cache_assoc c \<and>
    slot c (s, w) = Some x \<and> m_Address x = v \<and> m_Permission x \<noteq> NotPresent \<and>
    ((\<exists>i < m_cache_assoc c. expired_idle (slot c (s, i))) \<longrightarrow> expired_idle (Some x)) \<and>
    ((\<exists>i < m_cache_assoc c. \<exists>y. slot c (s, i) = Some y \<and> m_Permission y \<noteq> Busy \<and>
        m_last_touch_tick y \<le> now) \<longrightarrow> m_Permission x \<noteq> Busy)"
proof -
  note r = running_ok(1,2) [OF assms(1-3)]
  have n: "now + 1 \<noteq> 0" using assms(7) by (simp add: eq_neg_iff_add_eq_0)
  obtain v c' w x where v: "cacheProbe P now a c = Inr (v, c')" "w < m_cache_assoc c"
    "slot c (s, w) = Some x" "m_Address x = v" "m_Permission x \<noteq> NotPresent"
    and i: "(\<exists>i < m_cache_assoc c. expired_idle (slot c (s, i))) \<Longrightarrow> expired_idle (Some x)"
    and b: "now + 1 \<noteq> 0 \<Longrightarrow>
      (\<exists>i < m_cache_assoc c. \<exists>y. slot c (s, i) = Some y \<and> m_Permission y \<noteq> Busy \<and>
         m_last_touch_tick y \<le> now) \<Longrightarrow> m_Permission x \<noteq> Busy"
    by (rule replacement_policy.cacheProbe_spec [OF r assms(4-6), where now = now]) (rule that)
  show ?thesis
    by (rule exI [of _ v], rule exI [of _ c'], rule exI [of _ w], rule exI [of _ x])
      (intro conjI impI v i b [OF n])
qed

theorem victim_choice_witness:
  "\<exists>c v c' x. demo_state (fill_set0 @ [OpLookup 5000 512]) = Inr c \<and>
     cacheProbe lru_policy 5000 1024 c = Inr (v, c') \<and> blocks c v = Some x \<and> m_is_expired x"
proof -
  let ?ops = "fill_set0 @ [OpLookup 5000 512]"
  have "bindE (demo_state ?ops) (\<lambda>c. Inr (enabled (OpProbe 5000 1024) c \<and>
      addressToCacheSet c 1024 = Inr 0 \<and> m_cache_assoc c = 2 \<and> m_cache_num_sets c = 8 \<and>
      expired_idle (slot c (0, 1)))) = Inr True"
    by code_simp
  then obtain c where c: "demo_state ?ops = Inr c" "enabled (OpProbe 5000 1024) c"
    "addressToCacheSet c 1024 = Inr 0" "m_cache_assoc c = 2" "m_cache_num_sets c = 8" "expired_idle (slot c (0, 1))"
    by (rule demo_eval) blast
  then have e: "is_line c 1024" "cacheAvail 1024 c = Inr False" by simp_all
  have "(5000 :: 64 word) \<noteq> - 1" by simp
  moreover have i: "\<exists>i < m_cache_assoc c. expired_idle (slot c (0, i))"
    using c(4,6) by (intro exI [of _ 1]) simp
  ultimately obtain v c' w x where v: "cacheProbe lru_policy 5000 1024 c = Inr (v, c')" "w < 2"
    "slot c (0, w) = Some x" "m_Address x = v" "m_Permission x \<noteq> NotPresent" "expired_idle (Some x)"
    using victim_choice [OF demo_hyps demo_running [OF c(1)] e c(3), of 5000] i c(4) by auto
  then have "blocks c v = Some x"
    using blocks_present [OF running_ok(3) [OF demo_hyps demo_running [OF c(1)]], of "(0, w)" x] c(4,5) by simp
  then show ?thesis using c(1) v by (auto simp: expired_idle_def)
qed

text \<open>
  C12. Recording a request of any kind, for a line that is present or not, moves no block: the tag
  search finds every line at the position where it was, also when the write count of its page
  changes the set its address maps to.  The one line whose answer can change is that of a tag write:
  it is then found wherever its tag is, so that an entry with the permission NotPresent is present
  again, in its place.
\<close>

theorem record_moves_no_block:
  assumes "fresh_policy P ok g (num_sets_of p blk) (p_assoc p)" and "params_ok p clk blk"
    and "running P f g p clk blk c" and "recordRequestType now t a c = Inr c'" and "is_line c b"
  shows "if b = a \<and> t = TagArrayWrite
    then findTagInSet c' b = findTagInSetIgnorePermissions c b \<and>
      isTagPresent now b c' = bindE (findTagInSetIgnorePermissions c b) (\<lambda>loc. Inr (loc \<noteq> None))
    else findTagInSet c' b = findTagInSet c b \<and> isTagPresent now b c' = isTagPresent now b c"
proof -
  note inv = running_ok(3) [OF assms(1-3)]
  note f = record_step [OF inv assms(4)]
  have b: "is_line c' b" using frameD(3) [OF f(1)] assms(5) by simp
  have "isTagPresent now b c' = Inr (present_loc c' b \<noteq> None)" "isTagPresent now b c = Inr (present_loc c b \<noteq> None)"
    using isTagPresent_spec [OF frameD(1) [OF f(1)] b, of now] isTagPresent_spec [OF inv assms(5), of now]
      present_loc_None [of c' b] present_loc_None [of c b] by simp_all
  note eqs = this findTagInSet_inv [OF frameD(1) [OF f(1)] b] findTagInSet_inv [OF inv assms(5)]
    findTagInSetIgnorePermissions_inv [OF inv assms(5)]
  show ?thesis unfolding eqs f(3) by (simp del: not_None_eq)
qed

theorem record_moves_no_block_witness:
  "(\<exists>c c'. demo_state (fill_set0 @ [OpRecord 40 DataArrayWrite 0]) = Inr c \<and>
      recordRequestType 50 DataArrayWrite 0 c = Inr c' \<and>
      addressToCacheSet c' 0 \<noteq> addressToCacheSet c 0 \<and> findTagInSet c' 0 = findTagInSet c 0) \<and>
   (\<exists>c c'. demo_state (fill_set0 @ [OpChangePermission 0 NotPresent]) = Inr c \<and>
      recordRequestType 50 TagArrayWrite 0 c = Inr c' \<and>
      isTagPresent 50 0 c = Inr False \<and> isTagPresent 50 0 c' = Inr True)"
proof
  let ?ops = "fill_set0 @ [OpRecord 40 DataArrayWrite 0]"
  have "bindE (demo_state ?ops) (\<lambda>c. Inr (is_line c 0 \<and>
      (case recordRequestType 50 DataArrayWrite 0 c of
         Inr c' \<Rightarrow> addressToCacheSet c' 0 \<noteq> addressToCacheSet c 0 | Inl _ \<Rightarrow> False))) = Inr True"
    by code_simp
  then obtain c where c: "demo_state ?ops = Inr c" "is_line c 0"
    "case recordRequestType 50 DataArrayWrite 0 c of
         Inr c' \<Rightarrow> addressToCacheSet c' 0 \<noteq> addressToCacheSet c 0 | Inl _ \<Rightarrow> False"
    by (rule demo_eval) blast
  then obtain c' where c': "recordRequestType 50 DataArrayWrite 0 c = Inr c'"
    "addressToCacheSet c' 0 \<noteq> addressToCacheSet c 0"
    by (auto split: sum.splits)
  show "\<exists>c c'. demo_state ?ops = Inr c \<and> recordRequestType 50 DataArrayWrite 0 c = Inr c' \<and>
      addressToCacheSet c' 0 \<noteq> addressToCacheSet c 0 \<and> findTagInSet c' 0 = findTagInSet c 0"
    using record_moves_no_block [OF demo_hyps demo_running [OF c(1)] c'(1) c(2)] c(1) c' by auto
next
  let ?ops = "fill_set0 @ [OpChangePermission 0 NotPresent]"
  have "bindE (demo_state ?ops) (\<lambda>c. Inr (is_line c 0 \<and> okE (recordRequestType 50 TagArrayWrite 0 c) \<and>
      isTagPresent 50 0 c = Inr False \<and> findTagInSetIgnorePermissions c 0 = Inr (Some (0, 0)))) = Inr True"
    by code_simp
  then obtain c where c: "demo_state ?ops = Inr c" "is_line c 0" "okE (recordRequestType 50 TagArrayWrite 0 c)"
    "isTagPresent 50 0 c = Inr False" "findTagInSetIgnorePermissions c 0 = Inr (Some (0, 0))"
    by (rule demo_eval) blast
  obtain c' where c': "recordRequestType 50 TagArrayWrite 0 c = Inr c'" using okE_D [OF c(3)] by blast
  show "\<exists>c c'. demo_state ?ops = Inr c \<and> recordRequestType 50 TagArrayWrite 0 c = Inr c' \<and>
      isTagPresent 50 0 c = Inr False \<and> isTagPresent 50 0 c' = Inr True"
    using record_moves_no_block [OF demo_hyps demo_running [OF c(1)] c' c(2)] c c' by auto
qed

text \<open>
  C14. Hot pages: starting from a page that is not redirected and whose write counter is below
  saturation, a sequence of data writes to present lines of that page redirects it exactly when it
  brings the count to 15; the page is then mapped to its number modulo the zone size, it stays so for
  all further writes, and no other page is redirected.
\<close>

theorem page_redirected_at_15:
  assumes "fresh_policy P ok g (num_sets_of p blk) (p_assoc p)" and "params_ok p clk blk"
    and "running P f g p clk blk c" and "m_lazy_redirection_scheme c"
    and "m_chunk_redirection_table c ch = None" and "sc_value (page_counter c ch) < 15"
    and "\<forall>(t, a) \<in> set ws. chunk_ID a = ch \<and> blocks c a \<noteq> None"
    and "run_ops P f (map (\<lambda>(t, a). OpRecord t DataArrayWrite a) ws) c = Inr c'"
  shows "m_chunk_redirection_table c' =
    (if sc_value (page_counter c ch) + length ws < 15 then m_chunk_redirection_table c
     else (m_chunk_redirection_table c)(ch \<mapsto> unat ch mod zone_size_of c))"
  by (rule page_writes [OF assms(8) running_ok(3) [OF assms(1-3)] assms(4-7)])

theorem page_redirected_at_15_witness:
  "\<exists>c c'. demo_state fill_set0 = Inr c \<and>
     run_ops lru_policy id (replicate 15 (OpRecord 50 DataArrayWrite 0)) c = Inr c' \<and>
     m_chunk_redirection_table c' 0 = Some 0"
proof -
  let ?ws = "replicate 15 (50 :: Tick, 0 :: Addr)"
  let ?ops = "map (\<lambda>(t, a). OpRecord t DataArrayWrite a) ?ws :: unit cache_op list"
  have "bindE (demo_state fill_set0) (\<lambda>c. Inr (m_lazy_redirection_scheme c \<and>
      m_chunk_redirection_table c 0 = None \<and> sc_value (page_counter c 0) = 0 \<and> blocks c 0 \<noteq> None \<and>
      chunk_ID 0 = 0 \<and> okE (run_ops lru_policy id ?ops c))) = Inr True"
    by code_simp
  then obtain c where c: "demo_state fill_set0 = Inr c" "m_lazy_redirection_scheme c"
    "m_chunk_redirection_table c 0 = None" "sc_value (page_counter c 0) = 0" "blocks c 0 \<noteq> None"
    "chunk_ID 0 = 0" "okE (run_ops lru_policy id ?ops c)"
    by (rule demo_eval) blast
  obtain c' where c': "run_ops lru_policy id ?ops c = Inr c'" using okE_D [OF c(7)] by blast
  have v: "sc_value (page_counter c 0) < 15" using c(4) by simp
  have m: "\<forall>(t, a) \<in> set ?ws. chunk_ID a = 0 \<and> blocks c a \<noteq> None" using c(5,6) by simp
  have "m_chunk_redirection_table c' 0 = Some 0"
    using page_redirected_at_15 [OF demo_hyps demo_running [OF c(1)] c(2,3) v m c'] c(4) by simp
  then show ?thesis using c(1) c' by (simp add: map_replicate)
qed

text \<open>
  C15. Retention window: after a data write to a present block, a look-up at a later tick finds the
  block where it was and finds it expired exactly when the block is neither Busy nor Maybe\_Stale and
  the retention time of the zone its address maps to has passed since the write.
\<close>

theorem retention_window:
  assumes "fresh_policy P ok g (num_sets_of p blk) (p_assoc p)" and "params_ok p clk blk"
    and "running P f g p clk blk c" and "blocks c a = Some x" and "addressToCacheSet c a = Inr s"
    and "recordRequestType now DataArrayWrite a c = Inr c1"
  shows "\<exists>c2 y. cm_lookup t a c1 = Inr (present_loc c a, c2) \<and> blocks c2 a = Some y \<and>
    (m_is_expired y \<longleftrightarrow> m_Permission x \<noteq> Busy \<and> m_Permission x \<noteq> Maybe_Stale \<and> now + limit_at c s < t)"
proof -
  note inv = running_ok(3) [OF assms(1-3)]
  have a: "is_line c a" using blocks_Some [OF inv assms(4)] by blast
  obtain loc where loc: "present_loc c a = Some loc" using present_loc_None [of c a] assms(4) by auto
  obtain d where d: "recordRequestType now DataArrayWrite a c = Inr d" "frame c d"
    "\<And>x loc. blocks c a = Some x \<Longrightarrow> present_loc c a = Some loc \<Longrightarrow>
      blocks d a = Some (recorded now DataArrayWrite (limit_at c s) (limit_at c (fst loc)) x)"
    by (rule recordRequestType_spec [OF inv a assms(5), of now DataArrayWrite]) (rule that)
  have c1: "d = c1" using d(1) assms(6) by simp
  have i1: "cm_inv c1" "is_line c1 a" using frameD [OF d(2)] a c1 by simp_all
  have b1: "blocks c1 a = Some (refresh_entry now (limit_at c s) (entry_setLastAccess now x))"
    using d(3) [OF assms(4) loc] c1 by (simp add: recorded_def)
  have l1: "present_loc c1 a = present_loc c a" using record_step_present [OF inv assms(6), of a] assms(4) by simp
  obtain q c2 where c2: "cm_lookup t a c1 = Inr (q, c2)"
    "blocks c2 = (blocks c1)(a := map_option (expire_entry t) (blocks c1 a))" "q = present_loc c1 a"
    by (rule cm_lookup_spec [OF i1, of t]) (rule that)
  then show ?thesis
    using b1 l1 by (auto simp: expire_entry_def retention_passed_def refresh_entry_def entry_setLastAccess_def)
qed

theorem retention_window_witness:
  "\<exists>c c1 c2 y. demo_state fill_set0 = Inr c \<and> recordRequestType 40 DataArrayWrite 0 c = Inr c1 \<and>
     cm_lookup 1041 0 c1 = Inr (present_loc c 0, c2) \<and> blocks c2 0 = Some y \<and> m_is_expired y"
proof -
  have "bindE (demo_state fill_set0) (\<lambda>c. Inr (addressToCacheSet c 0 = Inr 0 \<and> limit_at c 0 = 1000 \<and>
      map_option m_Permission (blocks c 0) = Some Read_Write \<and> okE (recordRequestType 40 DataArrayWrite 0 c))) = Inr True"
    by code_simp
  then obtain c where c: "demo_state fill_set0 = Inr c" "addressToCacheSet c 0 = Inr 0" "limit_at c 0 = 1000"
    "map_option m_Permission (blocks c 0) = Some Read_Write" "okE (recordRequestType 40 DataArrayWrite 0 c)"
    by (rule demo_eval) blast
  obtain c1 where c1: "recordRequestType 40 DataArrayWrite 0 c = Inr c1" using okE_D [OF c(5)] by blast
  obtain x where x: "blocks c 0 = Some x" "m_Permission x = Read_Write" using c(4) by auto
  show ?thesis
    using retention_window [OF demo_hyps demo_running [OF c(1)] x(1) c(2) c1, of 1041] c x c1 by auto
qed

text \<open>
  C16. Capacity: the present blocks of a reachable cache are finitely many, no more than sets times
  ways, and no set holds more than the associativity.
\<close>

theorem capacity:
  assumes "fresh_policy P ok g (num_sets_of p blk) (p_assoc p)" and "params_ok p clk blk"
    and "running P f g p clk blk c"
  shows "finite (dom (blocks c)) \<and> card (dom (blocks c)) \<le> m_cache_num_sets c * m_cache_assoc c \<and>
    card {a \<in> dom (blocks c). map_option fst (present_loc c a) = Some s} \<le> m_cache_assoc c"
proof -
  note inv = running_ok(3) [OF assms]
  let ?l = "\<lambda>a. the (present_loc c a)"
  have loc: "?l a \<in> {..<m_cache_num_sets c} \<times> {..<m_cache_assoc c}" if mem: "a \<in> dom (blocks c)" for a
  proof -
    obtain x where x: "blocks c a = Some x" using mem by blast
    obtain e where "m_tag_index c a = Some e" "in_range c (decode_loc e)" using blocks_Some [OF inv x] .
    then show ?thesis using x by (simp add: present_loc_def mem_Times_iff)
  qed
  have inj: "inj_on ?l (dom (blocks c))"
  proof (rule inj_onI)
    fix a b assume ab: "a \<in> dom (blocks c)" "b \<in> dom (blocks c)" "?l a = ?l b"
    obtain x y where xy: "blocks c a = Some x" "blocks c b = Some y" using ab by blast
    obtain e where "m_tag_index c a = Some e" using blocks_Some [OF inv xy(1)] by metis
    moreover obtain d where "m_tag_index c b = Some d" using blocks_Some [OF inv xy(2)] by metis
    ultimately show "a = b" using index_inj [OF inv] ab(3) xy by (simp add: present_loc_def)
  qed
  have im: "?l ` dom (blocks c) \<subseteq> {..<m_cache_num_sets c} \<times> {..<m_cache_assoc c}" using loc by blast
  let ?S = "{a \<in> dom (blocks c). map_option fst (present_loc c a) = Some s}"
  have "?l ` ?S \<subseteq> {s} \<times> {..<m_cache_assoc c}"
    using loc by (fastforce simp: mem_Times_iff)
  moreover have "inj_on ?l ?S" using inj by (rule inj_on_subset) blast
  ultimately have "card ?S \<le> m_cache_assoc c"
    using card_inj_on_le [of ?l ?S "{s} \<times> {..<m_cache_assoc c}"] by (simp add: card_cartesian_product)
  then show ?thesis
    using card_inj_on_le [OF inj im] inj_on_finite [OF inj im] by (simp add: card_cartesian_product)
qed

theorem capacity_witness:
  "\<exists>c. demo_state fill_set0 = Inr c \<and> card (dom (blocks c)) \<le> 16"
proof -
  have "bindE (demo_state fill_set0) (\<lambda>c. Inr (m_cache_num_sets c = 8 \<and> m_cache_assoc c = 2)) = Inr True"
    by code_simp
  then obtain c where c: "demo_state fill_set0 = Inr c" "m_cache_num_sets c = 8" "m_cache_assoc c = 2"
    by (rule demo_eval) blast
  show ?thesis using capacity [OF demo_hyps demo_running [OF c(1)]] c by auto
qed

text \<open>
  C17. Load-linked locks: after \<open>setLocked\<close> of a present block for a context, \<open>isLocked\<close> holds for that
  context and for no other; and when the block loses its permission (Invalid), the lock is gone.
\<close>

theorem lock_until_invalid:
  assumes "fresh_policy P ok g (num_sets_of p blk) (p_assoc p)" and "params_ok p clk blk"
    and "running P f g p clk blk c" and "blocks c a = Some x" and "cm_setLocked t1 a ctx c = Inr c1"
    and "0 \<le> ctx'"
  shows "(\<exists>c2. cm_isLocked t2 a ctx' c1 = Inr (ctx = ctx', c2)) \<and>
    (\<exists>c2 c3. change_permission a PermInvalid c1 = Inr c2 \<and> cm_isLocked t3 a ctx' c2 = Inr (False, c3))"
proof -
  note inv = running_ok(3) [OF assms(1-3)]
  have a: "is_line c a" using blocks_Some [OF inv assms(4)] by blast
  let ?y = "entry_setLocked ctx (expire_entry t1 x)"
  have u1: "updates a (Some ?y) c c1" using cm_setLocked_spec [OF inv a assms(4), of t1 ctx] assms(5) by auto
  then have i1: "cm_inv c1" "is_line c1 a" "blocks c1 a = Some ?y"
    using updatesD [OF u1] a by (auto simp: updates_def)
  obtain c2 where c2: "change_permission a PermInvalid c1 = Inr c2"
    "updates a (Some (entry_changePermission PermInvalid ?y)) c1 c2"
    using change_permission_spec [OF i1(1,2), of PermInvalid] i1(3) by auto
  then have i2: "cm_inv c2" "is_line c2 a" "blocks c2 a = Some (entry_changePermission PermInvalid ?y)"
    using updatesD [OF c2(2)] i1(2) by (auto simp: updates_def)
  have "m_locked ?y = ctx" "m_locked (entry_changePermission PermInvalid ?y) = - 1"
    by (simp_all add: entry_setLocked_def entry_changePermission_def)
  then show ?thesis
    using cm_isLocked_spec [OF i1, of t2 ctx'] cm_isLocked_spec [OF i2, of t3 ctx'] c2(1) assms(6) by auto
qed

theorem lock_until_invalid_witness:
  "\<exists>c c1 c2. demo_state fill_set0 = Inr c \<and> cm_setLocked 40 0 3 c = Inr c1 \<and>
     cm_isLocked 41 0 3 c1 = Inr (True, c2)"
proof -
  have "bindE (demo_state fill_set0) (\<lambda>c. Inr (blocks c 0 \<noteq> None \<and> okE (cm_setLocked 40 0 3 c))) = Inr True"
    by code_simp
  then obtain c where c: "demo_state fill_set0 = Inr c" "blocks c 0 \<noteq> None" "okE (cm_setLocked 40 0 3 c)"
    by (rule demo_eval) blast
  obtain x c1 where x: "blocks c 0 = Some x" "cm_setLocked 40 0 3 c = Inr c1" using c okE_D by blast
  show ?thesis using lock_until_invalid [OF demo_hyps demo_running [OF c(1)] x, of 3 41] c(1) x by auto
qed

text \<open>
  C18. A cache that is not STT-RAM also loses its blocks: \<open>allocate\<close> gives a new entry the retention
  limit 0 there, and \<open>lookup\<close> does not exempt that limit, so the first look-up at any later tick marks
  the block as expired.
\<close>

theorem sram_block_expires:
  assumes "fresh_policy P ok g (num_sets_of p blk) (p_assoc p)" and "params_ok p clk blk"
    and "running P f g p clk blk c" and "\<not> m_is_sttram c" and "is_line c a"
    and "cacheAvail a c = Inr True" and "m_tag_index c a = None" and "now < t"
  shows "\<exists>loc c1 c2 y. allocate P now a e c = Inr (loc, c1) \<and> cm_lookup t a c1 = Inr (Some loc, c2) \<and>
    blocks c2 a = Some y \<and> m_is_expired y"
proof -
  note r = running_ok(1,2) [OF assms(1-3)]
  obtain loc c1 where c1: "allocate P now a e c = Inr (loc, c1)" "cm_ok ok c1"
    "blocks c1 = (blocks c)(a \<mapsto> allocate_result now a e loc c)" "present_loc c1 a = Some loc"
    by (rule replacement_policy.allocate_spec [OF r assms(5,6), of now e]) (rule that)
  have i1: "cm_inv c1" using c1(2) by (simp add: cm_ok_def)
  have "blocks c1 a = Some (allocate_result now a e loc c)" using c1(3) by simp
  then have "is_line c1 a" using blocks_Some [OF i1] by metis
  then obtain q c2 where c2: "cm_lookup t a c1 = Inr (q, c2)"
    "blocks c2 = (blocks c1)(a := map_option (expire_entry t) (blocks c1 a))" "q = present_loc c1 a"
    by (rule cm_lookup_spec [OF i1, of a t]) (rule that)
  have "m_is_expired (expire_entry t (allocate_result now a e loc c))"
    using assms(4,7,8)
    by (simp add: expire_entry_def retention_passed_def allocate_result_def allocated_def)
  then show ?thesis using c1 c2 by auto
qed

theorem sram_block_expires_witness:
  "\<exists>c loc c1 c2 y. cm_boot lru_policy () (demo_params\<lparr>p_is_sttram := False, p_lazy_redirection_scheme := False\<rparr>)
       500 64 = Inr c \<and> allocate lru_policy 10 0 demo_entry c = Inr (loc, c1) \<and>
     cm_lookup 11 0 c1 = Inr (Some loc, c2) \<and> blocks c2 0 = Some y \<and> m_is_expired y"
proof -
  let ?p = "demo_params\<lparr>p_is_sttram := False, p_lazy_redirection_scheme := False\<rparr>"
  have p: "params_ok ?p 500 64" by (simp add: params_ok_def demo_params_def num_sets_of_def)
  have "bindE (cm_boot lru_policy () ?p 500 64 :: (lru_data, unit, unit) cache_memory res) (\<lambda>c.
      Inr (\<not> m_is_sttram c \<and> is_line c 0 \<and> cacheAvail 0 c = Inr True \<and> m_tag_index c 0 = None)) = Inr True"
    by code_simp
  then obtain c :: "(lru_data, unit, unit) cache_memory" where c: "cm_boot lru_policy () ?p 500 64 = Inr c"
    "\<not> m_is_sttram c" "is_line c 0" "cacheAvail 0 c = Inr True" "m_tag_index c 0 = None"
    by (auto simp: bindE_eq_Inr)
  have r: "running lru_policy id () ?p 500 64 c" using c(1) by (auto simp: running_def intro: reachable.start)
  show ?thesis
    using sram_block_expires [OF lru_fresh.fresh_policy_axioms p r c(2-5), of 10 11 demo_entry] c(1) by auto
qed

end
